(* ===== verification/Prelude.thy ===== *)
theory Prelude
  imports Main "HOL-Library.Sublist"
begin

text \<open>
  Shared vocabulary of the development: byte strings, results with an error side, and the
  parts of Go's packages \<^verbatim>\<open>strings\<close>, \<^verbatim>\<open>bytes\<close>, \<^verbatim>\<open>slices\<close> and \<^verbatim>\<open>strconv\<close> the exporter calls.
  A Go string or \<^verbatim>\<open>[]byte\<close> is a list of bytes, that is a \<^typ>\<open>string\<close>: every \<^typ>\<open>char\<close> is one
  byte, so \<^const>\<open>length\<close> is Go's \<^verbatim>\<open>len\<close>.  A fallible operation returns a sum with the error on
  the left.  The collection \<open>go_string\<close> holds the equations that relate the string
  operations to \<^const>\<open>prefix\<close>, \<^const>\<open>suffix\<close> and \<^const>\<open>set\<close>; \<open>go_result\<close> those on results.
\<close>

named_theorems go_string \<open>characterisations of the Go string operations\<close>
named_theorems go_result \<open>equations on results\<close>

type_synonym bytes = string

section \<open>Results\<close>

definition res_bind :: "'e + 'a \<Rightarrow> ('a \<Rightarrow> 'e + 'b) \<Rightarrow> 'e + 'b" where
  "res_bind r f = (case r of Inl e \<Rightarrow> Inl e | Inr a \<Rightarrow> f a)"

definition map_err :: "('e \<Rightarrow> 'f) \<Rightarrow> 'e + 'a \<Rightarrow> 'f + 'a" where
  "map_err g r = (case r of Inl e \<Rightarrow> Inl (g e) | Inr a \<Rightarrow> Inr a)"

text \<open>A Go loop that appends one result per element and returns at the first error.\<close>

fun res_map :: "('a \<Rightarrow> 'e + 'b) \<Rightarrow> 'a list \<Rightarrow> 'e + 'b list" where
  "res_map f [] = Inr []"
| "res_map f (x # xs) =
     (case f x of Inl e \<Rightarrow> Inl e
      | Inr y \<Rightarrow> (case res_map f xs of Inl e \<Rightarrow> Inl e | Inr ys \<Rightarrow> Inr (y # ys)))"

lemma res_bind_Inl [simp, go_result]: "res_bind (Inl e) f = Inl e"
  and res_bind_Inr [simp, go_result]: "res_bind (Inr a) f = f a"
  by (simp_all add: res_bind_def)

lemma map_err_Inl [simp, go_result]: "map_err g (Inl e) = Inl (g e)"
  and map_err_Inr [simp, go_result]: "map_err g (Inr a) = Inr a"
  by (simp_all add: map_err_def)

lemma res_bind_eq_Inr [go_result]:
  "res_bind r f = Inr b \<longleftrightarrow> (\<exists>a. r = Inr a \<and> f a = Inr b)"
  by (cases r) simp_all

lemma map_err_eq_Inr [go_result]: "map_err g r = Inr b \<longleftrightarrow> r = Inr b"
  by (cases r) simp_all

lemma map_err_eq_Inl [go_result]: "map_err g r = Inl f \<longleftrightarrow> (\<exists>e. r = Inl e \<and> f = g e)"
  by (cases r) auto

text \<open>A check that stops at its first error.\<close>

lemma first_error_None [go_result]:
  "(case x of None \<Rightarrow> y | Some e \<Rightarrow> Some (f e)) = None \<longleftrightarrow> x = None \<and> y = None"
  by (cases x) simp_all

lemma res_map_Inr_iff [go_result]:
  "res_map f xs = Inr ys \<longleftrightarrow> list_all2 (\<lambda>x y. f x = Inr y) xs ys"
proof (induction xs arbitrary: ys)
  case Nil
  then show ?case by auto
next
  case (Cons x xs)
  show ?case
  proof (cases "res_map f xs")
    case (Inl e)
    then have "\<not> list_all2 (\<lambda>x y. f x = Inr y) xs zs" for zs
      using Cons.IH [of zs] by simp
    with Inl show ?thesis by (cases ys) (auto split: sum.splits)
  next
    case (Inr zs)
    then have "list_all2 (\<lambda>x y. f x = Inr y) xs ws \<longleftrightarrow> zs = ws" for ws
      using Cons.IH [of ws] by simp
    with Inr show ?thesis by (cases ys) (auto split: sum.splits)
  qed
qed

lemma res_map_Inl_iff:
  "(\<exists>e. res_map f xs = Inl e) \<longleftrightarrow> (\<exists>x\<in>set xs. \<exists>e. f x = Inl e)"
  by (induction xs) (auto split: sum.splits)

lemma res_map_Inr_all: "res_map f xs = Inr ys \<Longrightarrow> x \<in> set xs \<Longrightarrow> \<exists>y\<in>set ys. f x = Inr y"
  unfolding res_map_Inr_iff by (induction xs ys rule: list_all2_induct) auto

lemma res_map_Inr_ex: "res_map f xs = Inr ys \<Longrightarrow> y \<in> set ys \<Longrightarrow> \<exists>x\<in>set xs. f x = Inr y"
  unfolding res_map_Inr_iff by (induction xs ys rule: list_all2_induct) auto

lemma res_map_map:
  assumes "\<And>x y. f x = Inr y \<longleftrightarrow> y = g x \<and> P x"
  shows "res_map f xs = Inr ys \<longleftrightarrow> ys = map g xs \<and> (\<forall>x\<in>set xs. P x)"
  unfolding res_map_Inr_iff list_all2_map2 assms
  by (induction xs arbitrary: ys) (auto simp: list_all2_Cons1)

lemma res_map_first_error:
  "res_map f xs = Inl e \<Longrightarrow> \<exists>pre x post. xs = pre @ x # post \<and> f x = Inl e \<and> (\<forall>y\<in>set pre. \<exists>z. f y = Inr z)"
proof (induction xs)
  case (Cons x xs)
  show ?case
  proof (cases "f x")
    case (Inl d)
    with Cons.prems show ?thesis by (intro exI [of _ "[]"]) simp
  next
    case (Inr y)
    with Cons obtain pre z post where "xs = pre @ z # post" "f z = Inl e" "\<forall>y\<in>set pre. \<exists>z. f y = Inr z"
      by (auto split: sum.splits)
    with Inr show ?thesis by (intro exI [of _ "x # pre"]) simp
  qed
qed simp

section \<open>Byte strings\<close>

definition byte :: "char \<Rightarrow> int" where
  "byte c = of_char c"

lemma byte_bounds: "0 \<le> byte c" "byte c < 256"
proof -
  have "byte c = byte c mod 256"
    unfolding byte_def by (metis char_of_char of_char_of)
  then show "0 \<le> byte c" "byte c < 256"
    using pos_mod_sign [of 256 "byte c"] pos_mod_bound [of 256 "byte c"] by linarith+
qed

lemma byte_char_of: "0 \<le> n \<Longrightarrow> n < 256 \<Longrightarrow> byte (char_of n) = n"
  by (simp add: byte_def)

definition HasPrefix :: "'a list \<Rightarrow> 'a list \<Rightarrow> bool" where
  "HasPrefix s p \<longleftrightarrow> take (length p) s = p"

definition HasSuffix :: "'a list \<Rightarrow> 'a list \<Rightarrow> bool" where
  "HasSuffix s x \<longleftrightarrow> length x \<le> length s \<and> drop (length s - length x) s = x"

definition TrimPrefix :: "'a list \<Rightarrow> 'a list \<Rightarrow> 'a list" where
  "TrimPrefix s p = (if HasPrefix s p then drop (length p) s else s)"

definition TrimSuffix :: "'a list \<Rightarrow> 'a list \<Rightarrow> 'a list" where
  "TrimSuffix s x = (if HasSuffix s x then take (length s - length x) s else s)"

definition CutPrefix :: "'a list \<Rightarrow> 'a list \<Rightarrow> 'a list option" where
  "CutPrefix s p = (if HasPrefix s p then Some (drop (length p) s) else None)"

definition ContainsByte :: "'a list \<Rightarrow> 'a \<Rightarrow> bool" where
  "ContainsByte s c \<longleftrightarrow> c \<in> set s"

text \<open>\<open>CutByte s c\<close> is Go's \<^verbatim>\<open>Cut\<close> with a one-byte separator, without the found flag.\<close>

definition CutByte :: "'a list \<Rightarrow> 'a \<Rightarrow> 'a list \<times> 'a list" where
  "CutByte s c = (takeWhile (\<lambda>x. x \<noteq> c) s, drop 1 (dropWhile (\<lambda>x. x \<noteq> c) s))"

text \<open>\<open>CutLastByte s c\<close> splits at the last occurrence, as slicing at \<^verbatim>\<open>LastIndexByte\<close> does.\<close>

definition CutLastByte :: "'a list \<Rightarrow> 'a \<Rightarrow> ('a list \<times> 'a list) option" where
  "CutLastByte s c =
     (if c \<in> set s
      then Some (rev (drop 1 (dropWhile (\<lambda>x. x \<noteq> c) (rev s))), rev (takeWhile (\<lambda>x. x \<noteq> c) (rev s)))
      else None)"

lemma HasPrefix_prefix [go_string]: "HasPrefix s p \<longleftrightarrow> prefix p s"
  unfolding HasPrefix_def prefix_def by (metis append_eq_conv_conj append_take_drop_id)

lemma HasSuffix_suffix [go_string]: "HasSuffix s x \<longleftrightarrow> suffix x s"
proof
  assume "HasSuffix s x"
  then show "suffix x s" unfolding HasSuffix_def by (metis suffix_drop)
next
  assume "suffix x s"
  then show "HasSuffix s x" unfolding HasSuffix_def by (auto simp: suffix_def)
qed

lemma HasPrefix_append [simp]: "HasPrefix (p @ s) p"
  by (simp add: HasPrefix_def)

lemma TrimPrefix_append [simp]: "TrimPrefix (p @ s) p = s"
  by (simp add: TrimPrefix_def)

lemma TrimSuffix_append [simp]: "TrimSuffix (s @ x) x = s"
  by (simp add: TrimSuffix_def HasSuffix_def)

lemma CutPrefix_eq_Some [go_string]: "CutPrefix s p = Some r \<longleftrightarrow> s = p @ r"
  unfolding CutPrefix_def HasPrefix_def
  by (metis append_eq_conv_conj append_take_drop_id option.distinct(1) option.inject)

lemma CutPrefix_eq_None [go_string]: "CutPrefix s p = None \<longleftrightarrow> \<not> prefix p s"
  by (simp add: CutPrefix_def HasPrefix_prefix)

lemma TrimSuffix_cases:
  obtains "s = TrimSuffix s x @ x" | "TrimSuffix s x = s" and "\<not> suffix x s"
proof (cases "HasSuffix s x")
  case True
  then obtain r where "s = r @ x" by (auto simp: HasSuffix_suffix suffix_def)
  then show ?thesis using that(1) by simp
next
  case False
  then show ?thesis using that(2) by (simp add: TrimSuffix_def HasSuffix_suffix)
qed

lemma set_TrimSuffix_subset: "set (TrimSuffix s x) \<subseteq> set s"
  by (auto simp: TrimSuffix_def dest: in_set_takeD)

lemma set_TrimSuffix_byte: "d \<noteq> c \<Longrightarrow> d \<in> set (TrimSuffix s [c]) \<longleftrightarrow> d \<in> set s"
  by (cases s rule: rev_cases) (auto simp: TrimSuffix_def HasSuffix_def)

lemma length_TrimSuffix_le: "length (TrimSuffix s x) \<le> length s"
  by (simp add: TrimSuffix_def)

lemma ContainsByte_set [simp, go_string]: "ContainsByte s c \<longleftrightarrow> c \<in> set s"
  by (simp add: ContainsByte_def)

lemma takeWhile_neq_append: "c \<notin> set a \<Longrightarrow> takeWhile (\<lambda>x. x \<noteq> c) (a @ c # b) = a"
  and dropWhile_neq_append: "c \<notin> set a \<Longrightarrow> dropWhile (\<lambda>x. x \<noteq> c) (a @ c # b) = c # b"
  and takeWhile_neq_notin: "c \<notin> set a \<Longrightarrow> takeWhile (\<lambda>x. x \<noteq> c) a = a"
  and dropWhile_neq_notin: "c \<notin> set a \<Longrightarrow> dropWhile (\<lambda>x. x \<noteq> c) a = []"
  by (induction a) auto

lemma dropWhile_neq_eq_Nil: "dropWhile (\<lambda>x. x \<noteq> c) a = [] \<longleftrightarrow> c \<notin> set a"
  by (induction a) auto

lemmas while_neq = takeWhile_neq_append dropWhile_neq_append takeWhile_neq_notin dropWhile_neq_notin

lemma CutByte_notin [simp]: "c \<notin> set s \<Longrightarrow> CutByte s c = (s, [])"
  by (simp add: CutByte_def while_neq)

lemma CutByte_append [simp]: "c \<notin> set a \<Longrightarrow> CutByte (a @ c # b) c = (a, b)"
  by (simp add: CutByte_def while_neq)

lemma CutByte_in: "c \<in> set s \<Longrightarrow> CutByte s c = (a, b) \<Longrightarrow> s = a @ c # b \<and> c \<notin> set a"
  by (metis CutByte_append prod.inject split_list_first)

lemma CutByte_subset: "CutByte s c = (a, b) \<Longrightarrow> set a \<subseteq> set s \<and> set b \<subseteq> set s"
  by (cases "c \<in> set s") (auto dest: CutByte_in)

lemma CutLastByte_None [simp]: "CutLastByte s c = None \<longleftrightarrow> c \<notin> set s"
  by (simp add: CutLastByte_def)

lemma CutLastByte_append [simp]: "c \<notin> set b \<Longrightarrow> CutLastByte (a @ c # b) c = Some (a, b)"
  by (simp add: CutLastByte_def while_neq)

lemma CutLastByte_eq_Some [go_string]:
  "CutLastByte s c = Some (a, b) \<longleftrightarrow> s = a @ c # b \<and> c \<notin> set b"
proof
  assume s: "CutLastByte s c = Some (a, b)"
  then have "c \<in> set s" by (metis CutLastByte_None option.distinct(1))
  then obtain a' b' where "s = a' @ c # b'" "c \<notin> set b'" by (metis split_list_last)
  with s show "s = a @ c # b \<and> c \<notin> set b" by simp
qed simp

section \<open>ASCII classes and lower case\<close>

definition is_digit :: "char \<Rightarrow> bool" where
  "is_digit c \<longleftrightarrow> 48 \<le> byte c \<and> byte c \<le> 57"

definition is_upper :: "char \<Rightarrow> bool" where
  "is_upper c \<longleftrightarrow> 65 \<le> byte c \<and> byte c \<le> 90"

definition is_ascii :: "char \<Rightarrow> bool" where
  "is_ascii c \<longleftrightarrow> byte c < 128"

definition is_printable :: "char \<Rightarrow> bool" where
  "is_printable c \<longleftrightarrow> \<not> (byte c < 32 \<or> byte c > 126)"

definition lower_byte :: "char \<Rightarrow> char" where
  "lower_byte c = (if is_upper c then char_of (byte c + 32) else c)"

text \<open>
  \<^verbatim>\<open>strings.ToLower\<close> maps the bytes \<^verbatim>\<open>A\<close>--\<^verbatim>\<open>Z\<close> of an ASCII string and passes any other string
  through the Unicode tables; those tables are the argument \<open>ul\<close>.
\<close>

definition ToLower :: "(string \<Rightarrow> string) \<Rightarrow> string \<Rightarrow> string" where
  "ToLower ul s = (if list_all is_ascii s then map lower_byte s else ul s)"

text \<open>
  What the code relies on in the Unicode tables: a rune is mapped to an ASCII byte outside the
  letters exactly when it is that byte, so punctuation is neither introduced nor lost.
\<close>

definition is_letter :: "char \<Rightarrow> bool" where
  "is_letter c \<longleftrightarrow> is_upper c \<or> (97 \<le> byte c \<and> byte c \<le> 122)"

definition keeps_punctuation :: "(string \<Rightarrow> string) \<Rightarrow> bool" where
  "keeps_punctuation ul \<longleftrightarrow>
     (\<forall>s c. is_ascii c \<longrightarrow> \<not> is_letter c \<longrightarrow> (c \<in> set (ul s) \<longleftrightarrow> c \<in> set s))"

lemma lower_byte_not_upper [simp]: "\<not> is_upper (lower_byte c)"
  by (auto simp: lower_byte_def is_upper_def byte_char_of)

lemma lower_byte_id [simp]: "\<not> is_upper c \<Longrightarrow> lower_byte c = c"
  by (simp add: lower_byte_def)

lemma lower_byte_ascii [simp]: "is_ascii (lower_byte c) \<longleftrightarrow> is_ascii c"
  by (auto simp: lower_byte_def is_ascii_def is_upper_def byte_char_of)

lemma lower_byte_eq_iff:
  "\<not> is_upper d \<Longrightarrow> \<not> (97 \<le> byte d \<and> byte d \<le> 122) \<Longrightarrow> lower_byte c = d \<longleftrightarrow> c = d"
  by (auto simp: lower_byte_def is_upper_def byte_char_of)

lemma lower_byte_punct: "\<not> is_letter d \<Longrightarrow> lower_byte c = d \<longleftrightarrow> c = d"
  by (rule lower_byte_eq_iff) (auto simp: is_letter_def)

lemma lower_byte_image_punct: "\<not> is_letter c \<Longrightarrow> c \<in> lower_byte ` A \<longleftrightarrow> c \<in> A"
  by (metis image_iff lower_byte_punct)

lemma keeps_punctuation_lower_byte: "keeps_punctuation (map lower_byte)"
  by (simp add: keeps_punctuation_def lower_byte_image_punct)

lemma set_ToLower_punct:
  assumes "keeps_punctuation ul" and "is_ascii c" and "\<not> is_letter c"
  shows "c \<in> set (ToLower ul s) \<longleftrightarrow> c \<in> set s"
proof (cases "list_all is_ascii s")
  case True
  with assms(3) show ?thesis by (simp add: ToLower_def lower_byte_image_punct)
next
  case False
  with assms show ?thesis by (auto simp: ToLower_def keeps_punctuation_def)
qed

lemma length_ToLower_ascii [simp]: "list_all is_ascii s \<Longrightarrow> length (ToLower ul s) = length s"
  by (simp add: ToLower_def)

lemma ToLower_lower [simp]:
  "list_all is_ascii s \<Longrightarrow> list_all (\<lambda>c. \<not> is_upper c) s \<Longrightarrow> ToLower ul s = s"
  by (simp add: ToLower_def list.pred_set map_idI)

lemma ToLower_idem: "list_all is_ascii s \<Longrightarrow> ToLower ul (ToLower ul s) = ToLower ul s"
  by (simp add: ToLower_def list.pred_map comp_def map_idI)

section \<open>strconv: decimal numbers\<close>

definition digit_char :: "int \<Rightarrow> char" where
  "digit_char d = char_of (48 + d)"

definition digit_val :: "char \<Rightarrow> int" where
  "digit_val c = byte c - 48"

function dec_digits :: "int \<Rightarrow> string" where
  "dec_digits n = (if n < 10 then [digit_char n] else dec_digits (n div 10) @ [digit_char (n mod 10)])"
  by pat_completeness auto
termination
  by (relation "measure nat") (auto simp: nat_mono_iff)

declare dec_digits.simps [simp del]

definition dec_val :: "string \<Rightarrow> int" where
  "dec_val s = foldl (\<lambda>n c. 10 * n + digit_val c) 0 s"

definition Itoa :: "int \<Rightarrow> string" where
  "Itoa n = (if n < 0 then CHR ''-'' # dec_digits (- n) else dec_digits n)"

datatype num_error = ErrSyntax | ErrRange

text \<open>\<^verbatim>\<open>strconv.Atoi\<close> on a platform whose \<^verbatim>\<open>int\<close> has 64 bits.\<close>

definition Atoi :: "string \<Rightarrow> num_error + int" where
  "Atoi s =
     (let neg = (s \<noteq> [] \<and> hd s = CHR ''-'');
          d = (if s \<noteq> [] \<and> (hd s = CHR ''-'' \<or> hd s = CHR ''+'') then tl s else s);
          n = dec_val d
      in if d = [] \<or> \<not> list_all is_digit d then Inl ErrSyntax
         else if neg then (if n > 2 ^ 63 then Inl ErrRange else Inr (- n))
         else (if n \<ge> 2 ^ 63 then Inl ErrRange else Inr n))"

lemma digit_char_props [simp]:
  assumes "0 \<le> d" and "d < 10"
  shows "is_digit (digit_char d)" and "digit_val (digit_char d) = d"
  using assms by (simp_all add: is_digit_def digit_val_def digit_char_def byte_char_of)

lemma dec_val_snoc [simp]: "dec_val (s @ [c]) = 10 * dec_val s + digit_val c"
  by (simp add: dec_val_def)

lemma dec_val_nonneg: "list_all is_digit s \<Longrightarrow> 0 \<le> dec_val s"
  by (induction s rule: rev_induct) (auto simp: dec_val_def digit_val_def is_digit_def)

lemma dec_digits_nonempty [simp]: "dec_digits n \<noteq> []"
  by (subst dec_digits.simps) simp

lemma dec_digits_digit: "0 \<le> n \<Longrightarrow> list_all is_digit (dec_digits n)"
proof (induction n rule: dec_digits.induct)
  case (1 n)
  then show ?case by (cases "n < 10") (simp_all add: dec_digits.simps [of n])
qed

lemma dec_val_dec_digits [simp]: "0 \<le> n \<Longrightarrow> dec_val (dec_digits n) = n"
proof (induction n rule: dec_digits.induct)
  case (1 n)
  show ?case
  proof (cases "n < 10")
    case True
    with "1.prems" show ?thesis by (simp add: dec_digits.simps [of n] dec_val_def)
  next
    case False
    with 1 show ?thesis by (simp add: dec_digits.simps [of n])
  qed
qed

lemma digit_not_sign: "is_digit c \<Longrightarrow> c \<noteq> CHR ''-'' \<and> c \<noteq> CHR ''+''"
  by (auto simp: is_digit_def byte_def)

lemma dec_digits_not_in: "0 \<le> n \<Longrightarrow> \<not> is_digit c \<Longrightarrow> c \<notin> set (dec_digits n)"
  using dec_digits_digit by (auto simp: list.pred_set)

lemma Atoi_digits:
  assumes "s \<noteq> []" and "list_all is_digit s"
  shows "Atoi s = (if dec_val s \<ge> 2 ^ 63 then Inl ErrRange else Inr (dec_val s))"
proof -
  from assms have "is_digit (hd s)" by (cases s) simp_all
  then have "hd s \<noteq> CHR ''-''" and "hd s \<noteq> CHR ''+''" by (auto dest: digit_not_sign)
  with assms show ?thesis by (simp add: Atoi_def Let_def)
qed

lemma Atoi_Itoa:
  assumes "- (2 ^ 63) \<le> n" and "n < 2 ^ 63"
  shows "Atoi (Itoa n) = Inr n"
proof (cases "n < 0")
  case True
  then have "Itoa n = CHR ''-'' # dec_digits (- n)" by (simp add: Itoa_def)
  then show ?thesis using True assms dec_digits_digit [of "- n"] by (simp add: Atoi_def Let_def)
next
  case False
  then have "Itoa n = dec_digits n" by (simp add: Itoa_def)
  then show ?thesis using False assms dec_digits_digit [of n] by (simp add: Atoi_digits)
qed

end
