(* ===== verification/Go_Net.thy ===== *)
theory Go_Net
  imports Prelude "HOL-Library.Word"
begin

text \<open>
  The parts of Go's \<^verbatim>\<open>net/netip\<close> and \<^verbatim>\<open>net\<close> the exporter's access control rests on: parsing
  of IP literals (\<^verbatim>\<open>ParseAddr\<close>), prefixes (\<^verbatim>\<open>ParsePrefix\<close>, \<^verbatim>\<open>Masked\<close>, \<^verbatim>\<open>Contains\<close>) and the
  host:port forms (\<^verbatim>\<open>SplitHostPort\<close>, \<^verbatim>\<open>JoinHostPort\<close>).  The callers only ask whether an error
  occurred, so a failed parse is \<^const>\<open>None\<close>.  An IPv4 address is a 32-bit word, an IPv6
  address a 128-bit word with its zone, which is empty when there is none; as in Go the two
  families never compare equal.
\<close>

unbundle bit_operations_syntax

section \<open>Addresses\<close>

datatype addr = IPv4 "32 word" | IPv6 "128 word" string

fun Zone :: "addr \<Rightarrow> string" where
  "Zone (IPv4 _) = []"
| "Zone (IPv6 _ z) = z"

fun Is4 :: "addr \<Rightarrow> bool" where
  "Is4 (IPv4 _) = True"
| "Is4 (IPv6 _ _) = False"

definition word_of_bytes :: "int list \<Rightarrow> 'w::len word" where
  "word_of_bytes bs = foldl (\<lambda>a b. 256 * a + of_int b) 0 bs"

text \<open>
  \<^verbatim>\<open>parseIPv4Fields\<close>: one pass over the digits and dots.  The flag says that the byte before
  is a dot or that there is none, \<open>fs\<close> holds the finished fields.
\<close>

fun parseIPv4Fields :: "bool \<Rightarrow> int \<Rightarrow> nat \<Rightarrow> int list \<Rightarrow> string \<Rightarrow> int list option" where
  "parseIPv4Fields dot val digLen fs [] = (if length fs < 3 then None else Some (fs @ [val]))"
| "parseIPv4Fields dot val digLen fs (c # cs) =
     (if is_digit c then
        (if digLen = 1 \<and> val = 0 then None
         else if val * 10 + digit_val c > 255 then None
         else parseIPv4Fields False (val * 10 + digit_val c) (digLen + 1) fs cs)
      else if c = CHR ''.'' then
        (if dot \<or> cs = [] then None
         else if length fs = 3 then None
         else parseIPv4Fields True 0 0 (fs @ [val]) cs)
      else None)"

definition parseIPv4 :: "string \<Rightarrow> addr option" where
  "parseIPv4 s = map_option (\<lambda>fs. IPv4 (word_of_bytes fs)) (parseIPv4Fields True 0 0 [] s)"

definition hex_digit :: "char \<Rightarrow> int option" where
  "hex_digit c =
     (if is_digit c then Some (byte c - 48)
      else if 97 \<le> byte c \<and> byte c \<le> 102 then Some (byte c - 87)
      else if 65 \<le> byte c \<and> byte c \<le> 70 then Some (byte c - 55)
      else None)"

text \<open>One group of hexadecimal digits: how many, their value and the rest of the string.\<close>

fun hex_group :: "nat \<Rightarrow> int \<Rightarrow> string \<Rightarrow> (nat \<times> int \<times> string) option" where
  "hex_group off acc [] = Some (off, acc, [])"
| "hex_group off acc (c # cs) =
     (case hex_digit c of
        None \<Rightarrow> Some (off, acc, c # cs)
      | Some d \<Rightarrow>
          if off > 3 then None
          else if 16 * acc + d > 65535 then None
          else hex_group (off + 1) (16 * acc + d) cs)"

text \<open>
  The loop of \<^verbatim>\<open>parseIPv6\<close>.  The first argument counts the groups that still fit, \<open>ip\<close> holds
  the bytes parsed so far and \<open>ell\<close> the position of the ellipsis.  Every iteration stores two
  bytes, so the loop of the source ends after at most eight iterations.
\<close>

fun ipv6_loop ::
    "nat \<Rightarrow> string \<Rightarrow> int list \<Rightarrow> nat option \<Rightarrow> (string \<times> int list \<times> nat option) option" where
  "ipv6_loop 0 s ip ell = Some (s, ip, ell)"
| "ipv6_loop (Suc n) s ip ell =
     (case hex_group 0 0 s of
        None \<Rightarrow> None
      | Some (off, acc, rest) \<Rightarrow>
          if off = 0 then None
          else if rest \<noteq> [] \<and> hd rest = CHR ''.'' then
            (if ell = None \<and> length ip \<noteq> 12 then None
             else if length ip + 4 > 16 then None
             else map_option (\<lambda>fs. ([], ip @ fs, ell)) (parseIPv4Fields True 0 0 [] s))
          else
            (let ip' = ip @ [acc div 256, acc mod 256] in
             if rest = [] then Some ([], ip', ell)
             else if hd rest \<noteq> CHR '':'' then None
             else if tl rest = [] then None
             else if hd (tl rest) = CHR '':'' then
               (if ell \<noteq> None then None
                else if tl (tl rest) = [] then Some ([], ip', Some (length ip'))
                else ipv6_loop n (tl (tl rest)) ip' (Some (length ip')))
             else ipv6_loop n (tl rest) ip' ell))"

definition expand_ellipsis :: "int list \<Rightarrow> nat option \<Rightarrow> int list option" where
  "expand_ellipsis ip ell =
     (case ell of
        None \<Rightarrow> if length ip < 16 then None else Some ip
      | Some e \<Rightarrow>
          if length ip < 16 then Some (take e ip @ replicate (16 - length ip) 0 @ drop e ip)
          else None)"

definition parseIPv6 :: "string \<Rightarrow> addr option" where
  "parseIPv6 s0 =
     (let (s, zone) = CutByte s0 (CHR ''%'') in
      if ContainsByte s0 (CHR ''%'') \<and> zone = [] then None
      else
        let lead = HasPrefix s ''::'';
            s1 = (if lead then drop 2 s else s)
        in if lead \<and> s1 = [] then Some (IPv6 0 zone)
           else
             (case ipv6_loop 8 s1 [] (if lead then Some 0 else None) of
                None \<Rightarrow> None
              | Some (rest, ip, ell) \<Rightarrow>
                  if rest \<noteq> [] then None
                  else map_option (\<lambda>bs. IPv6 (word_of_bytes bs) zone) (expand_ellipsis ip ell)))"

text \<open>\<^verbatim>\<open>ParseAddr\<close> chooses the family by the first dot, colon or percent sign.\<close>

definition ParseAddr :: "string \<Rightarrow> addr option" where
  "ParseAddr s =
     (case filter (\<lambda>c. c \<in> set ''.:%'') s of
        [] \<Rightarrow> None
      | c # _ \<Rightarrow>
          if c = CHR ''.'' then parseIPv4 s
          else if c = CHR '':'' then parseIPv6 s
          else None)"

lemma parseIPv4_Is4: "parseIPv4 s = Some a \<Longrightarrow> Is4 a"
  by (auto simp: parseIPv4_def)

lemma parseIPv6_not_Is4: "parseIPv6 s = Some a \<Longrightarrow> \<not> Is4 a"
  by (auto simp: parseIPv6_def Let_def split: prod.splits if_splits option.splits)

lemma parseIPv6_Zone: "parseIPv6 s = Some a \<Longrightarrow> Zone a = snd (CutByte s (CHR ''%''))"
  by (auto simp: parseIPv6_def Let_def split: prod.splits if_splits option.splits)

lemma parseIPv6_no_zone: "parseIPv6 s = Some a \<Longrightarrow> Zone a = [] \<longleftrightarrow> CHR ''%'' \<notin> set s"
proof
  assume p: "parseIPv6 s = Some a" and z: "Zone a = []"
  then have "snd (CutByte s (CHR ''%'')) = []" by (simp add: parseIPv6_Zone)
  with p show "CHR ''%'' \<notin> set s" by (auto simp: parseIPv6_def Let_def split: prod.splits)
next
  assume "parseIPv6 s = Some a" and "CHR ''%'' \<notin> set s"
  then show "Zone a = []" by (simp add: parseIPv6_Zone)
qed

lemma ParseAddr_cases:
  assumes "ParseAddr s = Some a"
  obtains "parseIPv4 s = Some a" and "CHR ''.'' \<in> set s"
    | "parseIPv6 s = Some a" and "CHR '':'' \<in> set s"
proof -
  obtain c cs where f: "filter (\<lambda>c. c \<in> set ''.:%'') s = c # cs"
    using assms by (auto simp: ParseAddr_def split: list.splits)
  then have "c \<in> set s" by (metis (no_types, lifting) filter_is_subset list.set_intros(1) subsetD)
  with f assms that show ?thesis by (auto simp: ParseAddr_def split: if_splits)
qed

text \<open>A string that parses as an IPv6 address contains a colon; only an IPv6 address has a zone.\<close>

lemma ParseAddr_IPv6_colon: "ParseAddr s = Some a \<Longrightarrow> \<not> Is4 a \<Longrightarrow> CHR '':'' \<in> set s"
  by (auto elim: ParseAddr_cases dest: parseIPv4_Is4)

lemma parseIPv4Fields_chars:
  "parseIPv4Fields dot val digLen fs s = Some bs \<Longrightarrow> c \<in> set s \<Longrightarrow> is_digit c \<or> c = CHR ''.''"
  by (induction dot val digLen fs s rule: parseIPv4Fields.induct) (auto split: if_splits)

lemma ParseAddr_no_zone:
  assumes "ParseAddr s = Some a"
  shows "Zone a = [] \<longleftrightarrow> CHR ''%'' \<notin> set s"
  using assms
proof (cases rule: ParseAddr_cases)
  case 1
  then obtain fs where "parseIPv4Fields True 0 0 [] s = Some fs" and a: "Is4 a"
    by (auto simp: parseIPv4_def)
  then have "CHR ''%'' \<notin> set s"
    by (auto dest: parseIPv4Fields_chars simp: is_digit_def byte_def)
  with a show ?thesis by (cases a) auto
next
  case 2
  then show ?thesis by (simp add: parseIPv6_no_zone)
qed

section \<open>Prefixes\<close>

type_synonym cidr = "addr \<times> nat"

fun BitLen :: "addr \<Rightarrow> nat" where
  "BitLen (IPv4 _) = 32"
| "BitLen (IPv6 _ _) = 128"

definition ParsePrefix :: "string \<Rightarrow> cidr option" where
  "ParsePrefix s =
     (case CutLastByte s (CHR ''/'') of
        None \<Rightarrow> None
      | Some (a, bitsStr) \<Rightarrow>
          (case ParseAddr a of
             None \<Rightarrow> None
           | Some ip \<Rightarrow>
               if Zone ip \<noteq> [] then None
               else if length bitsStr > 1 \<and>
                 (byte (hd bitsStr) < byte (CHR ''1'') \<or> byte (hd bitsStr) > byte (CHR ''9'')) then None
               else (case Atoi bitsStr of
                       Inl _ \<Rightarrow> None
                     | Inr n \<Rightarrow> if n < 0 \<or> n > int (BitLen ip) then None else Some (ip, nat n))))"

fun Masked :: "cidr \<Rightarrow> cidr" where
  "Masked (IPv4 a, b) = (IPv4 (a AND NOT (mask (32 - b))), b)"
| "Masked (IPv6 a z, b) = (IPv6 (a AND NOT (mask (128 - b))) [], b)"

fun PrefixContains :: "cidr \<Rightarrow> addr \<Rightarrow> bool" where
  "PrefixContains (IPv4 p, b) (IPv4 a) \<longleftrightarrow> drop_bit (32 - b) (a XOR p) = 0"
| "PrefixContains (IPv6 p _, b) (IPv6 a z) \<longleftrightarrow> z = [] \<and> (a XOR p) AND NOT (mask (128 - b)) = 0"
| "PrefixContains _ _ = False"

lemma ParsePrefix_props:
  assumes "ParsePrefix s = Some (ip, b)"
  shows "b \<le> BitLen ip" and "Zone ip = []" and "CHR ''/'' \<in> set s"
proof -
  from assms obtain a bs where c: "CutLastByte s (CHR ''/'') = Some (a, bs)"
    and "Zone ip = []" and "b \<le> BitLen ip"
    by (fastforce simp: ParsePrefix_def split: option.splits sum.splits if_splits)
  then show "b \<le> BitLen ip" and "Zone ip = []" by auto
  from c show "CHR ''/'' \<in> set s" by (simp add: CutLastByte_eq_Some)
qed

text \<open>
  Both tests compare the leading bits: after masking, a prefix contains an address of its own
  family exactly when the two agree above the host part.
\<close>

lemma drop_bit_word_eq_iff:
  "drop_bit n a = drop_bit n b \<longleftrightarrow> (\<forall>i\<ge>n. bit a i = bit (b :: 'w::len word) i)"
proof
  assume "drop_bit n a = drop_bit n b"
  then have "bit a (n + j) = bit b (n + j)" for j by (metis bit_drop_bit_eq comp_apply)
  then show "\<forall>i\<ge>n. bit a i = bit b i" by (metis le_Suc_ex)
next
  assume "\<forall>i\<ge>n. bit a i = bit b i"
  then show "drop_bit n a = drop_bit n b" by (intro bit_eqI) (simp add: bit_simps)
qed

lemma drop_bit_xor_eq_0:
  "drop_bit n (a XOR b) = 0 \<longleftrightarrow> drop_bit n a = drop_bit n (b :: 'w::len word)"
  using drop_bit_word_eq_iff [of n "a XOR b" 0] by (simp add: drop_bit_word_eq_iff bit_simps)

lemma drop_bit_and_not_mask: "drop_bit n (a AND NOT (mask n)) = drop_bit n (a :: 'w::len word)"
  by (rule bit_eqI) (auto simp only: bit_drop_bit_eq bit_and_iff bit_not_iff bit_mask_iff o_def
      dest: bit_imp_possible_bit)

lemma and_not_mask_eq_0:
  "x AND NOT (mask n) = 0 \<longleftrightarrow> drop_bit n (x :: 'w::len word) = 0"
proof -
  have "x AND NOT (mask n) = 0" if "drop_bit n x = 0"
    using that drop_bit_word_eq_iff [of n x 0] by (intro bit_eqI) (auto simp: bit_simps intro: leI)
  then show ?thesis by (metis drop_bit_and_not_mask drop_bit_of_0)
qed

lemma PrefixContains_Masked_IPv4:
  "PrefixContains (Masked (IPv4 p, b)) (IPv4 a) \<longleftrightarrow> drop_bit (32 - b) a = drop_bit (32 - b) p"
  by (simp only: Masked.simps PrefixContains.simps drop_bit_xor_eq_0 drop_bit_and_not_mask)

lemma PrefixContains_Masked_IPv6:
  "PrefixContains (Masked (IPv6 p z', b)) (IPv6 a z) \<longleftrightarrow>
     z = [] \<and> drop_bit (128 - b) a = drop_bit (128 - b) p"
  by (simp only: Masked.simps PrefixContains.simps and_not_mask_eq_0 drop_bit_xor_eq_0
      drop_bit_and_not_mask)

lemma PrefixContains_Masked_family: "PrefixContains (Masked (p, b)) a \<Longrightarrow> Is4 a = Is4 p"
  by (cases p; cases a) auto

lemma PrefixContains_Masked_zone: "PrefixContains (Masked (p, b)) a \<Longrightarrow> Zone a = []"
  by (cases p; cases a) auto

section \<open>host:port\<close>

definition SplitHostPort :: "string \<Rightarrow> (string \<times> string) option" where
  "SplitHostPort hostport =
     (case CutLastByte hostport (CHR '':'') of
        None \<Rightarrow> None
      | Some (pre, port) \<Rightarrow>
          if hd hostport = CHR ''['' then
            (if CHR '']'' \<notin> set hostport then None
             else let (a, _) = CutByte hostport (CHR '']'') in
               if a @ '']'' \<noteq> pre then None
               else if CHR ''['' \<in> set (tl hostport) then None
               else if CHR '']'' \<in> set (drop (length pre) hostport) then None
               else Some (tl a, port))
          else if CHR '':'' \<in> set pre then None
          else if CHR ''['' \<in> set hostport then None
          else if CHR '']'' \<in> set hostport then None
          else Some (pre, port))"

definition JoinHostPort :: "string \<Rightarrow> string \<Rightarrow> string" where
  "JoinHostPort host port =
     (if CHR '':'' \<in> set host then ''['' @ host @ '']:'' @ port else host @ '':'' @ port)"

lemma JoinHostPort_cut:
  assumes "CHR '':'' \<notin> set port"
  shows "CutLastByte (JoinHostPort host port) (CHR '':'') =
           Some (if CHR '':'' \<in> set host then ''['' @ host @ '']'' else host, port)"
proof (cases "CHR '':'' \<in> set host")
  case True
  have "JoinHostPort host port = (''['' @ host @ '']'') @ CHR '':'' # port"
    using True by (simp add: JoinHostPort_def)
  then have "CutLastByte (JoinHostPort host port) (CHR '':'') = Some (''['' @ host @ '']'', port)"
    using CutLastByte_append [OF assms, of "''['' @ host @ '']''"] by simp
  then show ?thesis using True by simp
next
  case False
  then have "JoinHostPort host port = host @ CHR '':'' # port" by (simp add: JoinHostPort_def)
  then show ?thesis using False assms by simp
qed

text \<open>
  Splitting a joined address gives back its parts or fails; it never yields another host.
  The premise excludes a host that starts with a bracket and has no colon.
\<close>

lemma SplitHostPort_JoinHostPort:
  assumes port: "CHR '':'' \<notin> set port"
    and host: "CHR '':'' \<in> set host \<or> host = [] \<or> hd host \<noteq> CHR ''[''"
    and split: "SplitHostPort (JoinHostPort host port) = Some (h, p)"
  shows "h = host \<and> p = port"
proof (cases "CHR '':'' \<in> set host")
  case True
  then have "hd (JoinHostPort host port) = CHR ''[''" by (simp add: JoinHostPort_def)
  with split True port obtain a b where
      "CutByte (JoinHostPort host port) (CHR '']'') = (a, b)"
      and a: "a @ '']'' = ''['' @ host @ '']''" and "h = tl a" and "p = port"
    by (auto simp: SplitHostPort_def JoinHostPort_cut Let_def split: if_splits prod.splits)
  from a have "a = ''['' @ host" by simp
  with \<open>h = tl a\<close> \<open>p = port\<close> show ?thesis by simp
next
  case False
  with host have "hd (JoinHostPort host port) \<noteq> CHR ''[''"
    by (cases host) (auto simp: JoinHostPort_def)
  with split False port show ?thesis
    by (auto simp: SplitHostPort_def JoinHostPort_cut split: if_splits)
qed

lemma SplitHostPort_JoinHostPort_ok:
  assumes "CHR '':'' \<notin> set port" and "set port \<inter> {CHR ''['', CHR '']''} = {}"
    and "set host \<inter> {CHR ''['', CHR '']''} = {}"
  shows "SplitHostPort (JoinHostPort host port) = Some (host, port)"
proof (cases "CHR '':'' \<in> set host")
  case True
  have j: "JoinHostPort host port = (CHR ''['' # host) @ CHR '']'' # CHR '':'' # port"
    using True by (simp add: JoinHostPort_def)
  have "CutByte (JoinHostPort host port) (CHR '']'') = (CHR ''['' # host, CHR '':'' # port)"
    unfolding j using assms(3) by (subst CutByte_append) auto
  moreover have "CutLastByte (JoinHostPort host port) (CHR '':'') = Some (''['' @ host @ '']'', port)"
    using assms(1) True by (simp add: JoinHostPort_cut)
  ultimately show ?thesis using assms True
    by (auto simp: SplitHostPort_def JoinHostPort_def)
next
  case False
  have "hd (JoinHostPort host port) \<noteq> CHR ''[''"
    using False assms(3) by (cases host) (auto simp: JoinHostPort_def)
  moreover have "CHR ''['' \<notin> set (JoinHostPort host port)" "CHR '']'' \<notin> set (JoinHostPort host port)"
    using False assms by (auto simp: JoinHostPort_def)
  ultimately show ?thesis using assms(1) False
    by (simp add: SplitHostPort_def JoinHostPort_cut)
qed

end
