(* ===== verification/Go_Url.thy ===== *)
theory Go_Url
  imports Go_Net
begin

text \<open>
  Go's \<^verbatim>\<open>url.Parse\<close> on the network-path references \<^verbatim>\<open>"//" + target\<close> that \<^verbatim>\<open>ensurePort\<close> builds:
  cutting the fragment and the query, the authority with its user information, host and
  port, and the percent-decoding each part gets.  The parser is the one of the Go release the
  module file asks for (1.26 and later): a bracketed host starts the authority, and a host
  with more than one colon outside brackets is refused.  Where the exporter only looks at
  whether parsing failed, the failure is \<^const>\<open>None\<close>.
\<close>

section \<open>Percent-decoding\<close>

datatype encoding = encodePath | encodeHost | encodeZone | encodeUserPassword | encodeFragment

definition is_alnum :: "char \<Rightarrow> bool" where
  "is_alnum c \<longleftrightarrow> is_digit c \<or> is_upper c \<or> (97 \<le> byte c \<and> byte c \<le> 122)"

text \<open>\<^verbatim>\<open>shouldEscape\<close> in the two modes whose decoding consults it.\<close>

definition shouldEscapeHost :: "char \<Rightarrow> bool" where
  "shouldEscapeHost c \<longleftrightarrow>
     \<not> (is_alnum c \<or> c \<in> set ''!$&()*+,;=:[]<>'' \<or> c = CHR 0x27 \<or> c = CHR 0x22 \<or> c \<in> set ''-_.~'')"

definition hex_pair :: "char \<Rightarrow> char \<Rightarrow> int option" where
  "hex_pair a b =
     (case (hex_digit a, hex_digit b) of (Some x, Some y) \<Rightarrow> Some (16 * x + y) | _ \<Rightarrow> None)"

definition escape_ok :: "encoding \<Rightarrow> char \<Rightarrow> char \<Rightarrow> int \<Rightarrow> bool" where
  "escape_ok m a b v \<longleftrightarrow>
     (case m of
        encodeHost \<Rightarrow> v \<ge> 128 \<or> (a = CHR ''2'' \<and> b = CHR ''5'')
      | encodeZone \<Rightarrow>
          (a = CHR ''2'' \<and> b = CHR ''5'') \<or> v = 32 \<or> \<not> shouldEscapeHost (char_of v)
      | _ \<Rightarrow> True)"

fun unescape :: "encoding \<Rightarrow> string \<Rightarrow> string option" where
  "unescape m [] = Some []"
| "unescape m (c # cs) =
     (if c = CHR ''%'' then
        (case cs of
           a # b # rest \<Rightarrow>
             (case hex_pair a b of
                None \<Rightarrow> None
              | Some v \<Rightarrow>
                  if escape_ok m a b v then map_option (\<lambda>r. char_of v # r) (unescape m rest) else None)
         | _ \<Rightarrow> None)
      else if (m = encodeHost \<or> m = encodeZone) \<and> is_ascii c \<and> shouldEscapeHost c then None
      else map_option (\<lambda>r. c # r) (unescape m cs))"

section \<open>Authority\<close>

definition validOptionalPort :: "string \<Rightarrow> bool" where
  "validOptionalPort p \<longleftrightarrow> p = [] \<or> (hd p = CHR '':'' \<and> list_all is_digit (tl p))"

fun index_sub :: "string \<Rightarrow> string \<Rightarrow> nat option" where
  "index_sub [] p = (if p = [] then Some 0 else None)"
| "index_sub (c # cs) p = (if HasPrefix (c # cs) p then Some 0 else map_option Suc (index_sub cs p))"

definition unescape_ip_literal :: "string \<Rightarrow> string option" where
  "unescape_ip_literal hostname =
     (case index_sub hostname ''%25'' of
        Some i \<Rightarrow>
          (case (unescape encodeHost (take i hostname), unescape encodeZone (drop i hostname)) of
             (Some h, Some z) \<Rightarrow> Some (h @ z)
           | _ \<Rightarrow> None)
      | None \<Rightarrow> unescape encodeHost hostname)"

definition parseHost :: "string \<Rightarrow> string option" where
  "parseHost host =
     (if CHR ''['' \<in> set host then
        (if hd host \<noteq> CHR ''['' \<or> CHR ''['' \<in> set (tl host) then None
         else
           (case CutLastByte host (CHR '']'') of
              None \<Rightarrow> None
            | Some (pre, colonPort) \<Rightarrow>
                if \<not> validOptionalPort colonPort then None
                else
                  (case unescape_ip_literal (tl pre) of
                     None \<Rightarrow> None
                   | Some h \<Rightarrow>
                       (case ParseAddr h of
                          None \<Rightarrow> None
                        | Some a \<Rightarrow> if Is4 a then None else Some (''['' @ h @ '']'' @ colonPort)))))
      else if CHR '':'' \<in> set host \<and> \<not> validOptionalPort (dropWhile (\<lambda>c. c \<noteq> CHR '':'') host) then None
      else unescape encodeHost host)"

definition validUserinfo :: "string \<Rightarrow> bool" where
  "validUserinfo s \<longleftrightarrow> list_all (\<lambda>c. is_alnum c \<or> c \<in> set ''-._:~!$&()*+,;=%@'' \<or> c = CHR 0x27) s"

definition parseAuthority :: "string \<Rightarrow> (string option \<times> string) option" where
  "parseAuthority authority =
     (case CutLastByte authority (CHR ''@'') of
        None \<Rightarrow> map_option (\<lambda>h. (None, h)) (parseHost authority)
      | Some (userinfo, host) \<Rightarrow>
          (case parseHost host of
             None \<Rightarrow> None
           | Some h \<Rightarrow>
               if \<not> validUserinfo userinfo then None
               else map_option (\<lambda>u. (Some u, h)) (unescape encodeUserPassword userinfo)))"

section \<open>Parse\<close>

record url =
  User :: "string option"
  Host :: string
  Path :: string
  RawQuery :: string
  Fragment :: string
  Opaque :: string

definition cut_query :: "string \<Rightarrow> string \<times> string" where
  "cut_query rest =
     (if HasSuffix rest ''?'' \<and> count_list rest (CHR ''?'') = 1 then (butlast rest, [])
      else CutByte rest (CHR ''?''))"

definition is_ctl :: "char \<Rightarrow> bool" where
  "is_ctl c \<longleftrightarrow> byte c < 32 \<or> byte c = 127"

definition url_Parse_ref :: "string \<Rightarrow> url option" where
  "url_Parse_ref target =
     (let (u, frag) = CutByte target (CHR ''#'') in
      if list_ex is_ctl u then None
      else
        let (rest, query) = cut_query u;
            (authority, path) =
              (if HasPrefix rest ''/'' then ([], ''//'' @ rest)
               else (takeWhile (\<lambda>c. c \<noteq> CHR ''/'') rest, dropWhile (\<lambda>c. c \<noteq> CHR ''/'') rest))
        in
          (case (if HasPrefix rest ''/'' then Some (None, []) else parseAuthority authority) of
             None \<Rightarrow> None
           | Some (user, host) \<Rightarrow>
               (case (unescape encodePath path, unescape encodeFragment frag) of
                  (Some p, Some f) \<Rightarrow>
                    Some \<lparr> User = user, Host = host, Path = p, RawQuery = query,
                           Fragment = f, Opaque = [] \<rparr>
                | _ \<Rightarrow> None)))"

text \<open>\<^verbatim>\<open>URL.Hostname\<close> and \<^verbatim>\<open>URL.Port\<close>.\<close>

definition url_splitHostPort :: "string \<Rightarrow> string \<times> string" where
  "url_splitHostPort hostPort =
     (let (host, port) =
        (case CutLastByte hostPort (CHR '':'') of
           Some (h, p) \<Rightarrow> if validOptionalPort (CHR '':'' # p) then (h, p) else (hostPort, [])
         | None \<Rightarrow> (hostPort, []))
      in if HasPrefix host ''['' \<and> HasSuffix host '']''
         then (butlast (tl host), port) else (host, port))"

definition Hostname_of :: "url \<Rightarrow> string" where
  "Hostname_of u = fst (url_splitHostPort (Host u))"

definition Port_of :: "url \<Rightarrow> string" where
  "Port_of u = snd (url_splitHostPort (Host u))"

end
