(* ===== verification/Normalize.thy ===== *)
theory Normalize
  imports Prelude
begin

text \<open>
  Package \<^verbatim>\<open>normalize\<close> (\<^verbatim>\<open>internal/normalize/normalize.go\<close>): the canonical form of a host
  name, used both for the patterns of an allow-list and for the requested targets.
\<close>

definition Hostname :: "(string \<Rightarrow> string) \<Rightarrow> string \<Rightarrow> string" where
  "Hostname ul h = ToLower ul (TrimSuffix h ''.'')"

section \<open>What the canonical form keeps\<close>

lemma Hostname_ascii:
  assumes "list_all is_ascii h"
  shows "list_all (\<lambda>c. is_ascii c \<and> \<not> is_upper c) (Hostname ul h)"
proof -
  have "list_all is_ascii (TrimSuffix h ''.'')"
    using assms set_TrimSuffix_subset [of h "''.''"] by (auto simp: list.pred_set)
  then show ?thesis by (simp add: Hostname_def ToLower_def list.pred_map comp_def)
qed

lemma Hostname_canonical:
  assumes "list_all is_ascii h" and "list_all (\<lambda>c. \<not> is_upper c) h" and "\<not> suffix ''.'' h"
  shows "Hostname ul h = h"
  using assms by (simp add: Hostname_def TrimSuffix_def HasSuffix_suffix)

lemma Hostname_trailing_dot: "\<not> suffix ''.'' h \<Longrightarrow> Hostname ul (h @ ''.'') = Hostname ul h"
  by (simp add: Hostname_def) (simp add: TrimSuffix_def HasSuffix_suffix)

lemma Hostname_case:
  assumes "list_all is_ascii h"
  shows "Hostname ul (map lower_byte h) = Hostname ul h"
proof -
  have dot: "lower_byte (CHR ''.'') = CHR ''.''"
    by (simp add: lower_byte_def is_upper_def byte_def)
  have "TrimSuffix (map lower_byte h) ''.'' = map lower_byte (TrimSuffix h ''.'')"
  proof (cases h rule: rev_cases)
    case Nil
    then show ?thesis by (simp add: TrimSuffix_def)
  next
    case (snoc r c)
    have "lower_byte c = CHR ''.'' \<longleftrightarrow> c = CHR ''.''"
      by (rule lower_byte_punct) (simp add: is_letter_def is_upper_def byte_def)
    with snoc dot show ?thesis by (auto simp: TrimSuffix_def HasSuffix_def)
  qed
  moreover have "list_all is_ascii (TrimSuffix h ''.'')"
    using assms set_TrimSuffix_subset [of h "''.''"] by (auto simp: list.pred_set)
  ultimately show ?thesis
    by (simp add: Hostname_def ToLower_def list.pred_map comp_def)
qed

lemma set_Hostname_punct:
  assumes "keeps_punctuation ul" and "is_ascii c" and "\<not> is_letter c" and "c \<noteq> CHR ''.''"
  shows "c \<in> set (Hostname ul h) \<longleftrightarrow> c \<in> set h"
  using assms by (simp add: Hostname_def set_ToLower_punct set_TrimSuffix_byte)

end
