(* ===== verification/Request.thy ===== *)
theory Request
  imports Go_Url Normalize
begin

text \<open>
  \<^verbatim>\<open>ensurePort\<close> of \<^verbatim>\<open>internal/probehttp/probehttp.go\<close>, which turns the target parameter of a
  request into the address to dial.  The lemmas show that the host the access check sees is the
  host the dialer will split off the address again.
\<close>

section \<open>ensurePort\<close>

datatype port_error =
    InvalidTarget string
  | NotBareHost string
  | NoHost string
  | InvalidPort string string

definition ensurePort ::
    "(string \<Rightarrow> string) \<Rightarrow> string \<Rightarrow> int \<Rightarrow> port_error + (string \<times> string \<times> int)" where
  "ensurePort ul target defaultPort =
     (case url_Parse_ref target of
        None \<Rightarrow> Inl (InvalidTarget target)
      | Some u \<Rightarrow>
          if User u \<noteq> None \<or> Path u \<noteq> [] \<or> RawQuery u \<noteq> [] \<or> Fragment u \<noteq> [] \<or> Opaque u \<noteq> []
          then Inl (NotBareHost target)
          else
            let host = Hostname ul (Hostname_of u) in
            if host = [] then Inl (NoHost target)
            else
              (case (if Port_of u \<noteq> [] then Atoi (Port_of u) else Inr defaultPort) of
                 Inl _ \<Rightarrow> Inl (InvalidPort (Port_of u) target)
               | Inr port \<Rightarrow> Inr (JoinHostPort host (Itoa port), host, port)))"

section \<open>What the URL parser lets into host and port\<close>

lemma unescape_host_chars:
  "unescape m s = Some h \<Longrightarrow> m = encodeHost \<Longrightarrow> c \<in> set h \<Longrightarrow>
     c \<in> set s \<or> byte c \<ge> 128 \<or> c = CHR ''%''"
proof (induction m s arbitrary: h rule: unescape.induct)
  case (1 m)
  then show ?case by simp
next
  case (2 m x cs)
  show ?case
  proof (cases "x = CHR ''%''")
    case False
    with 2 show ?thesis by (auto split: if_splits)
  next
    case True
    then obtain a b rest v r where cs: "cs = a # b # rest" and v: "hex_pair a b = Some v"
      and ok: "escape_ok m a b v" and r: "unescape m rest = Some r" and h: "h = char_of v # r"
      using "2.prems"(1) by (auto split: list.splits option.splits if_splits)
    have "c \<in> set rest \<or> byte c \<ge> 128 \<or> c = CHR ''%''" if "c \<in> set r"
      using "2.IH"(1) [OF True cs refl v ok r "2.prems"(2) that] cs by simp
    moreover have "byte (char_of v) \<ge> 128 \<or> char_of v = CHR ''%''"
    proof (cases "v \<ge> 128")
      case True
      have "v < 256" using v by (auto simp: hex_pair_def hex_digit_def is_digit_def split: option.splits if_splits)
      with True show ?thesis by (simp add: byte_char_of)
    next
      case False
      with ok "2.prems"(2) have "a = CHR ''2''" and "b = CHR ''5''" by (auto simp: escape_ok_def)
      with v have "v = 37" by (simp add: hex_pair_def hex_digit_def is_digit_def byte_def)
      then show ?thesis by (simp add: char_of_def)
    qed
    ultimately show ?thesis using h cs "2.prems"(3) by auto
  qed
qed

lemma parseHost_forms:
  assumes "parseHost host = Some H"
  obtains (literal) h cp a where "H = ''['' @ h @ '']'' @ cp" and "validOptionalPort cp"
      and "ParseAddr h = Some a" and "\<not> Is4 a"
    | (name) "CHR ''['' \<notin> set H"
proof (cases "CHR ''['' \<in> set host")
  case True
  with assms literal show ?thesis
    by (auto simp: parseHost_def split: if_splits option.splits)
next
  case False
  with assms have "unescape encodeHost host = Some H"
    by (auto simp: parseHost_def split: if_splits)
  from unescape_host_chars [OF this refl, of "CHR ''[''"] False
  have "CHR ''['' \<notin> set H" by (auto simp: byte_def)
  then show ?thesis by (rule name)
qed

lemma splitHostPort_literal:
  assumes "CHR '':'' \<in> set h" and "validOptionalPort cp"
  shows "url_splitHostPort (''['' @ h @ '']'' @ cp) = (h, drop 1 cp)"
proof (cases cp)
  case Nil
  obtain a b where h: "h = a @ CHR '':'' # b" "CHR '':'' \<notin> set b"
    using assms(1) by (metis split_list_last)
  have "CutLastByte (''['' @ h @ '']'') (CHR '':'') = Some (''['' @ a, b @ '']'')"
    using h CutLastByte_append [of "CHR '':''" "b @ '']''" "''['' @ a"] by simp
  moreover have "\<not> validOptionalPort (CHR '':'' # b @ '']'')"
    by (simp add: validOptionalPort_def is_digit_def byte_def)
  ultimately show ?thesis using Nil
    by (simp add: url_splitHostPort_def HasPrefix_def HasSuffix_def)
next
  case (Cons c ds)
  with assms(2) have c: "c = CHR '':''" and ds: "list_all is_digit ds"
    by (simp_all add: validOptionalPort_def)
  then have "CHR '':'' \<notin> set ds" by (auto simp: list.pred_set is_digit_def byte_def)
  then have "CutLastByte (''['' @ h @ '']'' @ cp) (CHR '':'') = Some (''['' @ h @ '']'', ds)"
    using Cons c CutLastByte_append [of "CHR '':''" ds "''['' @ h @ '']''"] by simp
  with Cons c ds show ?thesis
    by (simp add: url_splitHostPort_def validOptionalPort_def HasPrefix_def HasSuffix_def)
qed

lemma splitHostPort_parts:
  assumes "url_splitHostPort H = (h, p)"
  shows "list_all is_digit p" and "CHR ''['' \<notin> set H \<Longrightarrow> CHR ''['' \<notin> set h"
  using assms
  by (auto simp: url_splitHostPort_def validOptionalPort_def CutLastByte_eq_Some HasPrefix_def
      Let_def take_Suc split: if_splits option.splits prod.splits
      dest!: in_set_butlastD list.set_sel(2) [rotated])

lemma url_Parse_ref_Host:
  assumes "url_Parse_ref target = Some u"
  shows "Host u = [] \<or> (\<exists>s. parseHost s = Some (Host u))"
  using assms
  by (auto simp: url_Parse_ref_def parseAuthority_def Let_def split: prod.splits if_splits option.splits)

lemma Hostname_of_forms:
  assumes "url_Parse_ref target = Some u"
  shows "CHR '':'' \<in> set (Hostname_of u) \<or> CHR ''['' \<notin> set (Hostname_of u)"
    and "list_all is_digit (Port_of u)"
proof -
  show "list_all is_digit (Port_of u)"
    unfolding Port_of_def by (metis prod.collapse splitHostPort_parts(1))
  show "CHR '':'' \<in> set (Hostname_of u) \<or> CHR ''['' \<notin> set (Hostname_of u)"
  proof (cases "Host u = []")
    case True
    then show ?thesis
      by (simp add: Hostname_of_def url_splitHostPort_def HasPrefix_def CutLastByte_def)
  next
    case False
    then obtain s where "parseHost s = Some (Host u)" using url_Parse_ref_Host [OF assms] by auto
    then show ?thesis
    proof (cases rule: parseHost_forms)
      case (literal h cp a)
      then have "CHR '':'' \<in> set h" using ParseAddr_IPv6_colon by blast
      with literal splitHostPort_literal [of h cp] show ?thesis by (simp add: Hostname_of_def)
    next
      case name
      then show ?thesis unfolding Hostname_of_def by (metis prod.collapse splitHostPort_parts(2))
    qed
  qed
qed

lemma unescape_eq_Nil: "unescape m s = Some [] \<longleftrightarrow> s = []"
  by (cases s) (auto split: if_splits list.splits option.splits)

lemma cut_query_Nil:
  assumes "cut_query u = (rest, [])"
  shows "CHR ''?'' \<notin> set rest \<and> (u = rest \<or> u = rest @ ''?'')"
proof (cases "HasSuffix u ''?'' \<and> count_list u (CHR ''?'') = 1")
  case True
  then obtain r where u: "u = r @ ''?''" by (auto simp: HasSuffix_suffix suffix_def)
  with True assms have "rest = r" by (simp add: cut_query_def)
  with True u show ?thesis by (simp add: count_list_0_iff)
next
  case False
  then have c: "CutByte u (CHR ''?'') = (rest, [])" using assms by (auto simp: cut_query_def)
  show ?thesis
  proof (cases "CHR ''?'' \<in> set u")
    case True
    with c have "u = rest @ ''?''" and "CHR ''?'' \<notin> set rest" by (auto dest: CutByte_in)
    then show ?thesis by simp
  next
    case False
    with c show ?thesis by auto
  qed
qed

lemma parseAuthority_no_user:
  assumes "parseAuthority s = Some (None, h)"
  shows "CHR ''@'' \<notin> set s \<and> parseHost s = Some h"
proof (cases "CutLastByte s (CHR ''@'')")
  case None
  with assms show ?thesis by (simp add: parseAuthority_def)
next
  case (Some x)
  with assms show ?thesis
    by (cases x) (simp add: parseAuthority_def split: option.splits if_splits)
qed

text \<open>The shape of the targets that pass the checks of \<^verbatim>\<open>ensurePort\<close> on the parsed URL.\<close>

definition bare_url :: "url \<Rightarrow> bool" where
  "bare_url u \<longleftrightarrow> User u = None \<and> Path u = [] \<and> RawQuery u = [] \<and> Fragment u = [] \<and> Opaque u = []"

lemma ensurePort_eq_Inr:
  "ensurePort ul target dp = Inr (t, host, port) \<longleftrightarrow>
     (\<exists>u. url_Parse_ref target = Some u \<and> bare_url u \<and> host = Hostname ul (Hostname_of u) \<and> host \<noteq> [] \<and>
        (if Port_of u \<noteq> [] then Atoi (Port_of u) = Inr port else port = dp) \<and>
        t = JoinHostPort host (Itoa port))"
  by (auto simp: ensurePort_def bare_url_def Let_def split: option.splits if_splits sum.splits)

lemma bare_url_target:
  assumes "url_Parse_ref target = Some u" and "bare_url u"
  obtains auth q f where "target = auth @ q @ f" and "q = [] \<or> q = ''?''" and "f = [] \<or> f = ''#''"
    and "set auth \<inter> set ''/?#@'' = {}" and "\<not> list_ex is_ctl auth" and "parseHost auth = Some (Host u)"
proof -
  obtain v frag where cf: "CutByte target (CHR ''#'') = (v, frag)" by fastforce
  obtain rest query where cq: "cut_query v = (rest, query)" by fastforce
  have ctl: "\<not> list_ex is_ctl v" and "query = []" and "frag = []" and pre: "\<not> HasPrefix rest ''/''"
    and slash: "CHR ''/'' \<notin> set rest"
    and auth: "parseAuthority (takeWhile (\<lambda>c. c \<noteq> CHR ''/'') rest) = Some (None, Host u)"
    using assms cf cq
    by (auto simp: url_Parse_ref_def bare_url_def Let_def unescape_eq_Nil dropWhile_neq_eq_Nil
        simp del: dropWhile_eq_Nil_conv split: if_splits option.splits)
  from slash have rest: "takeWhile (\<lambda>c. c \<noteq> CHR ''/'') rest = rest" by (simp add: while_neq)
  note slash
  moreover have v: "CHR ''?'' \<notin> set rest \<and> (v = rest \<or> v = rest @ ''?'')"
    using cq \<open>query = []\<close> by (simp add: cut_query_Nil)
  moreover have "CHR ''#'' \<notin> set v \<and> (target = v \<or> target = v @ ''#'')"
    using cf \<open>frag = []\<close> by (cases "CHR ''#'' \<in> set target") (auto dest: CutByte_in)
  moreover have "CHR ''@'' \<notin> set rest \<and> parseHost rest = Some (Host u)"
    using auth unfolding rest by (rule parseAuthority_no_user)
  moreover have "\<not> list_ex is_ctl rest" using ctl v by auto
  ultimately show ?thesis
    using that [of rest "drop (length rest) v" "drop (length v) target"] by auto
qed

section \<open>Properties of ensurePort\<close>

lemma Itoa_no_colon: "CHR '':'' \<notin> set (Itoa n)"
  using dec_digits_not_in [of n "CHR '':''"] dec_digits_not_in [of "- n" "CHR '':''"]
  by (auto simp: Itoa_def is_digit_def byte_def)

lemma ensurePort_host_form:
  assumes "keeps_punctuation ul" and "ensurePort ul target dp = Inr (t, host, port)"
  shows "CHR '':'' \<in> set host \<or> CHR ''['' \<notin> set host"
proof -
  obtain u where u: "url_Parse_ref target = Some u" and host: "host = Hostname ul (Hostname_of u)"
    using assms(2) by (auto simp: ensurePort_eq_Inr)
  have "c \<in> set host \<longleftrightarrow> c \<in> set (Hostname_of u)" if "c = CHR '':'' \<or> c = CHR ''[''" for c
    unfolding host by (rule set_Hostname_punct [OF assms(1)])
      (use that in \<open>auto simp: is_ascii_def is_letter_def is_upper_def byte_def\<close>)
  with Hostname_of_forms(1) [OF u] show ?thesis by blast
qed

lemma ensurePort_split:
  assumes "keeps_punctuation ul" and "ensurePort ul target dp = Inr (t, host, port)"
    and "SplitHostPort t = Some (h, p)" and "0 \<le> dp" and "dp < 2 ^ 63"
  shows "h = host \<and> p = Itoa port \<and> 0 \<le> port \<and> port < 2 ^ 63"
proof -
  have t: "t = JoinHostPort host (Itoa port)" and port: "0 \<le> port \<and> port < 2 ^ 63"
    using assms(2,4,5) Hostname_of_forms(2)
    by (auto simp: ensurePort_eq_Inr Atoi_digits dec_val_nonneg split: if_splits)
  have "CHR '':'' \<in> set host \<or> host = [] \<or> hd host \<noteq> CHR ''[''"
    using ensurePort_host_form [OF assms(1,2)] by (cases host) auto
  then have "h = host \<and> p = Itoa port"
    using SplitHostPort_JoinHostPort [OF Itoa_no_colon] assms(3) t by blast
  with port show ?thesis by simp
qed

text \<open>C5.  The host the access check sees is the host that is dialled: whenever the dialer can
  split the returned address, it gets exactly the checked host and the checked port.\<close>

theorem ensurePort_dials_checked_host:
  assumes "keeps_punctuation ul" and "ensurePort ul target dp = Inr (t, host, port)"
    and "SplitHostPort t = Some (h, p)" and "0 \<le> dp" and "dp < 2 ^ 63"
  shows "h = host \<and> Atoi p = Inr port"
  using ensurePort_split [OF assms] by (simp add: Atoi_Itoa)

theorem ensurePort_dials_checked_host_witness:
  "case SplitHostPort ''[2001:db8::1]:2222'' of
     Some (h, p) \<Rightarrow> h = ''2001:db8::1'' \<and> Atoi p = Inr 2222 | None \<Rightarrow> False"
proof -
  have e: "ensurePort (map lower_byte) ''[2001:DB8::1]:2222'' 22 =
         Inr (''[2001:db8::1]:2222'', ''2001:db8::1'', 2222)"
    and s: "SplitHostPort ''[2001:db8::1]:2222'' = Some (''2001:db8::1'', ''2222'')"
    by code_simp+
  from ensurePort_dials_checked_host [OF keeps_punctuation_lower_byte e s] s show ?thesis by simp
qed

lemma unescape_host_id:
  "list_all (\<lambda>c. c \<noteq> CHR ''%'' \<and> \<not> shouldEscapeHost c) s \<Longrightarrow> unescape encodeHost s = Some s"
  by (induction s) auto

text \<open>A port number after the host passes the decoder unchanged.\<close>

lemma unescape_before_port:
  assumes "unescape encodeHost (n @ CHR '':'' # ds) = Some h" and "list_all is_digit ds" and "CHR '':'' \<notin> set n"
  shows "\<exists>n'. h = n' @ CHR '':'' # ds \<and> CHR '':'' \<notin> set n' \<and> (n = [] \<longrightarrow> n' = [])"
  using assms
proof (induction n arbitrary: h rule: length_induct)
  case (1 n)
  have digit: "c \<noteq> CHR ''%''" "\<not> shouldEscapeHost c" if "is_digit c" for c
    using that by (auto simp: is_digit_def shouldEscapeHost_def is_alnum_def byte_def)
  have id: "unescape encodeHost ds = Some ds" if "list_all is_digit ds" for ds
    using that by (induction ds) (simp_all add: digit)
  have colon: "hex_digit (CHR '':'') = None" "CHR '':'' \<noteq> CHR ''%''" "\<not> shouldEscapeHost (CHR '':'')"
    by (simp_all add: hex_digit_def is_digit_def byte_def shouldEscapeHost_def)
  show ?case
  proof (cases n)
    case Nil
    with "1.prems" id colon show ?thesis by auto
  next
    case (Cons c m)
    show ?thesis
    proof (cases "c = CHR ''%''")
      case True
      with Cons "1.prems"(1) colon(1) obtain a b k where m: "m = a # b # k"
        by (cases m; cases "tl m") (auto simp: hex_pair_def split: option.splits list.splits)
      with True Cons "1.prems"(1) obtain v r where "hex_pair a b = Some v" "escape_ok encodeHost a b v"
        and r: "unescape encodeHost (k @ CHR '':'' # ds) = Some r" and h: "h = char_of v # r"
        by (auto split: option.splits if_splits)
      moreover have "char_of v \<noteq> CHR '':''"
      proof
        assume "char_of v = CHR '':''"
        moreover have "0 \<le> v \<and> v < 256" using \<open>hex_pair a b = Some v\<close>
          by (auto simp: hex_pair_def hex_digit_def is_digit_def byte_def split: option.splits if_splits)
        ultimately have "v = byte (CHR '':'')" by (metis byte_char_of)
        then have "v = 58" by (simp add: byte_def)
        with \<open>escape_ok encodeHost a b v\<close> \<open>hex_pair a b = Some v\<close> show False
          by (auto simp: escape_ok_def hex_pair_def hex_digit_def is_digit_def byte_def)
      qed
      moreover obtain k' where "r = k' @ CHR '':'' # ds" "CHR '':'' \<notin> set k'"
        using "1.IH" [rule_format, of k, OF _ r] "1.prems"(2,3) Cons m by auto
      ultimately show ?thesis using Cons by (intro exI [of _ "char_of v # k'"]) simp
    next
      case False
      with Cons "1.prems"(1) obtain r where r: "unescape encodeHost (m @ CHR '':'' # ds) = Some r" and h: "h = c # r"
        by (auto split: if_splits)
      moreover obtain k' where "r = k' @ CHR '':'' # ds" "CHR '':'' \<notin> set k'"
        using "1.IH" [rule_format, of m, OF _ r] "1.prems"(2,3) Cons by auto
      ultimately show ?thesis using "1.prems"(3) Cons by (intro exI [of _ "c # k'"]) simp
    qed
  qed
qed

text \<open>
  The two forms of an authority: a name without colons or a bracketed literal, and a port.
\<close>

definition host_form :: "string \<Rightarrow> bool" where
  "host_form host \<longleftrightarrow>
     (\<exists>l. host = ''['' @ l @ '']'') \<or> (CHR '':'' \<notin> set host \<and> CHR ''['' \<notin> set host)"

lemma parseHost_host_port:
  assumes "parseHost auth = Some H"
  shows "\<exists>host port. auth = host @ port \<and> host_form host \<and> validOptionalPort port \<and>
    snd (url_splitHostPort H) = drop 1 port \<and> (host = [] \<longrightarrow> fst (url_splitHostPort H) = [])"
proof (cases "CHR ''['' \<in> set auth")
  case True
  with assms obtain pre cp h a where hd: "hd auth = CHR ''[''" and cut: "CutLastByte auth (CHR '']'') = Some (pre, cp)"
    and v: "validOptionalPort cp" and H: "H = ''['' @ h @ '']'' @ cp" and a: "ParseAddr h = Some a" "\<not> Is4 a"
    by (auto simp: parseHost_def split: if_splits option.splits)
  from cut have auth: "auth = pre @ '']'' @ cp" by (simp add: CutLastByte_eq_Some)
  with hd obtain l where "pre = ''['' @ l" by (cases pre) auto
  with auth have "auth = (''['' @ l @ '']'') @ cp" by simp
  moreover have "snd (url_splitHostPort H) = drop 1 cp"
    using a v ParseAddr_IPv6_colon unfolding H by (subst splitHostPort_literal) auto
  ultimately show ?thesis unfolding host_form_def using v by (intro exI [of _ "''['' @ l @ '']''"] exI [of _ cp]) auto
next
  case False
  then have u: "unescape encodeHost auth = Some H"
    and port: "CHR '':'' \<in> set auth \<Longrightarrow> validOptionalPort (dropWhile (\<lambda>c. c \<noteq> CHR '':'') auth)"
    using assms by (auto simp: parseHost_def split: if_splits)
  have br: "CHR ''['' \<notin> set H" using unescape_host_chars [OF u refl, of "CHR ''[''"] False by (auto simp: byte_def)
  then have pfx: "\<not> HasPrefix x ''[''" if "set x \<subseteq> set H" for x
    using that by (cases x) (auto simp: HasPrefix_def)
  show ?thesis
  proof (cases "CHR '':'' \<in> set auth")
    case True
    then obtain n ds where auth: "auth = n @ CHR '':'' # ds" and n: "CHR '':'' \<notin> set n" by (metis split_list_first)
    have v: "validOptionalPort (CHR '':'' # ds)" using port [OF True] auth n by (simp add: while_neq)
    then have ds: "list_all is_digit ds" by (simp add: validOptionalPort_def)
    then have "CHR '':'' \<notin> set ds" by (auto simp: list.pred_set is_digit_def byte_def)
    moreover from unescape_before_port [OF _ ds n] u auth obtain n' where "H = n' @ CHR '':'' # ds" "n = [] \<longrightarrow> n' = []" by blast
    ultimately have "url_splitHostPort H = (n', ds)" "n = [] \<longrightarrow> n' = []"
      using v pfx [of n'] by (auto simp: url_splitHostPort_def)
    with auth n False v show ?thesis
      by (intro exI [of _ n] exI [of _ "CHR '':'' # ds"]) (simp add: host_form_def)
  next
    case no_colon: False
    then have "CHR '':'' \<notin> set H" using unescape_host_chars [OF u refl, of "CHR '':''"] by (auto simp: byte_def)
    then have "url_splitHostPort H = (H, [])" using pfx [of H] by (simp add: url_splitHostPort_def CutLastByte_def)
    moreover have "auth = [] \<longrightarrow> H = []" using u by auto
    ultimately show ?thesis using False no_colon
      by (intro exI [of _ auth] exI [of _ "[]"]) (auto simp: host_form_def validOptionalPort_def)
  qed
qed

text \<open>C36.  What is accepted is a host, or a host and a port, and at most a final question mark and a
  final number sign, which are dropped although the comment in the code says that query and
  fragment are rejected: nothing else of a URL, and no control character, gets through.  The
  host is a bracketed literal or has no colon; the port is the given number, or the default when
  there is none.\<close>

theorem ensurePort_accepts_bare_targets:
  assumes "ensurePort ul target dp = Inr (t, h, p)"
  shows "\<exists>host port q f. target = host @ port @ q @ f \<and> q \<in> {[], ''?''} \<and> f \<in> {[], ''#''} \<and>
    host_form host \<and> host \<noteq> [] \<and> set host \<inter> set ''/?#@'' = {} \<and> \<not> list_ex is_ctl host \<and>
    (port \<in> {[], '':''} \<and> p = dp \<or>
     (\<exists>digits. port = CHR '':'' # digits \<and> list_all is_digit digits \<and> Atoi digits = Inr p))"
proof -
  from assms obtain u where u: "url_Parse_ref target = Some u" "bare_url u"
    and h: "Hostname ul (Hostname_of u) \<noteq> []" and p: "if Port_of u \<noteq> [] then Atoi (Port_of u) = Inr p else p = dp"
    by (auto simp: ensurePort_eq_Inr)
  from u obtain auth q f where target: "target = auth @ q @ f" "q = [] \<or> q = ''?''" "f = [] \<or> f = ''#''"
    and auth: "set auth \<inter> set ''/?#@'' = {}" "\<not> list_ex is_ctl auth" and H: "parseHost auth = Some (Host u)"
    by (rule bare_url_target)
  from parseHost_host_port [OF H] obtain host port where hp: "auth = host @ port" "host_form host" "validOptionalPort port"
    and po: "Port_of u = drop 1 port" and empty: "host = [] \<longrightarrow> fst (url_splitHostPort (Host u)) = []"
    by (auto simp: Port_of_def)
  have "Hostname ul [] = []" by (simp add: Hostname_def TrimSuffix_def ToLower_def)
  with h empty have "host \<noteq> []" by (auto simp: Hostname_of_def)
  moreover have "port \<in> {[], '':''} \<and> p = dp \<or>
     (\<exists>digits. port = CHR '':'' # digits \<and> list_all is_digit digits \<and> Atoi digits = Inr p)"
    using p hp(3) unfolding po by (cases port) (auto simp: validOptionalPort_def split: if_splits)
  moreover have "target = host @ port @ q @ f" "q \<in> {[], ''?''}" "f \<in> {[], ''#''}" using target hp(1) by simp_all
  moreover have "set host \<inter> set ''/?#@'' = {}" "\<not> list_ex is_ctl host" using auth unfolding hp(1) by auto
  ultimately show ?thesis
    using hp(2) by blast
qed

theorem ensurePort_accepts_bare_targets_witness:
  "\<exists>host port q f. ''example.com:2222?'' = host @ port @ q @ f \<and> q \<in> {[], ''?''} \<and> f \<in> {[], ''#''} \<and>
    host_form host \<and> host \<noteq> [] \<and>
    (port \<in> {[], '':''} \<and> (2222::int) = 22 \<or> (\<exists>digits. port = CHR '':'' # digits \<and> Atoi digits = Inr 2222))"
proof -
  have "ensurePort id ''example.com:2222?'' 22 = Inr (''example.com:2222'', ''example.com'', 2222)"
    by code_simp
  from ensurePort_accepts_bare_targets [OF this] show ?thesis by blast
qed

text \<open>A host name in canonical form: lower-case letters, digits, dots, dashes and underscores.\<close>

definition canonical_host :: "string \<Rightarrow> bool" where
  "canonical_host h \<longleftrightarrow>
     h \<noteq> [] \<and> \<not> suffix ''.'' h \<and>
     list_all (\<lambda>c. is_digit c \<or> (97 \<le> byte c \<and> byte c \<le> 122) \<or> c \<in> set ''-._'') h"

lemma plain_chars:
  assumes "is_digit c \<or> (97 \<le> byte c \<and> byte c \<le> 122) \<or> c \<in> set ''-._''"
  shows "c \<noteq> CHR ''%''" "\<not> shouldEscapeHost c" "\<not> is_ctl c" "c \<notin> set ''#?/@[:''" "is_ascii c"
    "\<not> is_upper c"
proof -
  consider "is_digit c" | "97 \<le> byte c" "byte c \<le> 122" | "c \<in> set ''-._''" using assms by blast
  then have "c \<noteq> CHR ''%'' \<and> \<not> shouldEscapeHost c \<and> \<not> is_ctl c \<and> c \<notin> set ''#?/@[:'' \<and> is_ascii c
      \<and> \<not> is_upper c"
    by cases (auto simp: shouldEscapeHost_def is_alnum_def is_ctl_def is_ascii_def is_upper_def
        is_digit_def byte_def)
  then show "c \<noteq> CHR ''%''" "\<not> shouldEscapeHost c" "\<not> is_ctl c" "c \<notin> set ''#?/@[:''" "is_ascii c"
    "\<not> is_upper c"
    by simp_all
qed

text \<open>An authority of unreserved characters with an optional numeric port parses to itself.\<close>

lemma url_Parse_ref_plain:
  assumes h: "canonical_host h" and p: "validOptionalPort p"
  shows "url_Parse_ref (h @ p) =
    Some \<lparr> User = None, Host = h @ p, Path = [], RawQuery = [], Fragment = [], Opaque = [] \<rparr>"
proof -
  let ?s = "h @ p"
  have hc: "c \<in> set h \<Longrightarrow> is_digit c \<or> (97 \<le> byte c \<and> byte c \<le> 122) \<or> c \<in> set ''-._''" for c
    using h by (auto simp: canonical_host_def list.pred_set)
  have pc: "c \<in> set p \<Longrightarrow> is_digit c \<or> c = CHR '':''" for c
    using p by (cases p) (auto simp: validOptionalPort_def list.pred_set)
  have ok: "c \<noteq> CHR ''%'' \<and> \<not> shouldEscapeHost c \<and> \<not> is_ctl c \<and> c \<notin> set ''#?/@[''" if c: "c \<in> set ?s" for c
  proof (cases "c = CHR '':''")
    case True
    then show ?thesis by (simp add: shouldEscapeHost_def is_ctl_def byte_def)
  next
    case False
    with c hc [of c] pc [of c]
    have "is_digit c \<or> (97 \<le> byte c \<and> byte c \<le> 122) \<or> c \<in> set ''-._''" by auto
    from plain_chars [OF this] show ?thesis by simp
  qed
  have esc: "unescape encodeHost ?s = Some ?s"
    by (rule unescape_host_id) (use ok in \<open>auto simp: list.pred_set\<close>)
  have "dropWhile (\<lambda>c. c \<noteq> CHR '':'') ?s = p" if "CHR '':'' \<in> set ?s"
  proof -
    have "CHR '':'' \<notin> set h" using hc [of "CHR '':''"] plain_chars(4) [of "CHR '':''"] by auto
    moreover from this that p have "p = CHR '':'' # tl p" by (cases p) (auto simp: validOptionalPort_def)
    ultimately show ?thesis using dropWhile_neq_append [of "CHR '':''" h "tl p"] by simp
  qed
  moreover have br: "CHR ''['' \<notin> set ?s" using ok [of "CHR ''[''"] by force
  ultimately have "parseHost ?s = Some ?s"
    using p esc unfolding parseHost_def by (simp del: set_append)
  moreover have "CutLastByte ?s (CHR ''@'') = None"
    using ok [of "CHR ''@''"] unfolding CutLastByte_None by force
  moreover have "CHR ''#'' \<notin> set ?s" using ok [of "CHR ''#''"] by force
  moreover have q: "CHR ''?'' \<notin> set ?s" using ok [of "CHR ''?''"] by force
  moreover have sl: "CHR ''/'' \<notin> set ?s" using ok [of "CHR ''/''"] by force
  moreover have "\<not> HasSuffix ?s ''?''" using q by (metis HasSuffix_suffix in_set_conv_decomp suffix_def)
  moreover have "\<not> HasPrefix ?s ''/''" using sl by (metis HasPrefix_prefix append_Cons in_set_conv_decomp prefix_def self_append_conv2)
  moreover have "\<not> list_ex is_ctl ?s" using ok by (metis list_ex_iff)
  ultimately show ?thesis
    by (simp add: url_Parse_ref_def parseAuthority_def cut_query_def while_neq
        flip: append_assoc del: set_append CutLastByte_None)
qed

text \<open>C37.  Parsing is inverse to printing on canonical names, those of lower-case letters, digits, dots,
  dashes and underscores without a final dot: alone or joined with a port number, such a name is
  returned unchanged with the default or the given port.  Other targets need not be fixed points:
  of several final dots one is removed each time.\<close>

theorem ensurePort_canonical:
  assumes "canonical_host h" and "0 \<le> p" and "p < 2 ^ 63"
  shows "ensurePort ul h dp = Inr (JoinHostPort h (Itoa dp), h, dp) \<and>
    ensurePort ul (JoinHostPort h (Itoa p)) dp = Inr (JoinHostPort h (Itoa p), h, p) \<and>
    ensurePort id ''a..'' 22 = Inr (''a.:22'', ''a.'', 22) \<and> ensurePort id ''a.:22'' 22 = Inr (''a:22'', ''a'', 22)"
proof -
  have hc: "c \<in> set h \<Longrightarrow> is_digit c \<or> (97 \<le> byte c \<and> byte c \<le> 122) \<or> c \<in> set ''-._''" for c
    using assms(1) by (auto simp: canonical_host_def list.pred_set)
  have colon: "CHR '':'' \<notin> set h" and brack: "hd h \<noteq> CHR ''[''" and ne: "h \<noteq> []"
    using hc [of "CHR '':''"] plain_chars(4) [of "CHR '':''"] hc [of "hd h"] plain_chars(4) [of "hd h"]
      assms(1)
    by (auto simp: canonical_host_def)
  have norm: "Hostname ul h = h"
    using assms(1) hc plain_chars(5,6)
    by (intro Hostname_canonical) (auto simp: canonical_host_def list.pred_set)
  have digits: "list_all is_digit (Itoa p)" and nz: "Itoa p \<noteq> []" and v: "dec_val (Itoa p) = p"
    using assms(2) dec_digits_digit [of p] by (simp_all add: Itoa_def)
  have pfx: "\<not> HasPrefix h ''[''" using brack ne by (cases h) (auto simp: HasPrefix_def)
  have split1: "url_splitHostPort h = (h, [])"
    using colon pfx by (simp add: url_splitHostPort_def CutLastByte_def)
  have split2: "url_splitHostPort (h @ CHR '':'' # Itoa p) = (h, Itoa p)"
    using Itoa_no_colon [of p] digits pfx by (simp add: url_splitHostPort_def validOptionalPort_def)
  have "ensurePort ul h dp = Inr (JoinHostPort h (Itoa dp), h, dp)"
    using url_Parse_ref_plain [OF assms(1), of "[]"] split1 norm ne
    by (simp add: ensurePort_def Hostname_of_def Port_of_def validOptionalPort_def)
  moreover have "ensurePort ul (h @ CHR '':'' # Itoa p) dp = Inr (JoinHostPort h (Itoa p), h, p)"
    using url_Parse_ref_plain [OF assms(1), of "CHR '':'' # Itoa p"] split2 norm ne digits nz v assms
    by (simp add: ensurePort_def Hostname_of_def Port_of_def validOptionalPort_def Atoi_digits)
  moreover have "ensurePort id ''a..'' 22 = Inr (''a.:22'', ''a.'', 22)" "ensurePort id ''a.:22'' 22 = Inr (''a:22'', ''a'', 22)"
    by code_simp+
  ultimately show ?thesis using colon by (simp add: JoinHostPort_def)
qed

theorem ensurePort_canonical_witness:
  "ensurePort id ''db-1.example.com'' 22 = Inr (''db-1.example.com:22'', ''db-1.example.com'', 22) \<and>
   ensurePort id ''db-1.example.com:2222'' 22 =
     Inr (''db-1.example.com:2222'', ''db-1.example.com'', 2222)"
proof -
  have "canonical_host ''db-1.example.com''" by code_simp
  moreover have "JoinHostPort ''db-1.example.com'' (Itoa 22) = ''db-1.example.com:22''"
    and "JoinHostPort ''db-1.example.com'' (Itoa 2222) = ''db-1.example.com:2222''"
    by code_simp+
  ultimately show ?thesis
    using ensurePort_canonical [of "''db-1.example.com''" 2222 id 22] by simp
qed

end
