(* ===== verification/Targets.thy ===== *)
theory Targets
  imports Go_Net Normalize
begin

text \<open>
  The allow-list of targets (\<^verbatim>\<open>internal/config/target.go\<close>) and its use by the \<^verbatim>\<open>/probe\<close> handler
  (\<^verbatim>\<open>targetAllowed\<close> of \<^verbatim>\<open>internal/probehttp/probehttp.go\<close>).  The five implementations of the
  interface \<^verbatim>\<open>TargetMatcher\<close> are the constructors of \<open>matcher\<close>; their method \<^verbatim>\<open>Match\<close> is one
  function by cases.  The locale \<open>target_matcher\<close> states the interface as a set of hosts per
  matcher; the handler's loop is verified against it and it is interpreted on the matchers.
\<close>

section \<open>Patterns and matchers\<close>

datatype target_error =
    NoAllowedTargets
  | EmptyPattern
  | AllowAllPattern string
  | MultiLabelWildcard string
  | ZoneNotAllowed string
  | InvalidWildcard string
  | InvalidCIDR string
  | EmptyHostname string

datatype matcher =
    allowAllMatcher
  | hostMatcher string
  | wildcardMatcher string
  | ipMatcher addr
  | cidrMatcher cidr

definition newHostMatcher :: "(string \<Rightarrow> string) \<Rightarrow> string \<Rightarrow> target_error + matcher" where
  "newHostMatcher ul pattern =
     (let h = Hostname ul pattern
      in if h = [] then Inl (EmptyHostname pattern) else Inr (hostMatcher h))"

definition newWildcardMatcher :: "(string \<Rightarrow> string) \<Rightarrow> string \<Rightarrow> target_error + matcher" where
  "newWildcardMatcher ul pattern =
     (let parent = Hostname ul (TrimPrefix pattern ''*.'')
      in if parent = [] \<or> ContainsByte parent (CHR ''*'') then Inl (InvalidWildcard pattern)
         else Inr (wildcardMatcher parent))"

definition newIPMatcher :: "string \<Rightarrow> addr \<Rightarrow> target_error + matcher" where
  "newIPMatcher pattern addr =
     (if Zone addr \<noteq> [] then Inl (ZoneNotAllowed pattern) else Inr (ipMatcher addr))"

definition newCIDRMatcher :: "string \<Rightarrow> target_error + matcher" where
  "newCIDRMatcher pattern =
     (case ParsePrefix pattern of
        None \<Rightarrow> Inl (InvalidCIDR pattern)
      | Some p \<Rightarrow> Inr (cidrMatcher (Masked p)))"

definition buildTarget :: "(string \<Rightarrow> string) \<Rightarrow> string \<Rightarrow> target_error + matcher" where
  "buildTarget ul pattern =
     (if pattern = [] then Inl EmptyPattern
      else if pattern = ''*'' then Inl (AllowAllPattern pattern)
      else if HasPrefix pattern ''**'' then Inl (MultiLabelWildcard pattern)
      else if ContainsByte pattern (CHR ''%'') then Inl (ZoneNotAllowed pattern)
      else if HasPrefix pattern ''*.'' then newWildcardMatcher ul pattern
      else if ContainsByte pattern (CHR ''/'') then newCIDRMatcher pattern
      else (case ParseAddr pattern of
              Some addr \<Rightarrow> newIPMatcher pattern addr
            | None \<Rightarrow> newHostMatcher ul pattern))"

definition resolveAllowedTargets ::
    "(string \<Rightarrow> string) \<Rightarrow> string list \<Rightarrow> bool \<Rightarrow> target_error + matcher list" where
  "resolveAllowedTargets ul patterns allowAll =
     (if patterns = [] then (if allowAll then Inr [allowAllMatcher] else Inl NoAllowedTargets)
      else res_map (buildTarget ul) patterns)"

definition wildcardMatch :: "string \<Rightarrow> string \<Rightarrow> bool" where
  "wildcardMatch parent host =
     (let suff = ''.'' @ parent in
      if \<not> HasSuffix host suff then False
      else let label = take (length host - length suff) host
           in label \<noteq> [] \<and> \<not> ContainsByte label (CHR ''.''))"

definition ipMatch :: "addr \<Rightarrow> string \<Rightarrow> bool" where
  "ipMatch a host =
     (case ParseAddr host of
        None \<Rightarrow> False
      | Some addr \<Rightarrow> if Zone addr \<noteq> [] then False else addr = a)"

definition cidrMatch :: "cidr \<Rightarrow> string \<Rightarrow> bool" where
  "cidrMatch p host =
     (case ParseAddr host of
        None \<Rightarrow> False
      | Some addr \<Rightarrow> if Zone addr \<noteq> [] then False else PrefixContains p addr)"

fun Match :: "matcher \<Rightarrow> string \<Rightarrow> bool" where
  "Match allowAllMatcher host = True"
| "Match (hostMatcher h) host = (host = h)"
| "Match (wildcardMatcher parent) host = wildcardMatch parent host"
| "Match (ipMatcher a) host = ipMatch a host"
| "Match (cidrMatcher p) host = cidrMatch p host"

text \<open>The handler's loop calls \<^verbatim>\<open>Match\<close> through the interface, here an argument.\<close>

fun targetAllowed :: "('m \<Rightarrow> string \<Rightarrow> bool) \<Rightarrow> string \<Rightarrow> 'm list \<Rightarrow> bool" where
  "targetAllowed match host [] = False"
| "targetAllowed match host (m # ms) = (if match m host then True else targetAllowed match host ms)"

section \<open>The interface: a matcher denotes a set of hosts\<close>

locale target_matcher =
  fixes match :: "'m \<Rightarrow> string \<Rightarrow> bool"
    and hosts :: "'m \<Rightarrow> string set"
  assumes match_hosts: "match m h \<longleftrightarrow> h \<in> hosts m"
begin

lemma allowed_iff: "targetAllowed match h ms \<longleftrightarrow> h \<in> (\<Union>m\<in>set ms. hosts m)"
  by (induction ms) (auto simp: match_hosts)

lemma allowed_Nil: "\<not> targetAllowed match h []"
  by (simp add: allowed_iff)

lemma allowed_append:
  "targetAllowed match h (xs @ ys) \<longleftrightarrow> targetAllowed match h xs \<or> targetAllowed match h ys"
  by (simp add: allowed_iff)

lemma allowed_mono: "set xs \<subseteq> set ys \<Longrightarrow> targetAllowed match h xs \<Longrightarrow> targetAllowed match h ys"
  by (auto simp: allowed_iff)

end

text \<open>
  The documented meaning of each form: an exact name, exactly one label below a parent, the
  literals of one address, the literals whose leading bits are those of a prefix.
\<close>

fun same_net :: "cidr \<Rightarrow> addr \<Rightarrow> bool" where
  "same_net (IPv4 p, b) (IPv4 a) \<longleftrightarrow> drop_bit (32 - b) a = drop_bit (32 - b) p"
| "same_net (IPv6 p _, b) (IPv6 a _) \<longleftrightarrow> drop_bit (128 - b) a = drop_bit (128 - b) p"
| "same_net _ _ \<longleftrightarrow> False"

fun allowed_hosts :: "matcher \<Rightarrow> string set" where
  "allowed_hosts allowAllMatcher = UNIV"
| "allowed_hosts (hostMatcher h) = {h}"
| "allowed_hosts (wildcardMatcher parent) =
     {l @ ''.'' @ parent | l. l \<noteq> [] \<and> CHR ''.'' \<notin> set l}"
| "allowed_hosts (ipMatcher a) = {s. Zone a = [] \<and> ParseAddr s = Some a}"
| "allowed_hosts (cidrMatcher p) =
     {s. \<exists>a. ParseAddr s = Some a \<and> Zone a = [] \<and> same_net p a}"

lemma wildcardMatch_iff:
  "wildcardMatch parent host \<longleftrightarrow> (\<exists>l. host = l @ ''.'' @ parent \<and> l \<noteq> [] \<and> CHR ''.'' \<notin> set l)"
proof (cases "suffix (''.'' @ parent) host")
  case True
  then obtain l where "host = l @ ''.'' @ parent" by (auto simp: suffix_def)
  then show ?thesis by (auto simp: wildcardMatch_def HasSuffix_def)
next
  case False
  then show ?thesis by (auto simp: wildcardMatch_def HasSuffix_suffix suffix_def)
qed

lemma PrefixContains_same_net:
  "PrefixContains p a \<longleftrightarrow> same_net p a \<and> (Is4 a \<or> Zone a = [])"
  by (cases "(p, a)" rule: PrefixContains.cases)
    (simp_all add: drop_bit_xor_eq_0 and_not_mask_eq_0 conj_commute del: drop_bit_xor)

lemma same_net_Masked: "same_net (Masked p) a \<longleftrightarrow> same_net p a"
  by (cases "(p, a)" rule: same_net.cases) (simp_all add: drop_bit_and_not_mask del: drop_bit_and)

interpretation tm: target_matcher Match allowed_hosts
proof
  fix m h
  show "Match m h \<longleftrightarrow> h \<in> allowed_hosts m"
    by (cases m)
      (auto simp: wildcardMatch_iff ipMatch_def cidrMatch_def PrefixContains_same_net
        split: option.splits)
qed

section \<open>Building matchers from patterns\<close>

lemmas build_defs = buildTarget_def newHostMatcher_def newWildcardMatcher_def newIPMatcher_def
  newCIDRMatcher_def

text \<open>What a matcher says about the pattern it was built from.\<close>

fun built_from :: "(string \<Rightarrow> string) \<Rightarrow> string \<Rightarrow> matcher \<Rightarrow> bool" where
  "built_from ul p allowAllMatcher \<longleftrightarrow> False"
| "built_from ul p (hostMatcher h) \<longleftrightarrow>
     h = Hostname ul p \<and> h \<noteq> [] \<and> ParseAddr p = None \<and> CHR ''/'' \<notin> set p"
| "built_from ul p (wildcardMatcher q) \<longleftrightarrow>
     (\<exists>r. p = ''*.'' @ r \<and> q = Hostname ul r) \<and> q \<noteq> [] \<and> CHR ''*'' \<notin> set q"
| "built_from ul p (ipMatcher a) \<longleftrightarrow> ParseAddr p = Some a \<and> Zone a = []"
| "built_from ul p (cidrMatcher c) \<longleftrightarrow>
     (\<exists>ip b. ParsePrefix p = Some (ip, b) \<and> b \<le> BitLen ip \<and> Zone ip = [] \<and> c = Masked (ip, b))"

lemma buildTarget_built_from: "buildTarget ul pattern = Inr m \<Longrightarrow> built_from ul pattern m"
  using ParsePrefix_props [of pattern]
  by (auto simp: build_defs Let_def TrimPrefix_def HasPrefix_prefix prefix_def
      split: if_splits option.splits)

lemma buildTarget_rejects:
  "buildTarget ul pattern = Inr m \<Longrightarrow>
     pattern \<noteq> [] \<and> pattern \<noteq> ''*'' \<and> \<not> prefix ''**'' pattern \<and> CHR ''%'' \<notin> set pattern"
  by (auto simp: buildTarget_def HasPrefix_prefix split: if_splits)

text \<open>A pattern is accepted only as one of four forms: the exact name in canonical form, a
  parent with exactly one wildcard label in front, one address without a zone, or a prefix
  within its family's bit length, masked.  A pattern with a percent sign, a bare or a double
  asterisk, or no characters is never accepted, and no pattern yields the allow-all matcher.\<close>

theorem buildTarget_accepts:
  assumes "buildTarget ul pattern = Inr m"
  shows "built_from ul pattern m \<and> pattern \<noteq> [] \<and> pattern \<noteq> ''*'' \<and> \<not> prefix ''**'' pattern
    \<and> CHR ''%'' \<notin> set pattern"
  using assms buildTarget_built_from buildTarget_rejects by blast

theorem buildTarget_accepts_witness:
  "built_from id ''192.0.2.0/24'' (cidrMatcher (IPv4 3221225984, 24)) \<and> CHR ''%'' \<notin> set ''192.0.2.0/24''"
proof -
  have "buildTarget id ''192.0.2.0/24'' = Inr (cidrMatcher (IPv4 3221225984, 24))" by code_simp
  from buildTarget_accepts [OF this] show ?thesis by blast
qed

text \<open>C33.  Access is denied by default: resolving an empty list fails unless all targets are
  allowed by the flag, and then yields the allow-all matcher alone.  With a list, the flag is
  ignored: every matcher comes from a pattern of the list, every pattern has its matcher, and
  none of them is the allow-all matcher.\<close>

theorem resolveAllowedTargets_deny_by_default:
  "(resolveAllowedTargets ul [] allowAll =
      (if allowAll then Inr [allowAllMatcher] else Inl NoAllowedTargets))
   \<and> (resolveAllowedTargets ul (p # ps) allowAll = resolveAllowedTargets ul (p # ps) False)
   \<and> (resolveAllowedTargets ul (p # ps) allowAll = Inr ms \<longrightarrow>
        list_all2 (\<lambda>q m. buildTarget ul q = Inr m) (p # ps) ms \<and> allowAllMatcher \<notin> set ms)"
proof -
  have "allowAllMatcher \<notin> set ms" if built: "res_map (buildTarget ul) (p # ps) = Inr ms"
    using res_map_Inr_ex [OF built] buildTarget_built_from [of ul _ allowAllMatcher] by auto
  then show ?thesis
    unfolding resolveAllowedTargets_def by (auto simp: res_map_Inr_iff simp del: res_map.simps)
qed

theorem resolveAllowedTargets_deny_by_default_witness:
  "resolveAllowedTargets id [''Example.COM''] True = Inr [hostMatcher ''example.com'']
   \<and> allowAllMatcher \<notin> set [hostMatcher ''example.com'']"
proof -
  have r: "resolveAllowedTargets id [''Example.COM''] True = Inr [hostMatcher ''example.com'']"
    by code_simp
  with resolveAllowedTargets_deny_by_default [of id True "''Example.COM''" "[]" "[hostMatcher ''example.com'']"]
  show ?thesis by blast
qed

section \<open>What a list of matchers lets through\<close>

text \<open>C11.  The handler admits a host exactly when some matcher of the module denotes it: the
  union of the documented sets of hosts, and nothing for an empty list.\<close>

theorem targetAllowed_iff:
  "targetAllowed Match host ms \<longleftrightarrow> (\<exists>m\<in>set ms. host \<in> allowed_hosts m)"
  by (simp add: tm.allowed_iff)

text \<open>The addresses of a prefix are an interval: from its base for the size of its host part.\<close>

lemma unat_drop_bit_eq_iff:
  "drop_bit n a = drop_bit n b \<longleftrightarrow> unat a div 2 ^ n = unat (b :: 'w::len word) div 2 ^ n"
  unfolding word_unat_eq_iff unat_drop_bit_eq by (simp add: drop_bit_eq_div)

lemma div_eq_interval:
  assumes "0 < (d::nat)"
  shows "a div d = c div d \<longleftrightarrow> c div d * d \<le> a \<and> a < c div d * d + d"
proof
  assume "a div d = c div d"
  then show "c div d * d \<le> a \<and> a < c div d * d + d"
    using assms by (metis add.commute div_times_less_eq_dividend dividend_less_div_times)
next
  assume "c div d * d \<le> a \<and> a < c div d * d + d"
  then show "a div d = c div d"
    using assms by (intro div_nat_eqI) (simp_all add: mult.commute)
qed

lemma ParsePrefix_no_wildcard:
  assumes "ParsePrefix pattern = Some c"
  shows "\<not> prefix ''*.'' pattern"
proof
  assume "prefix ''*.'' pattern"
  moreover from assms obtain a bits ip where "pattern = a @ CHR ''/'' # bits" and "ParseAddr a = Some ip"
    by (auto simp: ParsePrefix_def CutLastByte_eq_Some split: option.splits)
  ultimately obtain r where "ParseAddr (''*.'' @ r) = Some ip"
    by (cases a; cases "tl a") (auto simp: ParseAddr_def)
  then show False by (simp add: ParseAddr_def parseIPv4_def is_digit_def byte_def)
qed

text \<open>C34.  An IPv4 prefix pattern admits precisely the IPv4 literals from the masked base
  address up to, not including, the base plus two to the number of host bits, whatever host
  bits the pattern itself carries.\<close>

theorem cidr_pattern_interval:
  assumes "ParsePrefix pattern = Some (IPv4 p, b)" and "ParseAddr host = Some (IPv4 a)"
    and "buildTarget ul pattern = Inr m"
  shows "Match m host \<longleftrightarrow>
    unat p div 2 ^ (32 - b) * 2 ^ (32 - b) \<le> unat a \<and>
    unat a < unat p div 2 ^ (32 - b) * 2 ^ (32 - b) + 2 ^ (32 - b)"
proof -
  have "m = cidrMatcher (Masked (IPv4 p, b))"
    using assms(1,3) ParsePrefix_props(3) [OF assms(1)] ParsePrefix_no_wildcard [OF assms(1)]
    by (auto simp: build_defs HasPrefix_prefix split: if_splits)
  then have "Match m host \<longleftrightarrow> drop_bit (32 - b) a = drop_bit (32 - b) p"
    using assms(2) PrefixContains_Masked_IPv4 [of p b a] by (simp add: cidrMatch_def)
  also have "\<dots> \<longleftrightarrow> unat a div 2 ^ (32 - b) = unat p div 2 ^ (32 - b)"
    by (rule unat_drop_bit_eq_iff)
  finally show ?thesis by (simp add: div_eq_interval)
qed

theorem cidr_pattern_interval_witness:
  "Match (cidrMatcher (IPv4 3221225984, 24)) ''192.0.2.77''"
proof -
  have "ParsePrefix ''192.0.2.9/24'' = Some (IPv4 3221225993, 24)"
    and "ParseAddr ''192.0.2.77'' = Some (IPv4 3221226061)"
    and "buildTarget id ''192.0.2.9/24'' = Inr (cidrMatcher (IPv4 3221225984, 24))"
    by code_simp+
  from cidr_pattern_interval [OF this] show ?thesis by simp
qed

text \<open>C35.  An IPv6 literal with a zone is only ever admitted by a wildcard pattern: no matcher
  built from an exact name, an address or a prefix matches it.\<close>

theorem zoned_literal_needs_wildcard:
  assumes "keeps_punctuation ul" and "buildTarget ul pattern = Inr m"
    and "ParseAddr host = Some a" and "Zone a \<noteq> []" and "Match m host"
  shows "\<exists>parent. m = wildcardMatcher parent"
proof (cases m)
  case (hostMatcher h)
  have "CHR ''%'' \<notin> set (Hostname ul pattern)"
    using assms(1) buildTarget_rejects [OF assms(2)]
    by (subst set_Hostname_punct) (simp_all add: is_ascii_def is_letter_def is_upper_def byte_def)
  moreover have "h = Hostname ul pattern"
    using buildTarget_built_from [OF assms(2)] hostMatcher by simp
  ultimately have "CHR ''%'' \<notin> set host" using assms(5) hostMatcher by simp
  then show ?thesis using ParseAddr_no_zone [OF assms(3)] assms(4) by simp
next
  case allowAllMatcher
  then show ?thesis using buildTarget_built_from [OF assms(2)] by simp
qed (use assms(3-5) in \<open>auto simp: ipMatch_def cidrMatch_def\<close>)

theorem zoned_literal_needs_wildcard_witness:
  "Match (wildcardMatcher ''example.com'') ''fe80::1%x.example.com''
   \<and> (\<exists>parent. wildcardMatcher ''example.com'' = wildcardMatcher parent)"
proof -
  have b: "buildTarget (map lower_byte) ''*.example.com'' = Inr (wildcardMatcher ''example.com'')"
    and p: "ParseAddr ''fe80::1%x.example.com'' =
              Some (IPv6 338288524927261089654018896841347694593 ''x.example.com'')"
    and m: "Match (wildcardMatcher ''example.com'') ''fe80::1%x.example.com''"
    by code_simp+
  from zoned_literal_needs_wildcard [OF keeps_punctuation_lower_byte b p _ m] m show ?thesis
    by simp
qed

end
