(* ===== verification/Go_Errors.thy ===== *)
theory Go_Errors
  imports Prelude
begin

text \<open>
  Go error values as the probe inspects them: a tree of wrapped errors searched by
  \<^verbatim>\<open>errors.Is\<close> and \<^verbatim>\<open>errors.AsType\<close> in pre-order, and the \<^verbatim>\<open>Timeout\<close> method of the error types
  of packages \<^verbatim>\<open>net\<close>, \<^verbatim>\<open>os\<close>, \<^verbatim>\<open>syscall\<close> and \<^verbatim>\<open>context\<close>.  A node has a kind and the errors its
  \<^verbatim>\<open>Unwrap\<close> method returns.
\<close>

datatype errno =
    ECONNREFUSED | EHOSTUNREACH | ENETUNREACH | ECONNRESET | EPIPE | ETIMEDOUT | EAGAIN
  | OtherErrno int

datatype errkind =
    Errno errno
  | SyscallError
  | OpError
  | DNSError bool
  | DeadlineExceeded
  | Canceled
  | EOF
  | ErrUnexpectedEOF
  | errAbort
  | errHostCertificateInvalid
  | AlgorithmNegotiationError string
  | KeyError "string list"
  | RevokedError
  | OtherError string "bool option"

text \<open>
  \<open>DNSError\<close> carries \<^verbatim>\<open>IsTimeout\<close>, \<open>AlgorithmNegotiationError\<close> its \<^verbatim>\<open>What\<close>, \<open>KeyError\<close> its \<^verbatim>\<open>Want\<close>.
  \<open>OtherError\<close> is any other error value; its second argument is the answer of its \<^verbatim>\<open>Timeout\<close>
  method when it implements \<^verbatim>\<open>net.Error\<close>.
\<close>

datatype gerr = Err errkind "gerr list"

fun find_err :: "(errkind \<Rightarrow> gerr list \<Rightarrow> 'a option) \<Rightarrow> gerr \<Rightarrow> 'a option"
  and find_errs :: "(errkind \<Rightarrow> gerr list \<Rightarrow> 'a option) \<Rightarrow> gerr list \<Rightarrow> 'a option" where
  "find_err p (Err k es) = (case p k es of Some x \<Rightarrow> Some x | None \<Rightarrow> find_errs p es)"
| "find_errs p [] = None"
| "find_errs p (e # es) = (case find_err p e of Some x \<Rightarrow> Some x | None \<Rightarrow> find_errs p es)"

definition errors_Is :: "gerr \<Rightarrow> errkind \<Rightarrow> bool" where
  "errors_Is e t \<longleftrightarrow> find_err (\<lambda>k _. if k = t then Some () else None) e \<noteq> None"

fun Timeout :: "gerr \<Rightarrow> bool option" where
  "Timeout (Err (Errno n) _) = Some (n = EAGAIN \<or> n = ETIMEDOUT)"
| "Timeout (Err SyscallError (e # _)) = Some (Timeout e = Some True)"
| "Timeout (Err OpError (e # _)) = Some (Timeout e = Some True)"
| "Timeout (Err SyscallError []) = Some False"
| "Timeout (Err OpError []) = Some False"
| "Timeout (Err (DNSError t) _) = Some t"
| "Timeout (Err DeadlineExceeded _) = Some True"
| "Timeout (Err (OtherError _ t) _) = t"
| "Timeout _ = None"

text \<open>\<^verbatim>\<open>errors.AsType[net.Error]\<close> followed by \<^verbatim>\<open>Timeout\<close>; \<^verbatim>\<open>os.SyscallError\<close> is not a \<^verbatim>\<open>net.Error\<close>.\<close>

definition net_timeout :: "gerr \<Rightarrow> bool" where
  "net_timeout e \<longleftrightarrow>
     find_err (\<lambda>k es. if k = SyscallError then None else Timeout (Err k es)) e = Some True"

fun sel_NegotiationError :: "errkind \<Rightarrow> string option" where
  "sel_NegotiationError (AlgorithmNegotiationError what) = Some what"
| "sel_NegotiationError _ = None"

fun sel_KeyError :: "errkind \<Rightarrow> string list option" where
  "sel_KeyError (KeyError want) = Some want"
| "sel_KeyError _ = None"

fun sel_DNSError :: "errkind \<Rightarrow> bool option" where
  "sel_DNSError (DNSError t) = Some t"
| "sel_DNSError _ = None"

definition as_NegotiationError :: "gerr \<Rightarrow> string option" where
  "as_NegotiationError = find_err (\<lambda>k _. sel_NegotiationError k)"

definition as_KeyError :: "gerr \<Rightarrow> string list option" where
  "as_KeyError = find_err (\<lambda>k _. sel_KeyError k)"

definition as_RevokedError :: "gerr \<Rightarrow> bool" where
  "as_RevokedError e \<longleftrightarrow> errors_Is e RevokedError"

definition as_DNSError :: "gerr \<Rightarrow> bool" where
  "as_DNSError e \<longleftrightarrow> find_err (\<lambda>k _. sel_DNSError k) e \<noteq> None"

section \<open>The kinds an error tree contains\<close>

fun kinds :: "gerr \<Rightarrow> errkind set" and kindss :: "gerr list \<Rightarrow> errkind set" where
  "kinds (Err k es) = insert k (kindss es)"
| "kindss [] = {}"
| "kindss (e # es) = kinds e \<union> kindss es"

lemma find_err_kinds:
  "find_err (\<lambda>k _. f k) e \<noteq> None \<longleftrightarrow> (\<exists>k\<in>kinds e. f k \<noteq> None)"
  "find_errs (\<lambda>k _. f k) es \<noteq> None \<longleftrightarrow> (\<exists>k\<in>kindss es. f k \<noteq> None)"
  by (induction e and es rule: kinds_kindss.induct) (auto split: option.splits)

lemma errors_Is_kinds: "errors_Is e t \<longleftrightarrow> t \<in> kinds e"
  unfolding errors_Is_def find_err_kinds(1) by auto

lemma sel_iffs:
  "sel_NegotiationError k \<noteq> None \<longleftrightarrow> (\<exists>w. k = AlgorithmNegotiationError w)"
  "sel_KeyError k \<noteq> None \<longleftrightarrow> (\<exists>w. k = KeyError w)"
  "sel_DNSError k \<noteq> None \<longleftrightarrow> (\<exists>t. k = DNSError t)"
  by (cases k, simp_all)+

lemma as_NegotiationError_iff: "as_NegotiationError e \<noteq> None \<longleftrightarrow> (\<exists>w. AlgorithmNegotiationError w \<in> kinds e)"
  unfolding as_NegotiationError_def find_err_kinds(1) sel_iffs by blast

lemma as_KeyError_iff: "as_KeyError e \<noteq> None \<longleftrightarrow> (\<exists>w. KeyError w \<in> kinds e)"
  unfolding as_KeyError_def find_err_kinds(1) sel_iffs by blast

lemma as_RevokedError_iff: "as_RevokedError e \<longleftrightarrow> RevokedError \<in> kinds e"
  by (simp add: as_RevokedError_def errors_Is_kinds)

lemma as_DNSError_iff: "as_DNSError e \<longleftrightarrow> (\<exists>t. DNSError t \<in> kinds e)"
  unfolding as_DNSError_def find_err_kinds(1) sel_iffs by blast

end
