(* ===== verification/Config.thy ===== *)
theory Config
  imports Targets Go_Errors
begin

text \<open>
  The configuration file (\<^verbatim>\<open>internal/config/config.go\<close>): defaulting and validation of the decoded
  YAML document.  Reading the file, decoding it, and the lists of algorithms of
  \<^verbatim>\<open>golang.org/x/crypto/ssh\<close> are arguments.  A Go map is given by its entries in the order the
  loop over it visits them; that order is arbitrary, and the results are shown not to depend
  on it.
\<close>

section \<open>Algorithm names\<close>

definition DefaultModuleName :: string where
  "DefaultModuleName = ''default''"

record ssh_algorithms =
  alg_Ciphers :: "string list"
  alg_KeyExchanges :: "string list"
  alg_MACs :: "string list"
  alg_HostKeys :: "string list"

text \<open>The sets \<^verbatim>\<open>knownCiphers\<close> and so on, as the loops of \<^verbatim>\<open>algorithmSet\<close> collect them.\<close>

definition algorithmSet :: "string list list \<Rightarrow> string set" where
  "algorithmSet nameLists = foldl (\<lambda>s names. foldl (\<lambda>s name. insert name s) s names) {} nameLists"

record ssh_library =
  SupportedAlgorithms :: ssh_algorithms
  InsecureAlgorithms :: ssh_algorithms

definition knownCiphers :: "ssh_library \<Rightarrow> string set" where
  "knownCiphers lib = algorithmSet [alg_Ciphers (SupportedAlgorithms lib), alg_Ciphers (InsecureAlgorithms lib)]"

definition knownKeyExchanges :: "ssh_library \<Rightarrow> string set" where
  "knownKeyExchanges lib =
     algorithmSet [alg_KeyExchanges (SupportedAlgorithms lib), alg_KeyExchanges (InsecureAlgorithms lib)]"

definition knownMACs :: "ssh_library \<Rightarrow> string set" where
  "knownMACs lib = algorithmSet [alg_MACs (SupportedAlgorithms lib), alg_MACs (InsecureAlgorithms lib)]"

definition knownHostKeyAlgorithms :: "ssh_library \<Rightarrow> string set" where
  "knownHostKeyAlgorithms lib =
     algorithmSet [alg_HostKeys (SupportedAlgorithms lib), alg_HostKeys (InsecureAlgorithms lib)]"

datatype config_error =
    ReadingFile gerr
  | ParsingFile gerr
  | KnownHostsRequired
  | InvalidPort int
  | TargetPortNotAllowed int "int list"
  | UnknownAlgorithms string "string list"
  | LoadingKnownHosts gerr
  | TargetError target_error
  | InModule string config_error
  | LoadingFile config_error

definition validateAlgorithms :: "string \<Rightarrow> string list \<Rightarrow> string set \<Rightarrow> config_error option" where
  "validateAlgorithms kind names known =
     (let unknown = filter (\<lambda>name. name \<notin> known) names
      in if unknown = [] then None else Some (UnknownAlgorithms kind unknown))"

section \<open>The document and its defaults\<close>

text \<open>
  A list of the document is nil when its key is absent; only \<^verbatim>\<open>allowed_ports\<close> is tested for nil, so
  only there absent and empty are told apart.
\<close>

record rawConfigModule =
  m_KnownHostsFile :: string
  m_AllowedTargets :: "string list"
  m_AllowedPorts :: "int list option"
  m_TargetPort :: int
  m_Ciphers :: "string list"
  m_KeyExchanges :: "string list"
  m_MACs :: "string list"
  m_HostKeyAlgorithms :: "string list"
  m_StripServerIdentificationComments :: bool

definition zero_rawConfigModule :: rawConfigModule where
  "zero_rawConfigModule =
     \<lparr> m_KnownHostsFile = [], m_AllowedTargets = [], m_AllowedPorts = None, m_TargetPort = 0,
       m_Ciphers = [], m_KeyExchanges = [], m_MACs = [], m_HostKeyAlgorithms = [],
       m_StripServerIdentificationComments = False \<rparr>"

record rawConfig =
  c_KnownHostsFile :: string
  c_AllowedTargets :: "string list"
  c_AllowedPorts :: "int list option"
  c_TargetPort :: int
  c_Modules :: "(string \<times> rawConfigModule) list"
  c_StripServerIdentificationComments :: bool
  c_allowAllTargets :: bool

definition zero_rawConfig :: rawConfig where
  "zero_rawConfig =
     \<lparr> c_KnownHostsFile = [], c_AllowedTargets = [], c_AllowedPorts = None, c_TargetPort = 0,
       c_Modules = [], c_StripServerIdentificationComments = False, c_allowAllTargets = False \<rparr>"

text \<open>\<^verbatim>\<open>len\<close> and \<^verbatim>\<open>range\<close> of a list that may be nil.\<close>

definition elems :: "'a list option \<Rightarrow> 'a list" where
  "elems xs = (case xs of None \<Rightarrow> [] | Some l \<Rightarrow> l)"

text \<open>The assignments of the loop's body: what a module takes from the top level.\<close>

definition inherit :: "rawConfig \<Rightarrow> rawConfigModule \<Rightarrow> rawConfigModule" where
  "inherit cfg md =
     (let m1 = (if m_KnownHostsFile md = [] then md\<lparr> m_KnownHostsFile := c_KnownHostsFile cfg \<rparr> else md);
          m2 = (if m_AllowedTargets m1 = [] then m1\<lparr> m_AllowedTargets := c_AllowedTargets cfg \<rparr> else m1);
          m3 = m2\<lparr> m_StripServerIdentificationComments :=
                   m_StripServerIdentificationComments m2 \<or> c_StripServerIdentificationComments cfg \<rparr>;
          m4 = (if m_TargetPort m3 = 0 then m3\<lparr> m_TargetPort := c_TargetPort cfg \<rparr> else m3);
          m5 = (if m_TargetPort m4 = 0 then m4\<lparr> m_TargetPort := 22 \<rparr> else m4);
          m6 = (if m_AllowedPorts m5 = None then m5\<lparr> m_AllowedPorts := c_AllowedPorts cfg \<rparr> else m5)
      in if elems (m_AllowedPorts m6) = [] then m6\<lparr> m_AllowedPorts := Some [m_TargetPort m6] \<rparr> else m6)"

text \<open>
  The checks of the loop's body, in its order.  The one for the known_hosts file comes before
  the other assignments, which it does not read.
\<close>

definition check_module :: "ssh_library \<Rightarrow> rawConfigModule \<Rightarrow> config_error option" where
  "check_module lib md =
     (let ports = elems (m_AllowedPorts md) in
      if m_KnownHostsFile md = [] then Some KnownHostsRequired
      else
        (case find (\<lambda>p. p < 1 \<or> p > 65535) ports of
           Some p \<Rightarrow> Some (InvalidPort p)
         | None \<Rightarrow>
             if m_TargetPort md \<notin> set ports then Some (TargetPortNotAllowed (m_TargetPort md) ports)
             else
               (case validateAlgorithms ''ciphers'' (m_Ciphers md) (knownCiphers lib) of
                  Some e \<Rightarrow> Some e
                | None \<Rightarrow>
                    (case validateAlgorithms ''kex algorithms'' (m_KeyExchanges md) (knownKeyExchanges lib) of
                       Some e \<Rightarrow> Some e
                     | None \<Rightarrow>
                         (case validateAlgorithms ''macs'' (m_MACs md) (knownMACs lib) of
                            Some e \<Rightarrow> Some e
                          | None \<Rightarrow>
                              validateAlgorithms ''host key algorithms'' (m_HostKeyAlgorithms md)
                                (knownHostKeyAlgorithms lib))))))"

definition resolve_module ::
  "ssh_library \<Rightarrow> rawConfig \<Rightarrow> string \<times> rawConfigModule \<Rightarrow> config_error + (string \<times> rawConfigModule)" where
  "resolve_module lib cfg = (\<lambda>(name, md).
     let md' = inherit cfg md in
     case check_module lib md' of Some e \<Rightarrow> Inl (InModule name e) | None \<Rightarrow> Inr (name, md'))"

text \<open>
  The file system and the YAML decoder: \<^verbatim>\<open>Decode\<close> fills the configuration, starting from its zero
  value, and reports an error beside what it has filled in.
\<close>

record files =
  ReadFile :: "string \<Rightarrow> gerr + string"
  Decode :: "string \<Rightarrow> rawConfig \<times> gerr option"

text \<open>From the decoded document on: the default module, the flag, and the loop over the modules.\<close>

definition resolve_config :: "ssh_library \<Rightarrow> bool \<Rightarrow> rawConfig \<Rightarrow> config_error + rawConfig" where
  "resolve_config lib allowAllTargetsFlag cfg =
     (let cfg1 = (if length (c_Modules cfg) = 0
                  then cfg\<lparr> c_Modules := [(DefaultModuleName, zero_rawConfigModule)] \<rparr> else cfg);
          cfg2 = cfg1\<lparr> c_allowAllTargets := (allowAllTargetsFlag \<and> length (c_AllowedTargets cfg1) = 0) \<rparr>
      in res_bind (res_map (resolve_module lib cfg2) (c_Modules cfg2))
           (\<lambda>mods. Inr (cfg2\<lparr> c_Modules := mods \<rparr>)))"

definition loadRawConfig :: "files \<Rightarrow> ssh_library \<Rightarrow> string \<Rightarrow> bool \<Rightarrow> config_error + rawConfig" where
  "loadRawConfig fs lib path allowAllTargetsFlag =
     (case ReadFile fs path of
        Inl e \<Rightarrow> Inl (ReadingFile e)
      | Inr data \<Rightarrow>
          (case Decode fs data of
             (cfg, None) \<Rightarrow> resolve_config lib allowAllTargetsFlag cfg
           | (cfg, Some e) \<Rightarrow>
               if errors_Is e EOF then resolve_config lib allowAllTargetsFlag cfg else Inl (ParsingFile e)))"

section \<open>Which modules are accepted\<close>

lemma algorithmSet_Union: "algorithmSet ls = (\<Union>l\<in>set ls. set l)"
proof -
  have inner: "foldl (\<lambda>s name. insert name s) s l = s \<union> set l" for s and l :: "string list"
    by (induction l arbitrary: s) auto
  have "foldl (\<lambda>s names. foldl (\<lambda>s name. insert name s) s names) s ls = s \<union> (\<Union>l\<in>set ls. set l)" for s
    by (induction ls arbitrary: s) (auto simp: inner)
  then show ?thesis by (simp add: algorithmSet_def)
qed

lemma validateAlgorithms_None [simp]:
  "validateAlgorithms kind names known = None \<longleftrightarrow> set names \<subseteq> known"
  by (auto simp: validateAlgorithms_def Let_def filter_empty_conv)

text \<open>The documented values of a module: the module's own, else the top level's, else a default.\<close>

definition known_hosts_of :: "rawConfig \<Rightarrow> rawConfigModule \<Rightarrow> string" where
  "known_hosts_of cfg md = (if m_KnownHostsFile md \<noteq> [] then m_KnownHostsFile md else c_KnownHostsFile cfg)"

definition targets_of :: "rawConfig \<Rightarrow> rawConfigModule \<Rightarrow> string list" where
  "targets_of cfg md = (if m_AllowedTargets md \<noteq> [] then m_AllowedTargets md else c_AllowedTargets cfg)"

definition target_port_of :: "rawConfig \<Rightarrow> rawConfigModule \<Rightarrow> int" where
  "target_port_of cfg md =
     (if m_TargetPort md \<noteq> 0 then m_TargetPort md else if c_TargetPort cfg \<noteq> 0 then c_TargetPort cfg else 22)"

definition ports_of :: "rawConfig \<Rightarrow> rawConfigModule \<Rightarrow> int list" where
  "ports_of cfg md =
     (case m_AllowedPorts md of
        Some (p # ps) \<Rightarrow> p # ps
      | Some [] \<Rightarrow> [target_port_of cfg md]
      | None \<Rightarrow> (case c_AllowedPorts cfg of Some (p # ps) \<Rightarrow> p # ps | _ \<Rightarrow> [target_port_of cfg md]))"

lemma inherit_fields [simp]:
  "m_KnownHostsFile (inherit cfg md) = known_hosts_of cfg md"
  "m_AllowedTargets (inherit cfg md) = targets_of cfg md"
  "m_TargetPort (inherit cfg md) = target_port_of cfg md"
  "m_AllowedPorts (inherit cfg md) = Some (ports_of cfg md)"
  "m_Ciphers (inherit cfg md) = m_Ciphers md"
  "m_KeyExchanges (inherit cfg md) = m_KeyExchanges md"
  "m_MACs (inherit cfg md) = m_MACs md"
  "m_HostKeyAlgorithms (inherit cfg md) = m_HostKeyAlgorithms md"
  "m_StripServerIdentificationComments (inherit cfg md) \<longleftrightarrow>
     m_StripServerIdentificationComments md \<or> c_StripServerIdentificationComments cfg"
  by (simp_all add: inherit_def Let_def known_hosts_of_def targets_of_def target_port_of_def ports_of_def
      elems_def split: option.splits list.splits)

definition module_valid :: "ssh_library \<Rightarrow> rawConfigModule \<Rightarrow> bool" where
  "module_valid lib md \<longleftrightarrow>
     m_KnownHostsFile md \<noteq> [] \<and>
     (\<exists>ports. m_AllowedPorts md = Some ports \<and> m_TargetPort md \<in> set ports \<and>
        (\<forall>p\<in>set ports. 1 \<le> p \<and> p \<le> 65535)) \<and>
     set (m_Ciphers md) \<subseteq> knownCiphers lib \<and> set (m_KeyExchanges md) \<subseteq> knownKeyExchanges lib \<and>
     set (m_MACs md) \<subseteq> knownMACs lib \<and> set (m_HostKeyAlgorithms md) \<subseteq> knownHostKeyAlgorithms lib"

lemma check_module_None: "check_module lib (inherit cfg md) = None \<longleftrightarrow> module_valid lib (inherit cfg md)"
  by (auto simp: check_module_def module_valid_def elems_def Let_def find_None_iff first_error_None)

lemma resolve_module_Inr:
  "resolve_module lib cfg x = Inr y \<longleftrightarrow>
     y = (fst x, inherit cfg (snd x)) \<and> module_valid lib (inherit cfg (snd x))"
  unfolding check_module_None [symmetric]
  by (auto simp: resolve_module_def Let_def split: prod.splits option.splits)

section \<open>What loading yields\<close>

text \<open>The modules of a document: the ones it lists, or the default module alone.\<close>

definition modules_of :: "rawConfig \<Rightarrow> (string \<times> rawConfigModule) list" where
  "modules_of doc =
     (if c_Modules doc = [] then [(DefaultModuleName, zero_rawConfigModule)] else c_Modules doc)"

definition resolved :: "rawConfig \<Rightarrow> bool \<Rightarrow> rawConfig" where
  "resolved doc flag =
     doc\<lparr> c_allowAllTargets := (flag \<and> c_AllowedTargets doc = []),
          c_Modules := map (\<lambda>(n, md). (n, inherit doc md)) (modules_of doc) \<rparr>"

definition decodes :: "files \<Rightarrow> string \<Rightarrow> rawConfig \<Rightarrow> bool" where
  "decodes fs path doc \<longleftrightarrow>
     (\<exists>data err. ReadFile fs path = Inr data \<and> Decode fs data = (doc, err) \<and>
        (case err of None \<Rightarrow> True | Some e \<Rightarrow> errors_Is e EOF))"

lemma inherit_update [simp]:
  "inherit (cfg\<lparr> c_Modules := ms \<rparr>) = inherit cfg"
  "inherit (cfg\<lparr> c_allowAllTargets := b \<rparr>) = inherit cfg"
  by (rule ext, rule rawConfigModule.equality;
      simp add: known_hosts_of_def targets_of_def target_port_of_def ports_of_def split: option.splits list.splits)+

lemma resolve_module_update [simp]:
  "resolve_module lib (cfg\<lparr> c_Modules := ms \<rparr>) = resolve_module lib cfg"
  "resolve_module lib (cfg\<lparr> c_allowAllTargets := b \<rparr>) = resolve_module lib cfg"
  by (simp_all only: resolve_module_def inherit_update)

lemma resolve_config_map:
  "resolve_config lib flag doc =
    res_bind (res_map (resolve_module lib doc) (modules_of doc))
      (\<lambda>mods. Inr ((resolved doc flag)\<lparr> c_Modules := mods \<rparr>))"
  by (simp add: resolve_config_def Let_def modules_of_def resolved_def)

lemma resolve_all:
  "res_map (resolve_module lib doc) ms = Inr mods \<longleftrightarrow>
     mods = map (\<lambda>(n, md). (n, inherit doc md)) ms \<and> (\<forall>(n, md)\<in>set ms. module_valid lib (inherit doc md))"
  by (subst res_map_map [where g = "\<lambda>(n, md). (n, inherit doc md)"
        and P = "\<lambda>(n, md). module_valid lib (inherit doc md)"])
     (auto simp: resolve_module_Inr)

lemma resolve_config_Inr:
  "resolve_config lib flag doc = Inr cfg \<longleftrightarrow>
     cfg = resolved doc flag \<and> (\<forall>(n, md)\<in>set (modules_of doc). module_valid lib (inherit doc md))"
  by (auto simp: resolve_config_map res_bind_eq_Inr resolve_all resolved_def)

lemma loadRawConfig_decoded: "decodes fs path doc \<Longrightarrow> loadRawConfig fs lib path flag = resolve_config lib flag doc"
  by (auto simp: loadRawConfig_def decodes_def split: option.splits)

lemma loadRawConfig_Inr:
  "loadRawConfig fs lib path flag = Inr cfg \<longleftrightarrow>
     (\<exists>doc. decodes fs path doc \<and> resolve_config lib flag doc = Inr cfg)"
  by (force simp: loadRawConfig_def decodes_def split: sum.splits prod.splits option.splits if_splits)

text \<open>Every module of an accepted configuration can be probed: it has a known_hosts file, its
  allowed ports are a non-empty list of port numbers with the default port among them, and all
  its algorithms are ones the SSH library implements.  There is at least one module.\<close>

theorem loadRawConfig_valid:
  assumes "loadRawConfig fs lib path flag = Inr cfg"
  shows "c_Modules cfg \<noteq> [] \<and> (\<forall>(name, md)\<in>set (c_Modules cfg). module_valid lib md)"
proof -
  from assms obtain doc where "cfg = resolved doc flag"
    and valid: "\<forall>(n, md)\<in>set (modules_of doc). module_valid lib (inherit doc md)"
    unfolding loadRawConfig_Inr resolve_config_Inr by blast
  then have mods: "c_Modules cfg = map (\<lambda>(n, md). (n, inherit doc md)) (modules_of doc)"
    by (simp add: resolved_def)
  moreover have "modules_of doc \<noteq> []" by (simp add: modules_of_def)
  ultimately show ?thesis using valid by auto
qed

definition sample_library :: ssh_library where
  "sample_library =
     \<lparr> SupportedAlgorithms = \<lparr> alg_Ciphers = [''aes128-ctr''], alg_KeyExchanges = [''curve25519-sha256''],
         alg_MACs = [''hmac-sha2-256''], alg_HostKeys = [''ssh-ed25519''] \<rparr>,
       InsecureAlgorithms = \<lparr> alg_Ciphers = [''arcfour''], alg_KeyExchanges = [],
         alg_MACs = [''hmac-sha1-96''], alg_HostKeys = [''ssh-rsa''] \<rparr> \<rparr>"

definition sample_document :: rawConfig where
  "sample_document = zero_rawConfig\<lparr> c_KnownHostsFile := ''/etc/known_hosts'', c_TargetPort := 2222,
     c_AllowedTargets := [''*.example.com''],
     c_Modules := [(''default'', zero_rawConfigModule),
       (''legacy'', zero_rawConfigModule\<lparr> m_AllowedPorts := Some [22, 2222], m_TargetPort := 22,
          m_Ciphers := [''arcfour''] \<rparr>)] \<rparr>"

definition sample_files :: files where
  "sample_files = \<lparr> ReadFile = (\<lambda>path. if path = ''c.yml'' then Inr ''doc'' else Inl (Err (OtherError ''ENOENT'' None) [])),
     Decode = (\<lambda>data. if data = ''doc'' then (sample_document, None) else (zero_rawConfig, Some (Err EOF []))) \<rparr>"

lemma sample_valid:
  "\<forall>(n, md)\<in>set (modules_of sample_document). module_valid sample_library (inherit sample_document md)"
  by (simp add: modules_of_def sample_document_def zero_rawConfig_def zero_rawConfigModule_def module_valid_def
      known_hosts_of_def ports_of_def target_port_of_def knownCiphers_def algorithmSet_Union sample_library_def)

lemma sample_resolve: "resolve_config sample_library flag sample_document = Inr (resolved sample_document flag)"
  using sample_valid by (simp add: resolve_config_Inr)

lemma sample_document_decodes: "decodes sample_files ''c.yml'' sample_document"
  by (simp add: decodes_def sample_files_def)

lemma sample_load:
  "loadRawConfig sample_files sample_library ''c.yml'' flag = Inr (resolved sample_document flag)"
  by (simp only: loadRawConfig_decoded [OF sample_document_decodes] sample_resolve)

theorem loadRawConfig_valid_witness:
  "module_valid sample_library (inherit sample_document zero_rawConfigModule)"
proof -
  have "(''default'', inherit sample_document zero_rawConfigModule) \<in> set (c_Modules (resolved sample_document True))"
    by (simp add: resolved_def modules_of_def sample_document_def)
  with loadRawConfig_valid [OF sample_load] show ?thesis by blast
qed

lemma map_of_inherit:
  "map_of (map (\<lambda>(n, md). (n, inherit doc md)) ms) name = map_option (inherit doc) (map_of ms name)"
  by (induction ms) auto

lemma resolve_config_Inl:
  assumes "resolve_config lib flag doc = Inl e"
  shows "\<exists>name md e'. (name, md) \<in> set (modules_of doc) \<and> e = InModule name e' \<and>
    check_module lib (inherit doc md) = Some e'"
proof -
  from assms have "res_map (resolve_module lib doc) (modules_of doc) = Inl e"
    by (cases "res_map (resolve_module lib doc) (modules_of doc)") (simp_all add: resolve_config_map)
  from res_map_first_error [OF this] obtain x where "x \<in> set (modules_of doc)" and "resolve_module lib doc x = Inl e"
    by (metis in_set_conv_decomp)
  then show ?thesis by (auto simp: resolve_module_def Let_def split: prod.splits option.splits)
qed

text \<open>C19.  A document that decodes, or is empty, is loaded exactly when all its modules are valid
  after defaulting; otherwise the error names one module and the first check it fails.  The
  result has the same modules with every setting resolved in the documented order: the module's
  own value, else the top level's, else the default (port 22; allowed ports the target port
  alone).  An explicit empty list of allowed ports is not overridden by the top level, comment
  stripping cannot be switched off by a module, and the flag for all targets is dropped when
  there is a top-level list.\<close>

theorem loadRawConfig_resolves:
  assumes "decodes fs path doc"
  shows "case loadRawConfig fs lib path flag of
      Inl e \<Rightarrow> \<exists>name md e'. (name, md) \<in> set (modules_of doc) \<and> e = InModule name e' \<and>
        check_module lib (inherit doc md) = Some e' \<and> \<not> module_valid lib (inherit doc md)
    | Inr cfg \<Rightarrow>
        c_allowAllTargets cfg = (flag \<and> c_AllowedTargets doc = []) \<and>
        map fst (c_Modules cfg) = map fst (modules_of doc) \<and>
        (\<forall>name md. map_of (modules_of doc) name = Some md \<longrightarrow>
          (\<exists>md'. map_of (c_Modules cfg) name = Some md' \<and> module_valid lib md' \<and>
             m_KnownHostsFile md' = known_hosts_of doc md \<and> m_TargetPort md' = target_port_of doc md \<and>
             m_AllowedPorts md' = Some (ports_of doc md) \<and> m_AllowedTargets md' = targets_of doc md \<and>
             m_StripServerIdentificationComments md' =
               (m_StripServerIdentificationComments md \<or> c_StripServerIdentificationComments doc)))"
proof (cases "loadRawConfig fs lib path flag")
  case (Inl e)
  with resolve_config_Inl [of lib flag doc e] loadRawConfig_decoded [OF assms] show ?thesis
    by (fastforce simp: check_module_None [symmetric])
next
  case (Inr cfg)
  then have "resolve_config lib flag doc = Inr cfg" using loadRawConfig_decoded [OF assms] by simp
  then have cfg: "cfg = resolved doc flag"
    and valid: "\<forall>(n, md)\<in>set (modules_of doc). module_valid lib (inherit doc md)"
    by (simp_all add: resolve_config_Inr)
  have "map fst (c_Modules cfg) = map fst (modules_of doc)" by (simp add: cfg resolved_def case_prod_beta)
  with Inr cfg valid show ?thesis
    by (auto simp: resolved_def map_of_inherit dest: map_of_SomeD)
qed

theorem loadRawConfig_resolves_witness:
  "\<exists>md'. map_of (c_Modules (resolved sample_document True)) ''default'' = Some md' \<and>
     m_TargetPort md' = 2222 \<and> m_AllowedPorts md' = Some [2222]"
proof -
  from loadRawConfig_resolves [OF sample_document_decodes, of sample_library True]
  have all: "\<forall>name md. map_of (modules_of sample_document) name = Some md \<longrightarrow>
      (\<exists>md'. map_of (c_Modules (resolved sample_document True)) name = Some md' \<and>
         m_TargetPort md' = target_port_of sample_document md \<and>
         m_AllowedPorts md' = Some (ports_of sample_document md))"
    unfolding sample_load by auto
  have "map_of (modules_of sample_document) ''default'' = Some zero_rawConfigModule"
    and "target_port_of sample_document zero_rawConfigModule = 2222"
    and "ports_of sample_document zero_rawConfigModule = [2222]" by code_simp+
  with all [rule_format, of "''default''" zero_rawConfigModule] show ?thesis by simp
qed

text \<open>C38.  The order in which the loop over the modules visits them does not matter: for the same
  modules in another order loading succeeds or fails alike, and yields the same modules.\<close>

theorem resolve_config_order:
  assumes "set ms = set (c_Modules doc)" and "distinct (map fst (c_Modules doc))" and "distinct (map fst ms)"
  shows "case (resolve_config lib flag doc, resolve_config lib flag (doc\<lparr> c_Modules := ms \<rparr>)) of
      (Inl _, Inl _) \<Rightarrow> True
    | (Inr cfg, Inr cfg') \<Rightarrow> map_of (c_Modules cfg) = map_of (c_Modules cfg') \<and>
        cfg\<lparr> c_Modules := [] \<rparr> = cfg'\<lparr> c_Modules := [] \<rparr>
    | _ \<Rightarrow> False"
proof -
  let ?doc = "doc\<lparr> c_Modules := ms \<rparr>"
  have "ms = [] \<longleftrightarrow> c_Modules doc = []" using assms(1) by (metis set_empty)
  then have set_eq: "set (modules_of ?doc) = set (modules_of doc)"
    by (simp add: modules_of_def assms(1))
  have ok: "(\<exists>c. resolve_config lib flag doc = Inr c) \<longleftrightarrow> (\<exists>c. resolve_config lib flag ?doc = Inr c)"
    by (simp add: resolve_config_Inr set_eq)
  have "map_of (modules_of ?doc) = map_of (modules_of doc)"
    using assms(2,3) set_eq by (intro map_of_inject_set [THEN iffD2]) (auto simp: modules_of_def)
  then have same: "map_of (c_Modules (resolved doc flag)) = map_of (c_Modules (resolved ?doc flag)) \<and>
      (resolved doc flag)\<lparr> c_Modules := [] \<rparr> = (resolved ?doc flag)\<lparr> c_Modules := [] \<rparr>"
    by (auto simp: resolved_def map_of_inherit fun_eq_iff)
  show ?thesis
  proof (cases "resolve_config lib flag doc")
    case (Inl e)
    with ok obtain e' where "resolve_config lib flag ?doc = Inl e'"
      by (cases "resolve_config lib flag ?doc") auto
    with Inl show ?thesis by simp
  next
    case (Inr cfg)
    with ok obtain cfg' where "resolve_config lib flag ?doc = Inr cfg'" by auto
    moreover from this Inr have "cfg = resolved doc flag" "cfg' = resolved ?doc flag"
      by (simp_all add: resolve_config_Inr)
    ultimately show ?thesis using Inr same by simp
  qed
qed

theorem resolve_config_order_witness:
  "\<exists>cfg. resolve_config sample_library True (sample_document\<lparr> c_Modules := rev (c_Modules sample_document) \<rparr>) = Inr cfg"
proof -
  note sample_resolve [of True]
  moreover have "distinct (map fst (c_Modules sample_document))" by code_simp
  ultimately show ?thesis
    using resolve_config_order [of "rev (c_Modules sample_document)" sample_document sample_library True]
    by (auto simp: rev_map [symmetric] split: sum.splits)
qed

text \<open>A configuration with unknown algorithm names is refused with all of them, in order, so
  that it can be fixed in one pass.\<close>

theorem unknown_algorithms_all_reported:
  assumes "resolve_config lib flag doc = Inl (InModule name (UnknownAlgorithms kind unknown))"
  shows "unknown \<noteq> [] \<and> (\<exists>md. (name, md) \<in> set (modules_of doc) \<and>
    (kind, unknown) \<in>
      {(''ciphers'', filter (\<lambda>a. a \<notin> knownCiphers lib) (m_Ciphers md)),
       (''kex algorithms'', filter (\<lambda>a. a \<notin> knownKeyExchanges lib) (m_KeyExchanges md)),
       (''macs'', filter (\<lambda>a. a \<notin> knownMACs lib) (m_MACs md)),
       (''host key algorithms'', filter (\<lambda>a. a \<notin> knownHostKeyAlgorithms lib) (m_HostKeyAlgorithms md))})"
proof -
  from resolve_config_Inl [OF assms] obtain md where "(name, md) \<in> set (modules_of doc)"
    and "check_module lib (inherit doc md) = Some (UnknownAlgorithms kind unknown)" by auto
  then show ?thesis
    by (auto simp: check_module_def Let_def validateAlgorithms_def split: option.splits if_splits)
qed

theorem unknown_algorithms_all_reported_witness:
  "[''x'', ''y''] \<noteq> ([] :: string list) \<and>
   resolve_config sample_library False
     (sample_document\<lparr> c_Modules := [(''m'', zero_rawConfigModule\<lparr> m_MACs := [''x'', ''hmac-sha2-256'', ''y''] \<rparr>)] \<rparr>) =
     Inl (InModule ''m'' (UnknownAlgorithms ''macs'' [''x'', ''y'']))"
proof -
  have r: "resolve_config sample_library False
     (sample_document\<lparr> c_Modules := [(''m'', zero_rawConfigModule\<lparr> m_MACs := [''x'', ''hmac-sha2-256'', ''y''] \<rparr>)] \<rparr>) =
     Inl (InModule ''m'' (UnknownAlgorithms ''macs'' [''x'', ''y'']))"
    by code_simp
  from unknown_algorithms_all_reported [OF this] r show ?thesis by blast
qed

end
