(* ===== verification/Identification.thy ===== *)
theory Identification
  imports Prelude
begin

text \<open>
  The server's identification string (RFC 4253, section 4.2) as \<^verbatim>\<open>internal/probe/probe.go\<close>
  handles it: the \<^verbatim>\<open>identificationWatcher\<close> that picks the string out of the bytes read from
  the connection, and \<^verbatim>\<open>parseServerIdentification\<close> that splits it.  The watcher is a record
  and its methods return the updated one; the clock is read by \<^verbatim>\<open>scan\<close> at most once per call,
  so the time is an argument.
\<close>

section \<open>The watcher\<close>

record identificationWatcher =
  line :: bytes
  identification :: bytes
  received :: "int option"

definition new_watcher :: identificationWatcher where
  "new_watcher = \<lparr> line = [], identification = [], received = None \<rparr>"

definition maxIdentificationLen :: nat where
  "maxIdentificationLen = 255"

fun scan :: "int \<Rightarrow> identificationWatcher \<Rightarrow> bytes \<Rightarrow> identificationWatcher" where
  "scan now w [] = w"
| "scan now w (c # cs) =
     (if c = CHR 0x0A then
        (if HasPrefix (line w) ''SSH-'' then
           w\<lparr> identification := TrimSuffix (line w) [CHR 0x0D], received := Some now \<rparr>
         else scan now (w\<lparr> line := [] \<rparr>) cs)
      else if length (line w) < maxIdentificationLen + 2 then
        scan now (w\<lparr> line := line w @ [c] \<rparr>) cs
      else scan now w cs)"

text \<open>\<open>Read\<close> is the effect of the watcher's \<^verbatim>\<open>Read\<close> on the bytes the connection delivered.\<close>

definition Read :: "int \<Rightarrow> bytes \<Rightarrow> identificationWatcher \<Rightarrow> identificationWatcher" where
  "Read now p w = (if received w = None then scan now w p else w)"

fun Reads :: "(int \<times> bytes) list \<Rightarrow> identificationWatcher \<Rightarrow> identificationWatcher" where
  "Reads [] w = w"
| "Reads ((now, p) # rs) w = Reads rs (Read now p w)"

section \<open>Parsing the string\<close>

record ServerIdentification =
  String :: string
  ProtoVersion :: string
  SoftwareVersion :: string
  Comments :: string
  RFCConformant :: bool

definition zero_ServerIdentification :: ServerIdentification where
  "zero_ServerIdentification =
     \<lparr> String = [], ProtoVersion = [], SoftwareVersion = [], Comments = [], RFCConformant = False \<rparr>"

datatype ident_error = IdentTooLong | IdentBadProto | IdentNotPrintable | IdentNoSoftware

fun cut_proto :: "bytes \<Rightarrow> string list \<Rightarrow> (string \<times> bytes) option" where
  "cut_proto raw [] = None"
| "cut_proto raw (v # vs) =
     (case CutPrefix raw (''SSH-'' @ v @ ''-'') of Some r \<Rightarrow> Some (v, r) | None \<Rightarrow> cut_proto raw vs)"

definition parseServerIdentification :: "bytes \<Rightarrow> ident_error + ServerIdentification" where
  "parseServerIdentification raw =
     (if length raw > maxIdentificationLen then Inl IdentTooLong
      else
        (case cut_proto raw [''2.0'', ''1.99''] of
           None \<Rightarrow> Inl IdentBadProto
         | Some (proto, rest) \<Rightarrow>
             if list_ex (\<lambda>c. \<not> is_printable c) rest then Inl IdentNotPrintable
             else
               let (software, comments) = CutByte rest (CHR '' '') in
               if software = [] then Inl IdentNoSoftware
               else Inr \<lparr> String = raw, ProtoVersion = proto, SoftwareVersion = software,
                          Comments = comments,
                          RFCConformant = (length raw \<le> maxIdentificationLen - 2 \<and>
                            \<not> ContainsByte software (CHR ''-'')) \<rparr>))"

definition withoutComments :: "ServerIdentification \<Rightarrow> ServerIdentification" where
  "withoutComments s =
     s\<lparr> String := ''SSH-'' @ ProtoVersion s @ ''-'' @ SoftwareVersion s, Comments := [] \<rparr>"

section \<open>The watcher finds the first line that starts with SSH-\<close>

text \<open>
  The reference: cut the stream into lines and take the first that starts with \<^verbatim>\<open>SSH-\<close>.
\<close>

function ident_line :: "bytes \<Rightarrow> bytes option" where
  "ident_line s =
     (if CHR 0x0A \<in> set s then
        let (l, r) = CutByte s (CHR 0x0A)
        in if HasPrefix l ''SSH-'' then Some l else ident_line r
      else None)"
  by pat_completeness auto
termination
proof (relation "measure length")
  fix s x l r
  assume nl: "CHR 0x0A \<in> set s" and "x = CutByte s (CHR 0x0A)" and "(l, r) = x"
  then have "CutByte s (CHR 0x0A) = (l, r)" by simp
  with nl have "s = l @ CHR 0x0A # r" by (simp add: CutByte_in)
  then show "(r, s) \<in> measure length" by simp
qed simp

declare ident_line.simps [simp del]

definition cap :: "bytes \<Rightarrow> bytes" where
  "cap l = take (maxIdentificationLen + 2) l"

lemma ident_line_cons:
  assumes "CHR 0x0A \<notin> set l"
  shows "ident_line (l @ CHR 0x0A # r) = (if HasPrefix l ''SSH-'' then Some l else ident_line r)"
  using assms by (subst ident_line.simps) simp

lemma ident_line_none: "CHR 0x0A \<notin> set s \<Longrightarrow> ident_line s = None"
  by (subst ident_line.simps) simp

lemma cap_snoc:
  "cap (l @ [c]) = (if length (cap l) < maxIdentificationLen + 2 then cap l @ [c] else cap l)"
  by (auto simp: cap_def)

lemma HasPrefix_cap: "HasPrefix (cap l) ''SSH-'' \<longleftrightarrow> HasPrefix l ''SSH-''"
  by (simp add: HasPrefix_def cap_def maxIdentificationLen_def min_def)

text \<open>What has been read of the line that is still open.\<close>

definition tail_line :: "bytes \<Rightarrow> bytes" where
  "tail_line s = rev (takeWhile (\<lambda>c. c \<noteq> CHR 0x0A) (rev s))"

lemma tail_line_open: "CHR 0x0A \<notin> set s \<Longrightarrow> tail_line s = s"
  by (simp add: tail_line_def while_neq)

lemma tail_line_nl: "tail_line (l @ CHR 0x0A # r) = tail_line r"
proof (cases "CHR 0x0A \<in> set r")
  case True
  then show ?thesis by (simp add: tail_line_def takeWhile_append1 [where x = "CHR 0x0A"])
next
  case False
  then show ?thesis by (simp add: tail_line_def while_neq)
qed

lemma tail_line_append_open: "CHR 0x0A \<notin> set p \<Longrightarrow> tail_line (s @ p) = tail_line s @ p"
proof (cases "CHR 0x0A \<in> set s")
  case True
  assume p: "CHR 0x0A \<notin> set p"
  obtain a b where "s = a @ CHR 0x0A # b" and "CHR 0x0A \<notin> set b"
    using True by (metis split_list_last)
  with p show ?thesis by (simp add: tail_line_nl tail_line_open)
qed (simp add: tail_line_open)

lemma tail_line_no_nl: "CHR 0x0A \<notin> set (tail_line s)"
  by (auto simp: tail_line_def dest: set_takeWhileD)

lemma ident_line_append_Some: "ident_line s = Some x \<Longrightarrow> ident_line (s @ t) = Some x"
proof (induction s rule: ident_line.induct)
  case (1 s)
  then have nl: "CHR 0x0A \<in> set s" using ident_line_none by fastforce
  then obtain l r where s: "s = l @ CHR 0x0A # r" and l: "CHR 0x0A \<notin> set l"
    by (metis split_list_first)
  then have c: "CutByte s (CHR 0x0A) = (l, r)" by simp
  show ?case
    using "1.prems" "1.IH" [OF nl c [symmetric] refl] s l by (auto simp: ident_line_cons split: if_splits)
qed

lemma ident_line_append_None: "ident_line s = None \<Longrightarrow> ident_line (s @ t) = ident_line (tail_line s @ t)"
proof (induction s rule: ident_line.induct)
  case (1 s)
  show ?case
  proof (cases "CHR 0x0A \<in> set s")
    case False
    then show ?thesis by (simp add: tail_line_open)
  next
    case True
    then obtain l r where s: "s = l @ CHR 0x0A # r" and l: "CHR 0x0A \<notin> set l"
      by (metis split_list_first)
    then have c: "CutByte s (CHR 0x0A) = (l, r)" by simp
    show ?thesis
      using "1.prems" "1.IH" [OF True c [symmetric] refl] s l
      by (auto simp: ident_line_cons tail_line_nl split: if_splits)
  qed
qed

text \<open>
  One pass of \<open>scan\<close> against the reference, with a partial line \<open>l\<close> already read.
\<close>

definition watched :: "int \<Rightarrow> identificationWatcher \<Rightarrow> bytes \<Rightarrow> identificationWatcher \<Rightarrow> bool" where
  "watched now w s w' \<longleftrightarrow>
     (case ident_line s of
        None \<Rightarrow> w' = w\<lparr> line := cap (tail_line s) \<rparr>
      | Some x \<Rightarrow> identification w' = TrimSuffix (cap x) [CHR 0x0D] \<and> received w' = Some now)"

lemma scan_watched:
  "line w = cap l \<Longrightarrow> CHR 0x0A \<notin> set l \<Longrightarrow> watched now w (l @ s) (scan now w s)"
proof (induction s arbitrary: w l)
  case Nil
  then show ?case by (simp add: watched_def ident_line_none tail_line_open)
next
  case (Cons c cs)
  show ?case
  proof (cases "c = CHR 0x0A")
    case True
    have "watched now (w\<lparr> line := [] \<rparr>) ([] @ cs) (scan now (w\<lparr> line := [] \<rparr>) cs)"
      by (rule Cons.IH) (simp_all add: cap_def)
    with True Cons.prems show ?thesis
      by (auto simp: watched_def ident_line_cons tail_line_nl HasPrefix_cap split: option.splits)
  next
    case False
    have "watched now v ((l @ [c]) @ cs) (scan now v cs)" if "line v = cap (l @ [c])" for v
      by (rule Cons.IH) (use that Cons.prems False in auto)
    from this [of w] this [of "w\<lparr> line := line w @ [c] \<rparr>"] False Cons.prems show ?thesis
      by (auto simp: watched_def cap_snoc split: option.splits)
  qed
qed

lemma Read_watched:
  assumes "received w = None" and "line w = cap (tail_line s)" and "ident_line s = None"
  shows "watched now w (s @ p) (Read now p w)"
proof -
  have "watched now w (tail_line s @ p) (scan now w p)"
    by (rule scan_watched) (simp_all add: assms tail_line_no_nl)
  moreover have "tail_line (s @ p) = tail_line (tail_line s @ p)"
  proof (cases "CHR 0x0A \<in> set p")
    case True
    then show ?thesis by (metis append_assoc split_list tail_line_nl)
  next
    case False
    then show ?thesis by (simp add: tail_line_append_open tail_line_open tail_line_no_nl)
  qed
  ultimately show ?thesis
    using assms ident_line_append_None [of s p]
    by (simp add: watched_def Read_def split: option.splits)
qed

lemma Reads_done: "received w \<noteq> None \<Longrightarrow> Reads rs w = w"
  by (induction rs) (auto simp: Read_def)

lemma Reads_watched:
  assumes "received w = None" and "line w = cap (tail_line s)" and "ident_line s = None"
  shows "case ident_line (s @ concat (map snd rs)) of
      None \<Rightarrow> received (Reads rs w) = None
    | Some x \<Rightarrow> identification (Reads rs w) = TrimSuffix (cap x) [CHR 0x0D] \<and>
        (\<exists>before now p after. rs = before @ (now, p) # after \<and> received (Reads rs w) = Some now \<and>
           ident_line (s @ concat (map snd before)) = None \<and>
           ident_line (s @ concat (map snd before) @ p) = Some x)"
  using assms
proof (induction rs arbitrary: w s)
  case Nil
  then show ?case by simp
next
  case (Cons r rs)
  obtain now p where r: "r = (now, p)" by (cases r)
  have w: "watched now w (s @ p) (Read now p w)" using Cons.prems by (rule Read_watched)
  show ?case
  proof (cases "ident_line (s @ p)")
    case None
    with w have "Read now p w = w\<lparr> line := cap (tail_line (s @ p)) \<rparr>" by (simp add: watched_def)
    then have IH: "case ident_line ((s @ p) @ concat (map snd rs)) of
        None \<Rightarrow> received (Reads rs (Read now p w)) = None
      | Some x \<Rightarrow> identification (Reads rs (Read now p w)) = TrimSuffix (cap x) [CHR 0x0D] \<and>
          (\<exists>before now' p' after. rs = before @ (now', p') # after \<and>
             received (Reads rs (Read now p w)) = Some now' \<and>
             ident_line ((s @ p) @ concat (map snd before)) = None \<and>
             ident_line ((s @ p) @ concat (map snd before) @ p') = Some x)"
      using Cons.prems(1) None by (intro Cons.IH) simp_all
    show ?thesis
    proof (cases "ident_line ((s @ p) @ concat (map snd rs))")
      case (Some x)
      with IH obtain before now' p' after where "rs = before @ (now', p') # after"
        "received (Reads rs (Read now p w)) = Some now'"
        "ident_line ((s @ p) @ concat (map snd before)) = None"
        "ident_line ((s @ p) @ concat (map snd before) @ p') = Some x"
        by auto
      then have "\<exists>before now' p' after. r # rs = before @ (now', p') # after \<and>
          received (Reads (r # rs) w) = Some now' \<and>
          ident_line (s @ concat (map snd before)) = None \<and>
          ident_line (s @ concat (map snd before) @ p') = Some x"
        using r by (intro exI [of _ "r # before"] exI [of _ now'] exI [of _ p'] exI [of _ after]) simp
      with Some IH r show ?thesis by simp
    qed (use IH r in simp)
  next
    case (Some x)
    then have "ident_line (s @ p @ concat (map snd rs)) = Some x"
      using ident_line_append_Some [of "s @ p"] by simp
    moreover from w Some have rd: "identification (Read now p w) = TrimSuffix (cap x) [CHR 0x0D]"
        "received (Read now p w) = Some now"
      by (simp_all add: watched_def)
    moreover from rd have "Reads rs (Read now p w) = Read now p w" by (simp add: Reads_done)
    moreover have "\<exists>before now' p' after. r # rs = before @ (now', p') # after \<and> Some now = Some now' \<and>
        ident_line (s @ concat (map snd before)) = None \<and>
        ident_line (s @ concat (map snd before) @ p') = Some x"
      using Some Cons.prems(3) r
      by (intro exI [of _ "[]"] exI [of _ now] exI [of _ p] exI [of _ rs]) simp
    ultimately show ?thesis using r by simp
  qed
qed

text \<open>
  The cap on the line buffer is invisible to the parser: what it cuts off would have been
  rejected for its length anyway.
\<close>

lemma parse_capped:
  "parseServerIdentification (TrimSuffix (cap x) [CHR 0x0D]) =
     parseServerIdentification (TrimSuffix x [CHR 0x0D])"
proof (cases "length x \<le> maxIdentificationLen + 2")
  case True
  then show ?thesis by (simp add: cap_def)
next
  case False
  then have "length (TrimSuffix (cap x) [CHR 0x0D]) > maxIdentificationLen"
    and "length (TrimSuffix x [CHR 0x0D]) > maxIdentificationLen"
    by (auto simp: TrimSuffix_def cap_def)
  then show ?thesis by (simp add: parseServerIdentification_def)
qed

lemma Reads_new:
  "case ident_line (concat (map snd rs)) of
     None \<Rightarrow> received (Reads rs new_watcher) = None
   | Some x \<Rightarrow> identification (Reads rs new_watcher) = TrimSuffix (cap x) [CHR 0x0D] \<and>
       (\<exists>before now p after. rs = before @ (now, p) # after \<and>
          received (Reads rs new_watcher) = Some now \<and>
          ident_line (concat (map snd before)) = None \<and>
          ident_line (concat (map snd before) @ p) = Some x)"
proof -
  have "received new_watcher = None" and "line new_watcher = cap (tail_line [])" and "ident_line [] = None"
    by (simp_all add: new_watcher_def cap_def tail_line_def ident_line_none)
  from Reads_watched [OF this, of rs] show ?thesis by (simp split: option.splits)
qed

lemma received_Reads: "received (Reads rs new_watcher) \<noteq> None \<longleftrightarrow> ident_line (concat (map snd rs)) \<noteq> None"
  using Reads_new [of rs] by (auto split: option.splits)

lemma received_Reads_time: "received (Reads rs new_watcher) = Some t \<Longrightarrow> t \<in> fst ` set rs"
  using Reads_new [of rs] by (force split: option.splits)

lemma parse_Reads:
  "ident_line (concat (map snd rs)) = Some x \<Longrightarrow>
     parseServerIdentification (identification (Reads rs new_watcher)) =
       parseServerIdentification (TrimSuffix x [CHR 0x0D])"
  using Reads_new [of rs] by (simp add: parse_capped)

text \<open>C20.  However the server's bytes are split over reads, the watcher reports an identification
  string exactly when some complete line starts with \<^verbatim>\<open>SSH-\<close>; what it hands to the parser
  parses like the first such line without its carriage return; and the time it records is
  that of the read that completed the line.\<close>

theorem watcher_finds_identification:
  "case ident_line (concat (map snd rs)) of
     None \<Rightarrow> received (Reads rs new_watcher) = None
   | Some x \<Rightarrow>
       parseServerIdentification (identification (Reads rs new_watcher)) =
         parseServerIdentification (TrimSuffix x [CHR 0x0D]) \<and>
       (\<exists>before now p after. rs = before @ (now, p) # after \<and>
          received (Reads rs new_watcher) = Some now \<and>
          ident_line (concat (map snd before)) = None \<and>
          ident_line (concat (map snd before) @ p) = Some x)"
  using Reads_new [of rs] by (simp add: parse_capped split: option.splits)

section \<open>The grammar the parser accepts, and that of RFC 4253, section 4.2\<close>

definition ident_grammar :: "bytes \<Rightarrow> ServerIdentification \<Rightarrow> bool" where
  "ident_grammar raw s \<longleftrightarrow>
     (\<exists>sp. raw = ''SSH-'' @ ProtoVersion s @ ''-'' @ SoftwareVersion s @ sp \<and>
        (sp = [] \<and> Comments s = [] \<or> sp = CHR '' '' # Comments s) \<and>
        list_all is_printable (SoftwareVersion s @ sp)) \<and>
     length raw \<le> 255 \<and> (ProtoVersion s = ''2.0'' \<or> ProtoVersion s = ''1.99'') \<and>
     SoftwareVersion s \<noteq> [] \<and> CHR '' '' \<notin> set (SoftwareVersion s) \<and> String s = raw \<and>
     (RFCConformant s \<longleftrightarrow> length raw \<le> 253 \<and> CHR ''-'' \<notin> set (SoftwareVersion s))"

lemma cut_proto_iff:
  "cut_proto raw [''2.0'', ''1.99''] = Some (v, r) \<longleftrightarrow>
     raw = ''SSH-'' @ v @ ''-'' @ r \<and> (v = ''2.0'' \<or> v = ''1.99'')"
  by (auto simp: CutPrefix_eq_Some CutPrefix_eq_None prefix_def split: option.splits)

lemma parse_sound:
  assumes "parseServerIdentification raw = Inr s"
  shows "ident_grammar raw s"
proof -
  obtain v r software comments where len: "length raw \<le> 255"
    and cut: "cut_proto raw [''2.0'', ''1.99''] = Some (v, r)"
    and pr: "list_all is_printable r" and sc: "CutByte r (CHR '' '') = (software, comments)"
    and ne: "software \<noteq> []"
    and s: "s = \<lparr> String = raw, ProtoVersion = v, SoftwareVersion = software, Comments = comments,
      RFCConformant = (length raw \<le> 253 \<and> CHR ''-'' \<notin> set software) \<rparr>"
    using assms
    by (auto simp: parseServerIdentification_def maxIdentificationLen_def Let_def list.pred_set
        list_ex_iff simp del: cut_proto.simps split: if_splits option.splits prod.splits)
  show ?thesis
  proof (cases "CHR '' '' \<in> set r")
    case True
    with sc have "r = software @ CHR '' '' # comments \<and> CHR '' '' \<notin> set software"
      by (simp add: CutByte_in)
    with len cut pr ne s show ?thesis
      by (auto simp: ident_grammar_def cut_proto_iff simp del: cut_proto.simps)
  next
    case False
    with sc have "software = r" and "comments = []" by auto
    with False len cut pr ne s show ?thesis
      by (auto simp: ident_grammar_def cut_proto_iff simp del: cut_proto.simps)
  qed
qed

lemma parse_complete:
  assumes "ident_grammar raw s"
  shows "parseServerIdentification raw = Inr s"
proof -
  obtain sp where raw: "raw = ''SSH-'' @ ProtoVersion s @ ''-'' @ SoftwareVersion s @ sp"
    and sp: "sp = [] \<and> Comments s = [] \<or> sp = CHR '' '' # Comments s"
    and pr: "list_all is_printable (SoftwareVersion s @ sp)"
    using assms by (auto simp: ident_grammar_def)
  have cut: "cut_proto raw [''2.0'', ''1.99''] = Some (ProtoVersion s, SoftwareVersion s @ sp)"
    using assms raw unfolding cut_proto_iff by (simp add: ident_grammar_def)
  have "CutByte (SoftwareVersion s @ sp) (CHR '' '') = (SoftwareVersion s, Comments s)"
    using assms sp by (auto simp: ident_grammar_def)
  with cut pr assms show ?thesis
    by (cases s) (auto simp: parseServerIdentification_def maxIdentificationLen_def ident_grammar_def
        list.pred_set list_ex_iff Let_def simp del: cut_proto.simps)
qed

text \<open>
  The identification string of RFC 4253, section 4.2, without its CR LF: at most 255 bytes with
  them; a protocol and a software version of printable ASCII without white space and minus sign;
  comments after a space; no NUL, CR or LF.
\<close>

definition rfc_version :: "string \<Rightarrow> bool" where
  "rfc_version v \<longleftrightarrow> v \<noteq> [] \<and> list_all (\<lambda>c. is_printable c \<and> c \<noteq> CHR '' '' \<and> c \<noteq> CHR ''-'') v"

definition rfc_identification :: "bytes \<Rightarrow> bool" where
  "rfc_identification raw \<longleftrightarrow>
     (\<exists>proto software comments.
        raw \<in> {''SSH-'' @ proto @ ''-'' @ software, ''SSH-'' @ proto @ ''-'' @ software @ '' '' @ comments} \<and>
        rfc_version proto \<and> rfc_version software) \<and>
     length (raw @ [CHR 0x0D, CHR 0x0A]) \<le> 255 \<and> set raw \<inter> {CHR 0x00, CHR 0x0D, CHR 0x0A} = {}"

lemma rfc_version_no: "rfc_version v \<Longrightarrow> CHR ''-'' \<notin> set v \<and> CHR '' '' \<notin> set v \<and> list_all is_printable v"
  by (auto simp: rfc_version_def list.pred_set)

lemma printable_controls: "list_all is_printable raw \<Longrightarrow> set raw \<inter> {CHR 0x00, CHR 0x0D, CHR 0x0A} = {}"
  by (auto simp: list.pred_set is_printable_def byte_def)

lemma printable_heads: "list_all is_printable ''SSH-''" "list_all is_printable ''-''"
  "rfc_version ''2.0''" "rfc_version ''1.99''"
  by (simp_all add: rfc_version_def is_printable_def byte_def)

lemma proto_unique:
  assumes "''SSH-'' @ proto @ ''-'' @ r = ''SSH-'' @ v @ ''-'' @ r'" and "CHR ''-'' \<notin> set proto" and "CHR ''-'' \<notin> set v"
  shows "proto = v \<and> r = r'"
proof -
  have "proto @ CHR ''-'' # r = v @ CHR ''-'' # r'" using assms(1) by simp
  with assms(2,3) show ?thesis by (metis CutByte_append prod.inject)
qed

lemma conformant_rfc:
  assumes "ident_grammar raw s" and "RFCConformant s"
  shows "rfc_identification raw \<and> list_all is_printable raw"
proof -
  from assms(1) obtain sp where raw: "raw = ''SSH-'' @ ProtoVersion s @ ''-'' @ SoftwareVersion s @ sp"
    and sp: "sp = [] \<or> sp = '' '' @ Comments s"
    and pr: "list_all is_printable (SoftwareVersion s @ sp)"
    and proto: "ProtoVersion s = ''2.0'' \<or> ProtoVersion s = ''1.99''"
    by (auto simp: ident_grammar_def)
  have version: "rfc_version (ProtoVersion s)" using proto printable_heads(3,4) by auto
  then have "list_all is_printable raw"
    using pr printable_heads(1,2) rfc_version_no [OF version] unfolding raw by simp
  moreover have "rfc_version (SoftwareVersion s)"
    using assms pr by (auto simp: ident_grammar_def rfc_version_def list.pred_set)
  moreover have "length (raw @ [CHR 0x0D, CHR 0x0A]) \<le> 255" using assms by (simp add: ident_grammar_def)
  moreover have "raw \<in> {''SSH-'' @ ProtoVersion s @ ''-'' @ SoftwareVersion s,
      ''SSH-'' @ ProtoVersion s @ ''-'' @ SoftwareVersion s @ '' '' @ Comments s}"
    using raw sp by auto
  ultimately have "(\<exists>proto software comments.
        raw \<in> {''SSH-'' @ proto @ ''-'' @ software, ''SSH-'' @ proto @ ''-'' @ software @ '' '' @ comments} \<and>
        rfc_version proto \<and> rfc_version software)"
    and "length (raw @ [CHR 0x0D, CHR 0x0A]) \<le> 255" and pr_raw: "list_all is_printable raw"
    using version by - (rule exI [of _ "ProtoVersion s"], rule exI [of _ "SoftwareVersion s"], rule exI [of _ "Comments s"],
      rule conjI, assumption, rule conjI, assumption+)
  then show ?thesis unfolding rfc_identification_def using printable_controls [OF pr_raw] by (intro conjI)
qed

lemma rfc_conformant:
  assumes "rfc_identification raw" and "list_all is_printable raw"
    and "prefix ''SSH-2.0-'' raw \<or> prefix ''SSH-1.99-'' raw"
  shows "\<exists>s. ident_grammar raw s \<and> RFCConformant s"
proof -
  from assms(1) obtain proto software comments where
    raw: "raw = ''SSH-'' @ proto @ ''-'' @ software \<or> raw = ''SSH-'' @ proto @ ''-'' @ software @ '' '' @ comments"
    and v: "rfc_version proto" "rfc_version software" and len: "length raw \<le> 253"
    by (auto simp: rfc_identification_def)
  from raw obtain tail com where tail: "raw = ''SSH-'' @ proto @ ''-'' @ software @ tail"
    and com: "tail = [] \<and> com = [] \<or> tail = CHR '' '' # com" by auto
  have "\<exists>p r. (p = ''2.0'' \<or> p = ''1.99'') \<and> raw = ''SSH-'' @ p @ ''-'' @ r"
    using assms(3)
  proof
    assume "prefix ''SSH-2.0-'' raw"
    then show ?thesis by - (rule exI [of _ "''2.0''"], auto simp: prefix_def)
  next
    assume "prefix ''SSH-1.99-'' raw"
    then show ?thesis by - (rule exI [of _ "''1.99''"], auto simp: prefix_def)
  qed
  then obtain p r where "p = ''2.0'' \<or> p = ''1.99''" and r: "raw = ''SSH-'' @ p @ ''-'' @ r" by blast
  moreover from this printable_heads(3,4) have "CHR ''-'' \<notin> set p" by auto
  ultimately have p: "proto = ''2.0'' \<or> proto = ''1.99''"
    using proto_unique [of proto "software @ tail" p r] tail rfc_version_no [OF v(1)] by auto
  let ?s = "\<lparr> String = raw, ProtoVersion = proto, SoftwareVersion = software, Comments = com, RFCConformant = True \<rparr>"
  have "ident_grammar raw ?s"
    using tail com p len v rfc_version_no [OF v(2)] assms(2)
    by (auto simp: ident_grammar_def rfc_version_def intro!: exI [of _ tail])
  then show ?thesis by (intro exI [of _ ?s]) simp
qed

text \<open>C21.  The parser accepts the strings of at most 255 bytes of the form
  \<^verbatim>\<open>SSH-protoversion-softwareversion[ SP comments]\<close> with protoversion 2.0 or 1.99, a non-empty
  software version without a space and printable ASCII after the protoversion, and returns
  those fields.  That is wider than RFC 4253, section 4.2; what it marks as conformant is exactly
  the RFC's grammar, restricted to those two protocol versions and to printable comments.\<close>

theorem parseServerIdentification_grammar:
  "(parseServerIdentification raw = Inr s \<longleftrightarrow> ident_grammar raw s) \<and>
   ((\<exists>s. parseServerIdentification raw = Inr s \<and> RFCConformant s) \<longleftrightarrow>
      rfc_identification raw \<and> list_all is_printable raw \<and> (prefix ''SSH-2.0-'' raw \<or> prefix ''SSH-1.99-'' raw))"
proof -
  have iff: "parseServerIdentification raw = Inr s \<longleftrightarrow> ident_grammar raw s" for s
    using parse_sound parse_complete by blast
  moreover have "prefix ''SSH-2.0-'' raw \<or> prefix ''SSH-1.99-'' raw" if "ident_grammar raw s" for s
    using that by (auto simp: ident_grammar_def)
  ultimately show ?thesis using conformant_rfc [of raw] rfc_conformant [of raw] by blast
qed

text \<open>The label values taken from the target.\<close>

definition ident_labels :: "ServerIdentification \<Rightarrow> string list" where
  "ident_labels s = [String s, ProtoVersion s, SoftwareVersion s, Comments s]"

lemma printable_literals: "list_all is_printable ''SSH-''" "list_all is_printable ''2.0''"
  "list_all is_printable ''1.99''" "is_printable (CHR ''-'')"
  by (simp_all add: is_printable_def byte_def)

lemma ident_labels_safe:
  assumes "ident_grammar raw s" and "l \<in> set (ident_labels s)"
  shows "list_all is_printable l \<and> length l \<le> 255"
  using assms printable_literals by (auto simp: ident_grammar_def ident_labels_def)

lemma withoutComments_grammar:
  assumes "ident_grammar raw s"
  shows "ident_grammar (String (withoutComments s))
    (withoutComments s\<lparr> RFCConformant := (length (String (withoutComments s)) \<le> 253 \<and>
       CHR ''-'' \<notin> set (SoftwareVersion s)) \<rparr>)"
  using assms by (auto simp: ident_grammar_def withoutComments_def)

text \<open>Nothing a target sends reaches a label unvalidated: every field of a parsed string, with
  the comments stripped or not, is printable ASCII of at most 255 bytes, and stripping leaves
  a string that parses to the same versions and no comments.\<close>

theorem identification_labels_validated:
  assumes "parseServerIdentification raw = Inr s"
  shows "(\<forall>l \<in> set (ident_labels s) \<union> set (ident_labels (withoutComments s)).
            list_all is_printable l \<and> length l \<le> 255) \<and>
    (\<exists>c. parseServerIdentification (String (withoutComments s)) =
            Inr (withoutComments s\<lparr> RFCConformant := c \<rparr>)) \<and>
    Comments (withoutComments s) = [] \<and> prefix (String (withoutComments s)) raw"
proof -
  have g: "ident_grammar raw s" using assms by (rule parse_sound)
  note w = withoutComments_grammar [OF g]
  have "list_all is_printable l \<and> length l \<le> 255" if "l \<in> set (ident_labels (withoutComments s))" for l
    using ident_labels_safe [OF w, of l] that by (simp add: ident_labels_def)
  moreover have "prefix (String (withoutComments s)) raw"
    using g by (auto simp: ident_grammar_def withoutComments_def)
  moreover have "Comments (withoutComments s) = []" by (simp add: withoutComments_def)
  ultimately show ?thesis using ident_labels_safe [OF g] parse_complete [OF w] by blast
qed

theorem identification_labels_validated_witness:
  "parseServerIdentification ''SSH-2.0-Foo_1.0 bar'' =
     Inr \<lparr> String = ''SSH-2.0-Foo_1.0 bar'', ProtoVersion = ''2.0'', SoftwareVersion = ''Foo_1.0'',
           Comments = ''bar'', RFCConformant = True \<rparr> \<and>
   prefix ''SSH-2.0-Foo_1.0'' ''SSH-2.0-Foo_1.0 bar''"
proof -
  have p: "parseServerIdentification ''SSH-2.0-Foo_1.0 bar'' =
     Inr \<lparr> String = ''SSH-2.0-Foo_1.0 bar'', ProtoVersion = ''2.0'', SoftwareVersion = ''Foo_1.0'',
           Comments = ''bar'', RFCConformant = True \<rparr>"
    by code_simp
  from identification_labels_validated [OF p] p show ?thesis by (simp add: withoutComments_def)
qed

end
