(* ===== verification/HostKeys.thy ===== *)
theory HostKeys
  imports Go_Errors
begin

text \<open>
  Host key verification (\<^verbatim>\<open>verifyHostKey\<close> and \<^verbatim>\<open>classifyHostKeyVerifyError\<close> of
  \<^verbatim>\<open>internal/probe/probe.go\<close>).  The known_hosts callback of \<^verbatim>\<open>golang.org/x/crypto/ssh/knownhosts\<close>
  is an argument; \<open>knownhosts_callback\<close> states what the code relies on in it, as
  \<^verbatim>\<open>TestVerifyHostKey\<close> documents.  Against that contract the decision is shown to be a policy
  on the file's contents, and compared with the policy the documentation describes.
\<close>

section \<open>Keys and the code's decision\<close>

text \<open>An \<^verbatim>\<open>ssh.PublicKey\<close>: a plain key, or a certificate over a key signed by a CA.\<close>

datatype ssh_key =
    PlainKey string
  | Certificate (cert_Key: ssh_key) (cert_SignatureKey: ssh_key) (cert_SignatureFormat: string) string

type_synonym host_key_callback = "string \<Rightarrow> string \<Rightarrow> ssh_key \<Rightarrow> gerr option"

definition caSignatureAlgorithms :: "string list" where
  "caSignatureAlgorithms =
     [''ssh-ed25519'', ''ecdsa-sha2-nistp256'', ''ecdsa-sha2-nistp384'', ''ecdsa-sha2-nistp521'',
      ''sk-ssh-ed25519@openssh.com'', ''sk-ecdsa-sha2-nistp256@openssh.com'',
      ''rsa-sha2-512'', ''rsa-sha2-256'']"

definition certificate_invalid :: "gerr \<Rightarrow> gerr" where
  "certificate_invalid certErr =
     Err (OtherError ''wrapErrors'' None) [Err errHostCertificateInvalid [], certErr]"

definition verifyHostKey :: "host_key_callback \<Rightarrow> string \<Rightarrow> string \<Rightarrow> ssh_key \<Rightarrow> gerr option" where
  "verifyHostKey cb hostname remote key =
     (let check = (\<lambda>k. cb hostname remote k) in
      case key of
        PlainKey _ \<Rightarrow> check key
      | Certificate inner ca format _ \<Rightarrow>
          let certErr =
            (case check key of
               None \<Rightarrow>
                 if format \<in> set caSignatureAlgorithms then None
                 else Some (Err (OtherError (''CA signature algorithm not allowed: '' @ format) None) [])
             | Some e \<Rightarrow> Some e)
          in
            (case certErr of
               None \<Rightarrow> None
             | Some ce \<Rightarrow>
                 let caErr = check ca in
                 if (case caErr of Some e \<Rightarrow> as_RevokedError e | None \<Rightarrow> False) then caErr
                 else
                   let plainErr = check inner in
                   if (case plainErr of Some e \<Rightarrow> as_KeyError e \<noteq> None | None \<Rightarrow> False) \<and> caErr = None
                   then Some (certificate_invalid ce)
                   else plainErr))"

definition ErrReasonServerHostKeyUnknown :: string where
  [simp]: "ErrReasonServerHostKeyUnknown = ''server_host_key_unknown''"
definition ErrReasonServerHostKeyMismatch :: string where
  [simp]: "ErrReasonServerHostKeyMismatch = ''server_host_key_mismatch''"
definition ErrReasonServerHostKeyRevoked :: string where
  [simp]: "ErrReasonServerHostKeyRevoked = ''server_host_key_revoked''"
definition ErrReasonServerHostKeyRejected :: string where
  [simp]: "ErrReasonServerHostKeyRejected = ''server_host_key_rejected''"
definition ErrReasonServerHostCertificateInvalid :: string where
  [simp]: "ErrReasonServerHostCertificateInvalid = ''server_host_certificate_invalid''"

definition classifyHostKeyVerifyError :: "gerr \<Rightarrow> string" where
  "classifyHostKeyVerifyError err =
     (if errors_Is err errHostCertificateInvalid then ErrReasonServerHostCertificateInvalid
      else
        (case as_KeyError err of
           Some want \<Rightarrow>
             if want = [] then ErrReasonServerHostKeyUnknown else ErrReasonServerHostKeyMismatch
         | None \<Rightarrow>
             if as_RevokedError err then ErrReasonServerHostKeyRevoked
             else ErrReasonServerHostKeyRejected))"

section \<open>The contract of the known_hosts callback\<close>

text \<open>
  A key passes the callback as a host key when a line for the host has it, be it a plain line
  or the line of a certificate authority; both kinds count as the host's keys below.

  What a known_hosts file says about one host: the keys listed for it, the certificate
  authorities trusted for it, and the revoked keys.  Certificates are also judged by their
  validity (type, principals, dates), here a predicate.
\<close>

record known_hosts =
  listed :: "ssh_key set"
  authorities :: "ssh_key set"
  revoked :: "ssh_key set"
  valid_cert :: "ssh_key \<Rightarrow> bool"

definition plain_answer :: "known_hosts \<Rightarrow> ssh_key \<Rightarrow> gerr option \<Rightarrow> bool" where
  "plain_answer kh k r \<longleftrightarrow>
     (if k \<in> revoked kh then r = Some (Err RevokedError [])
      else if k \<in> listed kh \<union> authorities kh then r = None
      else \<exists>want. r = Some (Err (KeyError want) []) \<and> (want = [] \<longleftrightarrow> listed kh \<union> authorities kh = {}))"

definition knownhosts_callback :: "known_hosts \<Rightarrow> string \<Rightarrow> string \<Rightarrow> host_key_callback \<Rightarrow> bool" where
  "knownhosts_callback kh hostname remote cb \<longleftrightarrow>
     (\<forall>b. plain_answer kh (PlainKey b) (cb hostname remote (PlainKey b))) \<and>
     (\<forall>k ca f x. cb hostname remote (Certificate k ca f x) = None \<longleftrightarrow>
        ca \<in> authorities kh \<and> valid_cert kh (Certificate k ca f x) \<and>
        k \<notin> revoked kh \<and> ca \<notin> revoked kh)"

section \<open>The policy of the code\<close>

text \<open>
  What the code decides, in terms of the file.  It asks the callback about keys in the role of a
  host key only, so that listed keys and authorities are not told apart.
\<close>

datatype verdict = Accept | Reject string

definition plain_policy :: "known_hosts \<Rightarrow> ssh_key \<Rightarrow> verdict" where
  "plain_policy kh k =
     (if k \<in> revoked kh then Reject ''server_host_key_revoked''
      else if k \<in> listed kh \<union> authorities kh then Accept
      else if listed kh \<union> authorities kh = {} then Reject ''server_host_key_unknown''
      else Reject ''server_host_key_mismatch'')"

definition cert_accepted :: "known_hosts \<Rightarrow> ssh_key \<Rightarrow> ssh_key \<Rightarrow> string \<Rightarrow> string \<Rightarrow> bool" where
  "cert_accepted kh k ca f x \<longleftrightarrow>
     ca \<in> authorities kh \<and> valid_cert kh (Certificate k ca f x) \<and> f \<in> set caSignatureAlgorithms"

fun policy :: "known_hosts \<Rightarrow> ssh_key \<Rightarrow> verdict" where
  "policy kh (PlainKey b) = plain_policy kh (PlainKey b)"
| "policy kh (Certificate k ca f x) =
     (if k \<in> revoked kh \<or> ca \<in> revoked kh then Reject ''server_host_key_revoked''
      else if cert_accepted kh k ca f x then Accept
      else if plain_policy kh k \<noteq> Accept \<and> ca \<in> listed kh \<union> authorities kh
        then Reject ''server_host_certificate_invalid''
      else plain_policy kh k)"

definition verdict_of :: "gerr option \<Rightarrow> verdict" where
  "verdict_of r = (case r of None \<Rightarrow> Accept | Some e \<Rightarrow> Reject (classifyHostKeyVerifyError e))"

text \<open>Certificates carry plain keys: the wire format has no nested certificates.\<close>

fun wire_key :: "ssh_key \<Rightarrow> bool" where
  "wire_key (PlainKey _) = True"
| "wire_key (Certificate k ca _ _) \<longleftrightarrow> (\<exists>b. k = PlainKey b) \<and> (\<exists>b. ca = PlainKey b)"

lemmas err_search = errors_Is_def as_KeyError_def as_RevokedError_def certificate_invalid_def

lemma verdict_plain: "plain_answer kh k r \<Longrightarrow> verdict_of r = plain_policy kh k"
  by (auto simp: plain_answer_def plain_policy_def verdict_of_def classifyHostKeyVerifyError_def
      err_search split: if_splits)

lemma verdict_certificate_invalid:
  "verdict_of (Some (certificate_invalid e)) = Reject ''server_host_certificate_invalid''"
  by (simp add: verdict_of_def classifyHostKeyVerifyError_def err_search)

lemma plain_answer_cases:
  assumes "plain_answer kh k r"
  shows "k \<in> revoked kh \<Longrightarrow> r = Some (Err RevokedError [])"
    and "k \<notin> revoked kh \<Longrightarrow> r = None \<longleftrightarrow> plain_policy kh k = Accept"
    and "k \<notin> revoked kh \<Longrightarrow> r = Some e \<Longrightarrow> as_KeyError e \<noteq> None \<and> \<not> as_RevokedError e"
  using assms by (auto simp: plain_answer_def plain_policy_def err_search split: if_splits)

lemma revoked_error [simp]: "verdict_of (Some (Err RevokedError [])) = Reject ''server_host_key_revoked''"
  "as_KeyError (Err RevokedError []) = None" "as_RevokedError (Err RevokedError [])"
  by (simp_all add: verdict_of_def classifyHostKeyVerifyError_def err_search)

lemma verify_certificate:
  assumes kc: "knownhosts_callback kh hostname remote cb"
    and pk: "plain_answer kh k (cb hostname remote k)" and pca: "plain_answer kh ca (cb hostname remote ca)"
  shows "verdict_of (verifyHostKey cb hostname remote (Certificate k ca f x)) = policy kh (Certificate k ca f x)"
proof -
  let ?check = "cb hostname remote" and ?cert = "Certificate k ca f x"
  have cert: "?check ?cert = None \<longleftrightarrow> ca \<in> authorities kh \<and> valid_cert kh ?cert \<and> k \<notin> revoked kh \<and> ca \<notin> revoked kh"
    using kc by (simp add: knownhosts_callback_def)
  show ?thesis
  proof (cases "ca \<in> revoked kh")
    case True
    with pca have "?check ca = Some (Err RevokedError [])" by (rule plain_answer_cases)
    with True cert show ?thesis
      by (auto simp: verifyHostKey_def Let_def split: option.splits)
  next
    case ca: False
    then have caNone: "?check ca = None \<longleftrightarrow> ca \<in> listed kh \<union> authorities kh"
      and caSome: "\<And>e. ?check ca = Some e \<Longrightarrow> \<not> as_RevokedError e"
      using plain_answer_cases(2,3) [OF pca] by (auto simp: plain_policy_def split: if_splits)
    show ?thesis
    proof (cases "k \<in> revoked kh")
      case True
      with pk have "?check k = Some (Err RevokedError [])" by (rule plain_answer_cases)
      with True cert caSome show ?thesis
        by (auto simp: verifyHostKey_def Let_def split: option.splits)
    next
      case False
      note k = plain_answer_cases(2,3) [OF pk False]
      have fall: "verdict_of (?check k) = plain_policy kh k" using pk by (rule verdict_plain)
      show ?thesis
        using ca False cert caNone caSome k fall
        by (auto simp: verifyHostKey_def Let_def cert_accepted_def verdict_certificate_invalid
            verdict_of_def [of None] split: option.splits)
    qed
  qed
qed

lemma verify_policy:
  assumes "knownhosts_callback kh hostname remote cb" and "wire_key key"
  shows "verdict_of (verifyHostKey cb hostname remote key) = policy kh key"
proof (cases key)
  case (PlainKey b)
  with assms(1) show ?thesis
    by (simp add: verifyHostKey_def knownhosts_callback_def verdict_plain)
next
  case (Certificate k ca f x)
  with assms obtain b c where "k = PlainKey b" and "ca = PlainKey c" by auto
  with assms(1) have "plain_answer kh k (cb hostname remote k)" "plain_answer kh ca (cb hostname remote ca)"
    by (simp_all add: knownhosts_callback_def)
  with assms(1) Certificate show ?thesis by (simp only: verify_certificate)
qed

section \<open>The documented policy\<close>

text \<open>
  The section on host key verification of the README: a plain key has to be listed; a certificate
  has to be valid and signed by an authority of the file, else the key inside it has to be listed;
  a revoked key or authority always fails.  The reasons are those of its table, where only an
  authority of the file makes a certificate \<^verbatim>\<open>server_host_certificate_invalid\<close>.
\<close>

definition documented_plain :: "known_hosts \<Rightarrow> ssh_key \<Rightarrow> verdict" where
  "documented_plain kh k =
     (if k \<in> revoked kh then Reject ''server_host_key_revoked''
      else if k \<in> listed kh then Accept
      else if listed kh = {} \<and> authorities kh = {} then Reject ''server_host_key_unknown''
      else Reject ''server_host_key_mismatch'')"

fun documented_policy :: "known_hosts \<Rightarrow> ssh_key \<Rightarrow> verdict" where
  "documented_policy kh (PlainKey b) = documented_plain kh (PlainKey b)"
| "documented_policy kh (Certificate k ca f x) =
     (if k \<in> revoked kh \<or> ca \<in> revoked kh then Reject ''server_host_key_revoked''
      else if cert_accepted kh k ca f x then Accept
      else if k \<notin> listed kh \<and> ca \<in> authorities kh then Reject ''server_host_certificate_invalid''
      else documented_plain kh k)"

text \<open>
  Where the two differ: the key to be judged, plain or inside a certificate that fails, is only the
  key of an authority; or the certificate was signed with a key that is only a listed host key.
\<close>

definition authority_only :: "known_hosts \<Rightarrow> ssh_key \<Rightarrow> bool" where
  "authority_only kh k \<longleftrightarrow> k \<in> authorities kh \<and> k \<notin> listed kh"

fun takes_authority_for_host :: "known_hosts \<Rightarrow> ssh_key \<Rightarrow> bool" where
  "takes_authority_for_host kh (PlainKey b) \<longleftrightarrow> PlainKey b \<notin> revoked kh \<and> authority_only kh (PlainKey b)"
| "takes_authority_for_host kh (Certificate k ca f x) \<longleftrightarrow>
     k \<notin> revoked kh \<and> ca \<notin> revoked kh \<and> \<not> cert_accepted kh k ca f x \<and> authority_only kh k"

fun takes_host_for_authority :: "known_hosts \<Rightarrow> ssh_key \<Rightarrow> bool" where
  "takes_host_for_authority kh (PlainKey b) \<longleftrightarrow> False"
| "takes_host_for_authority kh (Certificate k ca f x) \<longleftrightarrow>
     k \<notin> revoked kh \<and> ca \<notin> revoked kh \<and> k \<notin> listed kh \<union> authorities kh \<and>
     ca \<in> listed kh \<and> ca \<notin> authorities kh"

lemma policies_differ:
  "policy kh key =
     (if takes_authority_for_host kh key then Accept
      else if takes_host_for_authority kh key then Reject ''server_host_certificate_invalid''
      else documented_policy kh key)"
  by (cases key)
     (auto simp: plain_policy_def documented_plain_def authority_only_def cert_accepted_def)

lemma takes_authority_rejected: "takes_authority_for_host kh key \<Longrightarrow> documented_policy kh key \<noteq> Accept"
  by (cases key) (auto simp: documented_plain_def authority_only_def)

lemma takes_host_mismatch: "takes_host_for_authority kh key \<Longrightarrow> documented_policy kh key = Reject ''server_host_key_mismatch''"
  by (cases key) (auto simp: documented_plain_def cert_accepted_def)

text \<open>C4.  For every key a server can present, the code's decision and the reason it reports are
  those of the documented policy, with two exceptions, in which they are not: a key that the file
  has only as an authority's is accepted as a host key, and a failed certificate signed with a key
  that the file has only as a host key is reported as an invalid certificate of a trusted
  authority, where the documentation has a mismatch.\<close>

theorem verifyHostKey_refines_policy:
  assumes "knownhosts_callback kh hostname remote cb" and "wire_key key"
  shows "if takes_authority_for_host kh key
    then verifyHostKey cb hostname remote key = None \<and> documented_policy kh key \<noteq> Accept
    else if takes_host_for_authority kh key
    then verdict_of (verifyHostKey cb hostname remote key) = Reject ''server_host_certificate_invalid'' \<and>
      documented_policy kh key = Reject ''server_host_key_mismatch''
    else verdict_of (verifyHostKey cb hostname remote key) = documented_policy kh key"
proof -
  have "verdict_of (verifyHostKey cb hostname remote key) = policy kh key"
    using assms by (rule verify_policy)
  moreover have "verdict_of (verifyHostKey cb hostname remote key) = Accept \<longleftrightarrow> verifyHostKey cb hostname remote key = None"
    by (simp add: verdict_of_def split: option.split)
  ultimately show ?thesis
    using takes_authority_rejected [of kh key] takes_host_mismatch [of kh key] by (auto simp: policies_differ)
qed

text \<open>The contract can be met: a callback that looks the answers up.\<close>

fun lookup_callback :: "known_hosts \<Rightarrow> host_key_callback" where
  "lookup_callback kh hostname remote (PlainKey b) =
     (if PlainKey b \<in> revoked kh then Some (Err RevokedError [])
      else if PlainKey b \<in> listed kh \<or> PlainKey b \<in> authorities kh then None
      else Some (Err (KeyError (if listed kh = {} \<and> authorities kh = {} then [] else [''key''])) []))"
| "lookup_callback kh hostname remote (Certificate k ca f x) =
     (if ca \<in> authorities kh \<and> valid_cert kh (Certificate k ca f x) \<and> k \<notin> revoked kh \<and> ca \<notin> revoked kh
      then None else Some (Err (OtherError ''ssh: certificate'' None) []))"

lemma lookup_callback_contract: "knownhosts_callback kh hostname remote (lookup_callback kh)"
  by (auto simp: knownhosts_callback_def plain_answer_def)

theorem verifyHostKey_refines_policy_witness:
  "let kh = \<lparr> listed = {PlainKey ''host''}, authorities = {PlainKey ''ca''}, revoked = {},
              valid_cert = (\<lambda>_. False) \<rparr>;
       verdict = (\<lambda>key. verdict_of (verifyHostKey (lookup_callback kh) ''h:22'' ''192.0.2.1:22'' key))
   in verdict (Certificate (PlainKey ''host'') (PlainKey ''ca'') ''ssh-ed25519'' []) = Accept \<and>
      verdict (Certificate (PlainKey ''other'') (PlainKey ''ca'') ''ssh-ed25519'' []) =
        Reject ''server_host_certificate_invalid'' \<and>
      verdict (Certificate (PlainKey ''other'') (PlainKey ''host'') ''ssh-ed25519'' []) =
        Reject ''server_host_certificate_invalid'' \<and>
      verifyHostKey (lookup_callback kh) ''h:22'' ''192.0.2.1:22'' (PlainKey ''ca'') = None"
  unfolding Let_def
  using verifyHostKey_refines_policy [OF lookup_callback_contract, of "Certificate (PlainKey ''host'') (PlainKey ''ca'') ''ssh-ed25519'' []"]
    verifyHostKey_refines_policy [OF lookup_callback_contract, of "Certificate (PlainKey ''other'') (PlainKey ''ca'') ''ssh-ed25519'' []"]
    verifyHostKey_refines_policy [OF lookup_callback_contract, of "Certificate (PlainKey ''other'') (PlainKey ''host'') ''ssh-ed25519'' []"]
    verifyHostKey_refines_policy [OF lookup_callback_contract, of "PlainKey ''ca''"]
  by (simp add: cert_accepted_def documented_plain_def authority_only_def)

text \<open>C32.  A revoked host key, a certificate over a revoked key and a certificate from a revoked CA
  are never accepted, whatever else the file says.\<close>

theorem revoked_never_accepted:
  assumes "knownhosts_callback kh hostname remote cb" and "wire_key key"
    and "case key of PlainKey _ \<Rightarrow> key \<in> revoked kh
      | Certificate k ca _ _ \<Rightarrow> k \<in> revoked kh \<or> ca \<in> revoked kh"
  shows "\<exists>e. verifyHostKey cb hostname remote key = Some e \<and>
    classifyHostKeyVerifyError e = ErrReasonServerHostKeyRevoked"
proof -
  have "policy kh key = Reject ''server_host_key_revoked''"
    using assms(3) by (cases key) (auto simp: plain_policy_def)
  then have "verdict_of (verifyHostKey cb hostname remote key) = Reject ''server_host_key_revoked''"
    using verify_policy [OF assms(1,2)] by simp
  then show ?thesis by (simp add: verdict_of_def split: option.splits)
qed

theorem revoked_never_accepted_witness:
  "let kh = \<lparr> listed = {PlainKey ''host''}, authorities = {PlainKey ''ca''},
              revoked = {PlainKey ''ca''}, valid_cert = (\<lambda>_. True) \<rparr>
   in \<exists>e. verifyHostKey (lookup_callback kh) ''h:22'' ''192.0.2.1:22''
            (Certificate (PlainKey ''host'') (PlainKey ''ca'') ''ssh-ed25519'' []) = Some e \<and>
          classifyHostKeyVerifyError e = ErrReasonServerHostKeyRevoked"
  unfolding Let_def
  by (rule revoked_never_accepted [OF lookup_callback_contract]) simp_all

end
