(* ===== verification/Probe.thy ===== *)
theory Probe
  imports Go_Net Identification HostKeys
begin

text \<open>
  Package \<^verbatim>\<open>probe\<close> (\<^verbatim>\<open>internal/probe/probe.go\<close>, \<^verbatim>\<open>mss_linux.go\<close>, \<^verbatim>\<open>mss_other.go\<close>): one probe of one
  target.  The world a probe meets is a record: the clock readings, the dialer's calls of its
  control function and its result, the state of the context when a failure is classified, and
  what \<^verbatim>\<open>ssh.NewClientConn\<close> does with the connection and the two callbacks, as a sequence of
  events with the error it returns.  \<open>Run\<close> is the function of the same name over such a world.
\<close>

section \<open>Phases, reasons and results\<close>

definition ErrPhaseDNSLookup :: string where [simp]: "ErrPhaseDNSLookup = ''dns_lookup''"
definition ErrPhaseTCPConnect :: string where [simp]: "ErrPhaseTCPConnect = ''tcp_connect''"
definition ErrPhaseVersionExchange :: string where [simp]: "ErrPhaseVersionExchange = ''version_exchange''"
definition ErrPhaseKeyExchange :: string where [simp]: "ErrPhaseKeyExchange = ''key_exchange''"

definition ErrReasonConnectionRefused :: string where
  [simp]: "ErrReasonConnectionRefused = ''connection_refused''"
definition ErrReasonNoRouteToHost :: string where [simp]: "ErrReasonNoRouteToHost = ''no_route_to_host''"
definition ErrReasonNetworkUnreachable :: string where
  [simp]: "ErrReasonNetworkUnreachable = ''network_unreachable''"
definition ErrReasonDNSFailure :: string where [simp]: "ErrReasonDNSFailure = ''dns_failure''"
definition ErrReasonConnectionReset :: string where
  [simp]: "ErrReasonConnectionReset = ''connection_reset''"
definition ErrReasonTimeout :: string where [simp]: "ErrReasonTimeout = ''timeout''"
definition ErrReasonCanceled :: string where [simp]: "ErrReasonCanceled = ''canceled''"
definition ErrReasonUserAuthReached :: string where
  [simp]: "ErrReasonUserAuthReached = ''user_auth_reached''"
definition ErrReasonNoCommonKex :: string where [simp]: "ErrReasonNoCommonKex = ''no_common_kex_algorithm''"
definition ErrReasonNoCommonHostKey :: string where
  [simp]: "ErrReasonNoCommonHostKey = ''no_common_host_key_algorithm''"
definition ErrReasonNoCommonCipher :: string where [simp]: "ErrReasonNoCommonCipher = ''no_common_cipher''"
definition ErrReasonNoCommonMAC :: string where [simp]: "ErrReasonNoCommonMAC = ''no_common_mac''"
definition ErrReasonNoCommonAlgorithm :: string where
  [simp]: "ErrReasonNoCommonAlgorithm = ''no_common_algorithm''"
definition ErrReasonOther :: string where [simp]: "ErrReasonOther = ''other''"

record Result =
  DNSLookup :: bool
  DNSLookupSuccess :: bool
  DNSLookupDuration :: int
  TCPConnectSuccess :: bool
  TCPConnectDuration :: int
  TCPMSS :: int
  ServerIdent :: ServerIdentification
  VersionExchangeSuccess :: bool
  VersionExchangeDuration :: int
  KeyExchangeSuccess :: bool
  KeyExchangeDuration :: int
  KEXAlgorithm :: string
  ServerHostKeyVerifySuccess :: bool
  ServerHostKeyAlgorithm :: string
  EncryptionClientToServer :: string
  EncryptionServerToClient :: string
  MACClientToServer :: string
  MACServerToClient :: string
  ErrorPhase :: string
  ErrorReason :: string
  Duration :: int
  Success :: bool

definition zero_Result :: Result where
  "zero_Result =
     \<lparr> DNSLookup = False, DNSLookupSuccess = False, DNSLookupDuration = 0,
       TCPConnectSuccess = False, TCPConnectDuration = 0, TCPMSS = 0,
       ServerIdent = zero_ServerIdentification,
       VersionExchangeSuccess = False, VersionExchangeDuration = 0,
       KeyExchangeSuccess = False, KeyExchangeDuration = 0, KEXAlgorithm = [],
       ServerHostKeyVerifySuccess = False, ServerHostKeyAlgorithm = [],
       EncryptionClientToServer = [], EncryptionServerToClient = [],
       MACClientToServer = [], MACServerToClient = [],
       ErrorPhase = [], ErrorReason = [], Duration = 0, Success = False \<rparr>"

record Options =
  opt_HostKeyCallback :: "host_key_callback option"
  opt_Ciphers :: "string list"
  opt_KeyExchanges :: "string list"
  opt_MACs :: "string list"
  opt_HostKeyAlgorithms :: "string list"
  opt_StripServerIdentificationComments :: bool

section \<open>Advertised algorithms\<close>

definition defaultKeyExchanges :: "string list" where
  "defaultKeyExchanges =
     [''mlkem768x25519-sha256'', ''curve25519-sha256'', ''ecdh-sha2-nistp256'', ''ecdh-sha2-nistp384'',
      ''ecdh-sha2-nistp521'', ''diffie-hellman-group-exchange-sha256'',
      ''diffie-hellman-group16-sha512'', ''diffie-hellman-group14-sha256'']"

definition defaultHostKeyAlgorithms :: "string list" where
  "defaultHostKeyAlgorithms =
     [''ssh-ed25519-cert-v01@openssh.com'', ''ecdsa-sha2-nistp256-cert-v01@openssh.com'',
      ''ecdsa-sha2-nistp384-cert-v01@openssh.com'', ''ecdsa-sha2-nistp521-cert-v01@openssh.com'',
      ''rsa-sha2-512-cert-v01@openssh.com'', ''rsa-sha2-256-cert-v01@openssh.com'',
      ''ssh-ed25519'', ''ecdsa-sha2-nistp256'', ''ecdsa-sha2-nistp384'', ''ecdsa-sha2-nistp521'',
      ''rsa-sha2-512'', ''rsa-sha2-256'']"

definition defaultCiphers :: "string list" where
  "defaultCiphers =
     [''chacha20-poly1305@openssh.com'', ''aes128-gcm@openssh.com'', ''aes256-gcm@openssh.com'',
      ''aes128-ctr'', ''aes192-ctr'', ''aes256-ctr'']"

definition defaultMACs :: "string list" where
  "defaultMACs =
     [''hmac-sha2-256-etm@openssh.com'', ''hmac-sha2-512-etm@openssh.com'',
      ''hmac-sha2-256'', ''hmac-sha2-512'', ''hmac-sha1'']"

definition orDefault :: "string list \<Rightarrow> string list \<Rightarrow> string list" where
  "orDefault algorithms defaults = (if length algorithms = 0 then defaults else algorithms)"

record ClientConfig =
  cc_User :: string
  cc_Auth :: "string list"
  cc_Ciphers :: "string list"
  cc_KeyExchanges :: "string list"
  cc_MACs :: "string list"
  cc_HostKeyAlgorithms :: "string list"

definition clientConfig :: "Options \<Rightarrow> ClientConfig" where
  "clientConfig opts =
     \<lparr> cc_User = ''ssh_transport_exporter'', cc_Auth = [],
       cc_Ciphers = orDefault (opt_Ciphers opts) defaultCiphers,
       cc_KeyExchanges = orDefault (opt_KeyExchanges opts) defaultKeyExchanges,
       cc_MACs = orDefault (opt_MACs opts) defaultMACs,
       cc_HostKeyAlgorithms = orDefault (opt_HostKeyAlgorithms opts) defaultHostKeyAlgorithms \<rparr>"

section \<open>Classification of failures\<close>

text \<open>The context is represented by its \<^verbatim>\<open>Err()\<close>.\<close>

type_synonym ctx_err = "gerr option"

definition ctx_Is :: "ctx_err \<Rightarrow> errkind \<Rightarrow> bool" where
  "ctx_Is ctx t = (case ctx of None \<Rightarrow> False | Some e \<Rightarrow> errors_Is e t)"

definition classifyContextError :: "ctx_err \<Rightarrow> string" where
  "classifyContextError ctx =
     (if ctx_Is ctx DeadlineExceeded then ErrReasonTimeout
      else if ctx_Is ctx Canceled then ErrReasonCanceled
      else [])"

definition classifyDialError :: "ctx_err \<Rightarrow> gerr \<Rightarrow> string" where
  "classifyDialError ctx err =
     (if classifyContextError ctx \<noteq> [] then classifyContextError ctx
      else if net_timeout err then ErrReasonTimeout
      else if errors_Is err (Errno ECONNREFUSED) then ErrReasonConnectionRefused
      else if errors_Is err (Errno EHOSTUNREACH) then ErrReasonNoRouteToHost
      else if errors_Is err (Errno ENETUNREACH) then ErrReasonNetworkUnreachable
      else if errors_Is err (Errno ECONNRESET) then ErrReasonConnectionReset
      else if as_DNSError err then ErrReasonDNSFailure
      else ErrReasonOther)"

definition classifyNegotiationError :: "string \<Rightarrow> string" where
  "classifyNegotiationError what =
     (if what = ''key exchange'' then ErrReasonNoCommonKex
      else if what = ''host key'' then ErrReasonNoCommonHostKey
      else if what = ''client to server cipher'' \<or> what = ''server to client cipher''
        then ErrReasonNoCommonCipher
      else if what = ''client to server MAC'' \<or> what = ''server to client MAC''
        then ErrReasonNoCommonMAC
      else ErrReasonNoCommonAlgorithm)"

definition classifyKexError :: "ctx_err \<Rightarrow> gerr \<Rightarrow> string" where
  "classifyKexError ctx err =
     (if classifyContextError ctx \<noteq> [] then classifyContextError ctx
      else
        (case as_NegotiationError err of
           Some what \<Rightarrow> classifyNegotiationError what
         | None \<Rightarrow>
             if net_timeout err then ErrReasonTimeout
             else if errors_Is err EOF \<or> errors_Is err ErrUnexpectedEOF
               \<or> errors_Is err (Errno ECONNRESET) \<or> errors_Is err (Errno EPIPE)
               then ErrReasonConnectionReset
             else ErrReasonOther))"

section \<open>The world of one probe\<close>

text \<open>The answers of the socket calls behind \<^verbatim>\<open>tcpNegotiatedMSS\<close>.\<close>

record mss_calls =
  mss_SyscallConn :: "gerr option"
  mss_Control :: "gerr option"
  mss_Getsockopt :: "gerr + int"

definition tcpNegotiatedMSS_linux :: "mss_calls \<Rightarrow> gerr + int" where
  "tcpNegotiatedMSS_linux c =
     (case mss_SyscallConn c of
        Some e \<Rightarrow> Inl (Err (OtherError ''SyscallConn'' None) [e])
      | None \<Rightarrow>
          (case mss_Control c of
             Some e \<Rightarrow> Inl (Err (OtherError ''syscall.RawConn.Control'' None) [e])
           | None \<Rightarrow>
               (case mss_Getsockopt c of
                  Inl e \<Rightarrow> Inl (Err (OtherError ''getsockopt(TCP_MAXSEG)'' None) [e])
                | Inr mss \<Rightarrow> Inr mss)))"

definition tcpNegotiatedMSS_other :: "mss_calls \<Rightarrow> gerr + int" where
  "tcpNegotiatedMSS_other _ =
     Inl (Err (OtherError ''negotiated MSS reading is only supported on linux'' None) [])"

datatype raw_conn = TCPConn mss_calls | OtherConn

record algorithms =
  alg_KeyExchange :: string
  alg_HostKey :: string
  alg_WriteCipher :: string
  alg_ReadCipher :: string
  alg_WriteMAC :: string
  alg_ReadMAC :: string

text \<open>
  What \<^verbatim>\<open>NewClientConn\<close> does: reads from the connection, calls of \<^verbatim>\<open>HostKeyCallback\<close> with the
  host name, the remote address and the key, and calls of \<^verbatim>\<open>TransportReadyCallback\<close>.
\<close>

datatype ssh_event =
    ReadEv int bytes
  | HostKeyEv string string ssh_key
  | ReadyEv int algorithms

record world =
  w_start :: int
  w_dialStart :: int
  w_controls :: "int list"
  w_dial :: "gerr + raw_conn"
  w_dialEnd :: int
  w_ctxErr :: ctx_err
  w_versionExchangeStart :: int
  w_events :: "ssh_event list"
  w_handshakeErr :: "gerr option"
  w_end :: int

section \<open>Run\<close>

definition isHostname :: "string \<Rightarrow> bool" where
  "isHostname target =
     (let host = (case SplitHostPort target of Some (h, _) \<Rightarrow> h | None \<Rightarrow> target)
      in ParseAddr host = None)"

text \<open>\<^verbatim>\<open>connectStart.CompareAndSwap(nil, &now)\<close> on every call of the control function.\<close>

definition CompareAndSwap_nil :: "'a option \<Rightarrow> 'a \<Rightarrow> 'a option" where
  "CompareAndSwap_nil p now = (case p of None \<Rightarrow> Some now | Some t \<Rightarrow> Some t)"

definition connectStart :: "int list \<Rightarrow> int option" where
  "connectStart controls = foldl CompareAndSwap_nil None controls"

record hostKeyResult =
  hk_verified :: bool
  hk_errorReason :: string

text \<open>
  State while the handshake runs: the watcher, the channel of capacity one for the host key
  result, and the probe's result.
\<close>

record handshake =
  hs_conn :: identificationWatcher
  hs_ch :: "hostKeyResult option"
  hs_result :: Result

text \<open>
  The two callbacks return an error or nil to \<^verbatim>\<open>NewClientConn\<close>: the host key callback always
  nil, so that the exchange goes on after a failed verification, the other always \<^verbatim>\<open>errAbort\<close>.
\<close>

definition hostKeyCallback ::
  "host_key_callback \<Rightarrow> string \<Rightarrow> string \<Rightarrow> ssh_key \<Rightarrow> handshake \<Rightarrow> gerr option \<times> handshake" where
  "hostKeyCallback cb hostname remote key h =
     (let hk = (case verifyHostKey cb hostname remote key of
                  None \<Rightarrow> \<lparr> hk_verified = True, hk_errorReason = [] \<rparr>
                | Some e \<Rightarrow> \<lparr> hk_verified = False, hk_errorReason = classifyHostKeyVerifyError e \<rparr>)
      in (None, case hs_ch h of None \<Rightarrow> h\<lparr> hs_ch := Some hk \<rparr> | Some _ \<Rightarrow> h))"

definition transportReadyCallback :: "int \<Rightarrow> algorithms \<Rightarrow> handshake \<Rightarrow> gerr option \<times> handshake" where
  "transportReadyCallback now a h =
     (let r = (case received (hs_conn h) of
                 Some t \<Rightarrow> (hs_result h)\<lparr> KeyExchangeDuration := now - t \<rparr>
               | None \<Rightarrow> hs_result h)
      in (Some (Err errAbort []),
          h\<lparr> hs_result := r\<lparr> KEXAlgorithm := alg_KeyExchange a,
                            ServerHostKeyAlgorithm := alg_HostKey a,
                            EncryptionClientToServer := alg_WriteCipher a,
                            EncryptionServerToClient := alg_ReadCipher a,
                            MACClientToServer := alg_WriteMAC a,
                            MACServerToClient := alg_ReadMAC a \<rparr> \<rparr>))"

fun ssh_step :: "host_key_callback \<Rightarrow> handshake \<Rightarrow> ssh_event \<Rightarrow> handshake" where
  "ssh_step cb h (ReadEv now p) = h\<lparr> hs_conn := Read now p (hs_conn h) \<rparr>"
| "ssh_step cb h (HostKeyEv hostname remote key) = snd (hostKeyCallback cb hostname remote key h)"
| "ssh_step cb h (ReadyEv now a) = snd (transportReadyCallback now a h)"

definition effectiveCallback :: "Options \<Rightarrow> host_key_callback" where
  "effectiveCallback opts =
     (case opt_HostKeyCallback opts of
        Some cb \<Rightarrow> cb
      | None \<Rightarrow> (\<lambda>_ _ _. Some (Err (OtherError ''no HostKeyCallback configured'' None) [])))"

text \<open>From the start to the end of the TCP connect; the left side returns early.\<close>

definition run_dial :: "(mss_calls \<Rightarrow> gerr + int) \<Rightarrow> string \<Rightarrow> world \<Rightarrow> Result + Result" where
  "run_dial tcpMSS target w =
     (let attemptStart = connectStart (w_controls w);
          connectFrom = (case attemptStart of Some t \<Rightarrow> t | None \<Rightarrow> w_dialStart w);
          r0 = zero_Result\<lparr> DNSLookup := isHostname target \<rparr>;
          r1 = (case attemptStart of
                  Some t \<Rightarrow>
                    if DNSLookup r0
                    then r0\<lparr> DNSLookupSuccess := True, DNSLookupDuration := t - w_dialStart w \<rparr>
                    else r0
                | None \<Rightarrow> r0)
      in case w_dial w of
           Inl err \<Rightarrow>
             Inl (r1\<lparr> ErrorPhase := (if DNSLookup r1 \<and> \<not> DNSLookupSuccess r1
                                     then ErrPhaseDNSLookup else ErrPhaseTCPConnect),
                      ErrorReason := classifyDialError (w_ctxErr w) err \<rparr>)
         | Inr rawConn \<Rightarrow>
             let r2 = r1\<lparr> TCPConnectSuccess := True, TCPConnectDuration := w_dialEnd w - connectFrom \<rparr>
             in Inr (case rawConn of
                       TCPConn c \<Rightarrow> (case tcpMSS c of Inr mss \<Rightarrow> r2\<lparr> TCPMSS := mss \<rparr> | Inl _ \<Rightarrow> r2)
                     | OtherConn \<Rightarrow> r2))"

definition run_version :: "Options \<Rightarrow> int \<Rightarrow> identificationWatcher \<Rightarrow> Result \<Rightarrow> Result" where
  "run_version opts versionExchangeStart conn r =
     (case received conn of
        None \<Rightarrow> r
      | Some t \<Rightarrow>
          let r' = r\<lparr> VersionExchangeSuccess := True, VersionExchangeDuration := t - versionExchangeStart \<rparr>
          in case parseServerIdentification (identification conn) of
               Inl _ \<Rightarrow> r'
             | Inr ident \<Rightarrow>
                 r'\<lparr> ServerIdent := (if opt_StripServerIdentificationComments opts
                                     then withoutComments ident else ident) \<rparr>)"

definition run_outcome :: "ctx_err \<Rightarrow> gerr option \<Rightarrow> Result \<Rightarrow> Result" where
  "run_outcome ctx handshakeErr r =
     (case handshakeErr of
        None \<Rightarrow> r\<lparr> ErrorPhase := ErrPhaseKeyExchange, ErrorReason := ErrReasonUserAuthReached \<rparr>
      | Some e \<Rightarrow>
          if errors_Is e errAbort then r\<lparr> KeyExchangeSuccess := True \<rparr>
          else r\<lparr> ErrorPhase := (if VersionExchangeSuccess r then ErrPhaseKeyExchange
                                 else ErrPhaseVersionExchange),
                  ErrorReason := classifyKexError ctx e \<rparr>)"

definition run_host_key :: "hostKeyResult option \<Rightarrow> Result \<Rightarrow> Result" where
  "run_host_key ch r =
     (case ch of
        None \<Rightarrow> r
      | Some hk \<Rightarrow>
          let r' = r\<lparr> ServerHostKeyVerifySuccess := hk_verified hk \<rparr>
          in if hk_verified hk then r'
             else r'\<lparr> ErrorPhase := ErrPhaseKeyExchange, ErrorReason := hk_errorReason hk \<rparr>)"

definition run_success :: "Result \<Rightarrow> Result" where
  "run_success r =
     r\<lparr> Success := (ErrorPhase r = [] \<and> KeyExchangeSuccess r \<and> ServerHostKeyVerifySuccess r) \<rparr>"

definition Run :: "(mss_calls \<Rightarrow> gerr + int) \<Rightarrow> string \<Rightarrow> Options \<Rightarrow> world \<Rightarrow> Result" where
  "Run tcpMSS target opts w =
     (let result =
        (case run_dial tcpMSS target w of
           Inl r \<Rightarrow> r
         | Inr r \<Rightarrow>
             let h = foldl (ssh_step (effectiveCallback opts))
                       \<lparr> hs_conn = new_watcher, hs_ch = None, hs_result = r \<rparr> (w_events w)
             in run_success (run_host_key (hs_ch h)
                  (run_outcome (w_ctxErr w) (w_handshakeErr w)
                    (run_version opts (w_versionExchangeStart w) (hs_conn h) (hs_result h)))))
      in result\<lparr> Duration := w_end w - w_start w \<rparr>)"

section \<open>What NewClientConn promises\<close>

text \<open>
  The documented behaviour of \<^verbatim>\<open>ssh.NewClientConn\<close> the probe relies on.  The transport is ready
  at most once, after the host key check and the identification string, and an error of
  \<^verbatim>\<open>TransportReadyCallback\<close> ends the call with an error wrapping it; without a ready transport the
  call fails, with an error that cannot be the probe's own \<^verbatim>\<open>errAbort\<close>.  The host key is checked
  only after the server has identified itself.
\<close>

fun is_ready :: "ssh_event \<Rightarrow> bool" where
  "is_ready (ReadyEv _ _) = True"
| "is_ready _ = False"

fun reads :: "ssh_event list \<Rightarrow> (int \<times> bytes) list" where
  "reads [] = []"
| "reads (ReadEv t p # evs) = (t, p) # reads evs"
| "reads (_ # evs) = reads evs"

definition read_bytes :: "ssh_event list \<Rightarrow> bytes" where
  "read_bytes evs = concat (map snd (reads evs))"

fun host_keys :: "ssh_event list \<Rightarrow> (string \<times> string \<times> ssh_key) list" where
  "host_keys [] = []"
| "host_keys (HostKeyEv h r k # evs) = (h, r, k) # host_keys evs"
| "host_keys (_ # evs) = host_keys evs"

definition transport_ready :: "world \<Rightarrow> bool" where
  "transport_ready w \<longleftrightarrow> list_ex is_ready (w_events w)"

text \<open>The order of events, with the bytes read and whether a host key was checked so far.\<close>

fun handshake_order :: "bytes \<Rightarrow> bool \<Rightarrow> ssh_event list \<Rightarrow> bool" where
  "handshake_order s checked [] \<longleftrightarrow> True"
| "handshake_order s checked (ReadEv _ p # evs) \<longleftrightarrow> handshake_order (s @ p) checked evs"
| "handshake_order s checked (HostKeyEv _ _ _ # evs) \<longleftrightarrow> ident_line s \<noteq> None \<and> handshake_order s True evs"
| "handshake_order s checked (ReadyEv _ _ # evs) \<longleftrightarrow> checked \<and> evs = []"

definition newClientConn_contract :: "world \<Rightarrow> bool" where
  "newClientConn_contract w \<longleftrightarrow>
     handshake_order [] False (w_events w) \<and>
     (\<forall>t a h e. ReadyEv t a \<in> set (w_events w) \<and> fst (transportReadyCallback t a h) = Some e \<longrightarrow>
        (\<exists>e'. w_handshakeErr w = Some e' \<and> kinds e \<subseteq> kinds e')) \<and>
     (\<not> transport_ready w \<longrightarrow> (\<exists>e'. w_handshakeErr w = Some e' \<and> errAbort \<notin> kinds e'))"

text \<open>A successful dial has called the control function before its connect attempt.\<close>

definition dial_contract :: "world \<Rightarrow> bool" where
  "dial_contract w \<longleftrightarrow> (case w_dial w of Inr _ \<Rightarrow> w_controls w \<noteq> [] | Inl _ \<Rightarrow> True)"

end
