(* ===== verification/ConfigModules.thy ===== *)
theory ConfigModules
  imports Config Probe "HOL-Library.Multiset"
begin

text \<open>
  Ready-to-probe modules (\<^verbatim>\<open>internal/config/module.go\<close>).  \<^verbatim>\<open>knownhosts.New\<close> is an argument, and so is
  the order in which \<^verbatim>\<open>build\<close> visits the map of modules, which need not be the one of the
  validation before it.  The logger is left out.
\<close>

section \<open>Building modules\<close>

record Module =
  mod_Options :: Options
  mod_AllowedTargets :: "matcher list"
  mod_AllowedPorts :: "int set"
  mod_TargetPort :: int

type_synonym knownhosts_New = "string \<Rightarrow> gerr + host_key_callback"

definition build_module ::
  "(string \<Rightarrow> string) \<Rightarrow> knownhosts_New \<Rightarrow> bool \<Rightarrow> string \<times> rawConfigModule \<Rightarrow> config_error + (string \<times> Module)" where
  "build_module ul New allowAll = (\<lambda>(name, md).
     case New (m_KnownHostsFile md) of
       Inl e \<Rightarrow> Inl (InModule name (LoadingKnownHosts e))
     | Inr cb \<Rightarrow>
         (case resolveAllowedTargets ul (m_AllowedTargets md) allowAll of
            Inl e \<Rightarrow> Inl (InModule name (TargetError e))
          | Inr allowedTargets \<Rightarrow>
              Inr (name,
                \<lparr> mod_Options =
                    \<lparr> opt_HostKeyCallback = Some cb,
                      opt_Ciphers = m_Ciphers md, opt_KeyExchanges = m_KeyExchanges md,
                      opt_MACs = m_MACs md, opt_HostKeyAlgorithms = m_HostKeyAlgorithms md,
                      opt_StripServerIdentificationComments = m_StripServerIdentificationComments md \<rparr>,
                  mod_AllowedTargets = allowedTargets,
                  mod_AllowedPorts = foldl (\<lambda>ports p. insert p ports) {} (elems (m_AllowedPorts md)),
                  mod_TargetPort = m_TargetPort md \<rparr>)))"

definition build :: "(string \<Rightarrow> string) \<Rightarrow> knownhosts_New \<Rightarrow> rawConfig \<Rightarrow> config_error + (string \<rightharpoonup> Module)" where
  "build ul New raw =
     res_bind (res_map (build_module ul New (c_allowAllTargets raw)) (c_Modules raw))
       (\<lambda>ms. Inr (foldl (\<lambda>modules (name, m). modules(name \<mapsto> m)) Map.empty ms))"

type_synonym map_order = "(string \<times> rawConfigModule) list \<Rightarrow> (string \<times> rawConfigModule) list"

definition Load ::
  "files \<Rightarrow> ssh_library \<Rightarrow> (string \<Rightarrow> string) \<Rightarrow> knownhosts_New \<Rightarrow> map_order \<Rightarrow> string \<Rightarrow> bool \<Rightarrow>
     config_error + (string \<rightharpoonup> Module)" where
  "Load fs lib ul New order configFilePath allowAllTargets =
     res_bind (map_err LoadingFile (loadRawConfig fs lib configFilePath allowAllTargets))
       (\<lambda>raw. build ul New (raw\<lparr> c_Modules := order (c_Modules raw) \<rparr>))"

section \<open>What a loaded module is\<close>

text \<open>A Go map has each key once, and iteration visits its entries in some order.\<close>

definition iteration_order :: "map_order \<Rightarrow> bool" where
  "iteration_order order \<longleftrightarrow> (\<forall>ms. mset (order ms) = mset ms)"

lemma iteration_order_keeps:
  assumes "iteration_order order"
  shows "set (order ms) = set ms" and "distinct (map fst (order ms)) \<longleftrightarrow> distinct (map fst ms)"
proof -
  have m: "mset (order ms) = mset ms" using assms by (simp add: iteration_order_def)
  show "set (order ms) = set ms" using m by (rule mset_eq_setD)
  have "mset (map fst (order ms)) = mset (map fst ms)" by (simp only: mset_map m)
  then show "distinct (map fst (order ms)) \<longleftrightarrow> distinct (map fst ms)" by (rule mset_eq_imp_distinct_iff)
qed

lemma foldl_update: "foldl (\<lambda>modules (name, m). modules(name \<mapsto> m)) f ms = f ++ map_of (rev ms)"
  by (induction ms arbitrary: f) auto

lemma foldl_insert: "foldl (\<lambda>ports p. insert p ports) s ps = s \<union> set ps"
  by (induction ps arbitrary: s) auto

definition built :: "(string \<Rightarrow> string) \<Rightarrow> knownhosts_New \<Rightarrow> bool \<Rightarrow> rawConfigModule \<Rightarrow> Module \<Rightarrow> bool" where
  "built ul New allowAll md m \<longleftrightarrow>
     (\<exists>cb. New (m_KnownHostsFile md) = Inr cb \<and> opt_HostKeyCallback (mod_Options m) = Some cb) \<and>
     resolveAllowedTargets ul (m_AllowedTargets md) allowAll = Inr (mod_AllowedTargets m) \<and>
     mod_AllowedPorts m = set (elems (m_AllowedPorts md)) \<and> mod_TargetPort m = m_TargetPort md \<and>
     opt_Ciphers (mod_Options m) = m_Ciphers md \<and> opt_KeyExchanges (mod_Options m) = m_KeyExchanges md \<and>
     opt_MACs (mod_Options m) = m_MACs md \<and> opt_HostKeyAlgorithms (mod_Options m) = m_HostKeyAlgorithms md \<and>
     opt_StripServerIdentificationComments (mod_Options m) = m_StripServerIdentificationComments md"

lemma build_module_Inr:
  "build_module ul New allowAll (name, md) = Inr (name', m) \<Longrightarrow> name' = name \<and> built ul New allowAll md m"
  by (auto simp: build_module_def built_def foldl_insert split: sum.splits)

lemma build_Inr:
  assumes "build ul New raw = Inr mods" and "distinct (map fst (c_Modules raw))"
  shows "dom mods = fst ` set (c_Modules raw)"
    and "mods name = Some m \<Longrightarrow>
      \<exists>md. map_of (c_Modules raw) name = Some md \<and> built ul New (c_allowAllTargets raw) md m"
proof -
  from assms(1) obtain ms where
    ms: "list_all2 (\<lambda>x y. build_module ul New (c_allowAllTargets raw) x = Inr y) (c_Modules raw) ms"
    and mods: "mods = map_of (rev ms)"
    by (auto simp: build_def res_bind_eq_Inr res_map_Inr_iff foldl_update)
  have step: "list_all2 (\<lambda>(n, md) (n', m). n' = n \<and> built ul New (c_allowAllTargets raw) md m) (c_Modules raw) ms"
    using ms by (rule list_all2_mono) (auto dest: build_module_Inr)
  then have names: "map fst ms = map fst (c_Modules raw)"
    by (induction rule: list_all2_induct) auto
  with assms(2) have dist: "distinct (map fst (rev ms))" by (simp add: rev_map [symmetric])
  show "dom mods = fst ` set (c_Modules raw)"
    using names by (simp add: mods dom_map_of_conv_image_fst) (metis list.set_map)
  show "\<exists>md. map_of (c_Modules raw) name = Some md \<and> built ul New (c_allowAllTargets raw) md m"
    if m: "mods name = Some m"
  proof -
    from m have "(name, m) \<in> set ms" by (auto simp: mods dest: map_of_SomeD)
    then obtain i where i: "i < length ms" "ms ! i = (name, m)" by (auto simp: in_set_conv_nth)
    with list_all2_nthD2 [OF step, of i] obtain md where
      "c_Modules raw ! i = (name, md)" "built ul New (c_allowAllTargets raw) md m" by auto
    moreover have "i < length (c_Modules raw)" using step i by (simp add: list_all2_lengthD)
    ultimately show ?thesis using assms(2) by (metis map_of_eq_Some_iff nth_mem)
  qed
qed

lemma Load_Inr:
  assumes "Load fs lib ul New order path flag = Inr mods" and "iteration_order order"
    and "decodes fs path doc" and "distinct (map fst (c_Modules doc))"
  shows "dom mods = fst ` set (modules_of doc)"
    and "mods name = Some m \<Longrightarrow>
      \<exists>md. map_of (modules_of doc) name = Some md \<and> module_valid lib (inherit doc md) \<and>
        built ul New (flag \<and> c_AllowedTargets doc = []) (inherit doc md) m"
proof -
  let ?ms = "map (\<lambda>(n, md). (n, inherit doc md)) (modules_of doc)"
  from assms(1,3) have "resolve_config lib flag doc = Inr (resolved doc flag)"
    and build: "build ul New ((resolved doc flag)\<lparr> c_Modules := order ?ms \<rparr>) = Inr mods"
    by (auto simp: Load_def res_bind_eq_Inr map_err_eq_Inr loadRawConfig_decoded resolve_config_Inr)
       (simp_all add: resolved_def)
  then have valid: "\<forall>(n, md)\<in>set (modules_of doc). module_valid lib (inherit doc md)"
    by (simp add: resolve_config_Inr)
  note order = iteration_order_keeps [OF assms(2), of ?ms]
  have fst: "map fst ?ms = map fst (modules_of doc)" by (simp add: case_prod_beta)
  have "distinct (map fst (modules_of doc))" using assms(4) by (simp add: modules_of_def)
  then have dist: "distinct (map fst ?ms)" by (simp only: fst)
  with order have dist': "distinct (map fst (c_Modules ((resolved doc flag)\<lparr> c_Modules := order ?ms \<rparr>)))"
    by simp
  have "dom mods = fst ` set ?ms" using build_Inr(1) [OF build dist'] order(1) by simp
  also have "\<dots> = fst ` set (modules_of doc)" using fst by (metis list.set_map)
  finally show "dom mods = fst ` set (modules_of doc)" .
  have "map_of (order ?ms) = map_of ?ms"
    using order(1) order(2) [THEN iffD2, OF dist] dist by (metis map_of_inject_set)
  then show "\<exists>md. map_of (modules_of doc) name = Some md \<and> module_valid lib (inherit doc md) \<and>
      built ul New (flag \<and> c_AllowedTargets doc = []) (inherit doc md) m" if "mods name = Some m"
    using build_Inr(2) [OF build dist' that] valid
    by (auto simp: map_of_inherit resolved_def dest: map_of_SomeD)
qed

text \<open>C24.  A loaded configuration has exactly the modules of the file, and each is ready to probe:
  its host key callback is the one of its own or the inherited known_hosts file, never missing,
  its target port is one of its allowed ports, and these are valid port numbers.\<close>

theorem Load_modules_ready:
  assumes "Load fs lib ul New order path flag = Inr mods" and "iteration_order order"
    and "decodes fs path doc" and "distinct (map fst (c_Modules doc))"
  shows "dom mods = fst ` set (modules_of doc) \<and>
    (\<forall>name m. mods name = Some m \<longrightarrow>
       (\<exists>md cb. map_of (modules_of doc) name = Some md \<and> New (known_hosts_of doc md) = Inr cb \<and>
          opt_HostKeyCallback (mod_Options m) = Some cb \<and>
          mod_TargetPort m = target_port_of doc md \<and> mod_AllowedPorts m = set (ports_of doc md) \<and>
          mod_TargetPort m \<in> mod_AllowedPorts m \<and> mod_AllowedPorts m \<subseteq> {1..65535}))"
proof (intro conjI allI impI)
  show "dom mods = fst ` set (modules_of doc)" by (rule Load_Inr [OF assms])
  fix name m
  assume "mods name = Some m"
  from Load_Inr(2) [OF assms this] obtain md where "map_of (modules_of doc) name = Some md"
    and "module_valid lib (inherit doc md)"
    and "built ul New (flag \<and> c_AllowedTargets doc = []) (inherit doc md) m" by blast
  then show "\<exists>md cb. map_of (modules_of doc) name = Some md \<and> New (known_hosts_of doc md) = Inr cb \<and>
      opt_HostKeyCallback (mod_Options m) = Some cb \<and>
      mod_TargetPort m = target_port_of doc md \<and> mod_AllowedPorts m = set (ports_of doc md) \<and>
      mod_TargetPort m \<in> mod_AllowedPorts m \<and> mod_AllowedPorts m \<subseteq> {1..65535}"
    by (auto simp: built_def module_valid_def elems_def)
qed

definition sample_New :: knownhosts_New where
  "sample_New file = (if file = ''/etc/known_hosts'' then Inr (\<lambda>_ _ _. None) else Inl (Err (OtherError ''ENOENT'' None) []))"

lemma sample_Load: "\<exists>mods. Load sample_files sample_library id sample_New rev ''c.yml'' True = Inr mods"
proof -
  let ?raw = "resolved sample_document True"
  have "case build id sample_New (?raw\<lparr> c_Modules := rev (c_Modules ?raw) \<rparr>) of Inl _ \<Rightarrow> False | Inr _ \<Rightarrow> True"
    by code_simp
  then show ?thesis by (simp add: Load_def sample_load split: sum.splits)
qed

lemma sample_decodes:
  "decodes sample_files ''c.yml'' sample_document" "distinct (map fst (c_Modules sample_document))"
  "iteration_order rev" "fst ` set (modules_of sample_document) = {''default'', ''legacy''}"
  by (simp_all add: decodes_def sample_files_def sample_document_def iteration_order_def modules_of_def)

theorem Load_modules_ready_witness:
  "\<exists>mods. Load sample_files sample_library id sample_New rev ''c.yml'' True = Inr mods \<and>
     dom mods = {''default'', ''legacy''}"
proof -
  obtain mods where l: "Load sample_files sample_library id sample_New rev ''c.yml'' True = Inr mods"
    using sample_Load by blast
  have "dom mods = fst ` set (modules_of sample_document)"
    by (rule Load_modules_ready [OF l sample_decodes(3,1,2), THEN conjunct1])
  with l sample_decodes(4) show ?thesis by metis
qed

text \<open>C10.  A loaded module admits a host only on somebody's word: with a list of its own or at the
  top level, exactly the hosts one of its patterns denotes, whatever the flag; without any list,
  every host, and then the operator has set the flag for all targets.\<close>

theorem Load_admits_listed_hosts:
  assumes "Load fs lib ul New order path flag = Inr mods" and "iteration_order order"
    and "decodes fs path doc" and "distinct (map fst (c_Modules doc))"
    and "mods name = Some m" and "map_of (modules_of doc) name = Some md"
  shows "if targets_of doc md = [] then flag \<and> targetAllowed Match host (mod_AllowedTargets m)
    else targetAllowed Match host (mod_AllowedTargets m) \<longleftrightarrow>
      (\<exists>pattern\<in>set (targets_of doc md). \<exists>mt. buildTarget ul pattern = Inr mt \<and> host \<in> allowed_hosts mt)"
proof -
  from Load_Inr(2) [OF assms(1-5)] assms(6) have
    res: "resolveAllowedTargets ul (targets_of doc md) (flag \<and> c_AllowedTargets doc = []) = Inr (mod_AllowedTargets m)"
    by (auto simp: built_def)
  show ?thesis
  proof (cases "targets_of doc md = []")
    case True
    with res show ?thesis by (auto simp: resolveAllowedTargets_def dest: sym split: if_splits)
  next
    case False
    with res have r: "res_map (buildTarget ul) (targets_of doc md) = Inr (mod_AllowedTargets m)"
      by (simp add: resolveAllowedTargets_def)
    from False res_map_Inr_all [OF r] res_map_Inr_ex [OF r] show ?thesis
      by (simp add: tm.allowed_iff) (metis sum.inject(2))
  qed
qed

theorem Load_admits_listed_hosts_witness:
  "\<exists>mods m. Load sample_files sample_library id sample_New rev ''c.yml'' True = Inr mods \<and>
     mods ''default'' = Some m \<and> targetAllowed Match ''a.example.com'' (mod_AllowedTargets m)"
proof -
  obtain mods where l: "Load sample_files sample_library id sample_New rev ''c.yml'' True = Inr mods"
    using sample_Load by blast
  have "''default'' \<in> dom mods" using Load_Inr(1) [OF l sample_decodes(3,1,2)] sample_decodes(4) by simp
  then obtain m where m: "mods ''default'' = Some m" by blast
  have "map_of (modules_of sample_document) ''default'' = Some zero_rawConfigModule"
    and t: "targets_of sample_document zero_rawConfigModule = [''*.example.com'']"
    and "buildTarget id ''*.example.com'' = Inr (wildcardMatcher ''example.com'')"
    by code_simp+
  moreover have "''a.example.com'' \<in> allowed_hosts (wildcardMatcher ''example.com'')"
    by (auto intro: exI [of _ "''a''"])
  ultimately show ?thesis
    using Load_admits_listed_hosts [OF l sample_decodes(3,1,2) m, of zero_rawConfigModule "''a.example.com''"] l m
    by (simp del: allowed_hosts.simps)
qed

end
