(* ===== verification/ProbeCorrect.thy ===== *)
theory ProbeCorrect
  imports Probe
begin

text \<open>
  Properties of \<open>Run\<close>.  The first section says what the callbacks leave behind after a
  sequence of events; the rest states what a probe's result means.
\<close>

section \<open>The state after the handshake's events\<close>

definition after_events :: "Options \<Rightarrow> Result \<Rightarrow> ssh_event list \<Rightarrow> handshake" where
  "after_events opts r evs =
     foldl (ssh_step (effectiveCallback opts)) \<lparr> hs_conn = new_watcher, hs_ch = None, hs_result = r \<rparr> evs"

definition key_verdict :: "Options \<Rightarrow> string \<times> string \<times> ssh_key \<Rightarrow> hostKeyResult" where
  "key_verdict opts = (\<lambda>(hostname, remote, key).
     case verifyHostKey (effectiveCallback opts) hostname remote key of
       None \<Rightarrow> \<lparr> hk_verified = True, hk_errorReason = [] \<rparr>
     | Some e \<Rightarrow> \<lparr> hk_verified = False, hk_errorReason = classifyHostKeyVerifyError e \<rparr>)"

lemma steps_conn: "hs_conn (foldl (ssh_step cb) h evs) = Reads (reads evs) (hs_conn h)"
  by (induction evs arbitrary: h rule: reads.induct)
     (simp_all add: hostKeyCallback_def transportReadyCallback_def Let_def split: option.splits)

lemma steps_ch_keep: "hs_ch h = Some x \<Longrightarrow> hs_ch (foldl (ssh_step cb) h evs) = Some x"
  by (induction evs arbitrary: h rule: reads.induct)
     (simp_all add: hostKeyCallback_def transportReadyCallback_def Let_def split: option.splits)

lemma steps_ch:
  "hs_ch h = None \<Longrightarrow>
   hs_ch (foldl (ssh_step (effectiveCallback opts)) h evs) =
     (case host_keys evs of [] \<Rightarrow> None | k # _ \<Rightarrow> Some (key_verdict opts k))"
proof (induction evs arbitrary: h rule: host_keys.induct)
  case (2 hostname remote key evs)
  then show ?case
    by (simp add: steps_ch_keep hostKeyCallback_def key_verdict_def split: option.splits)
qed (simp_all add: transportReadyCallback_def Let_def split: option.splits)

lemma steps_result:
  "ErrorPhase (hs_result (foldl (ssh_step cb) h evs)) = ErrorPhase (hs_result h)"
  "ErrorReason (hs_result (foldl (ssh_step cb) h evs)) = ErrorReason (hs_result h)"
  "Success (hs_result (foldl (ssh_step cb) h evs)) = Success (hs_result h)"
  "DNSLookup (hs_result (foldl (ssh_step cb) h evs)) = DNSLookup (hs_result h)"
  "DNSLookupSuccess (hs_result (foldl (ssh_step cb) h evs)) = DNSLookupSuccess (hs_result h)"
  "DNSLookupDuration (hs_result (foldl (ssh_step cb) h evs)) = DNSLookupDuration (hs_result h)"
  "TCPConnectSuccess (hs_result (foldl (ssh_step cb) h evs)) = TCPConnectSuccess (hs_result h)"
  "TCPConnectDuration (hs_result (foldl (ssh_step cb) h evs)) = TCPConnectDuration (hs_result h)"
  "TCPMSS (hs_result (foldl (ssh_step cb) h evs)) = TCPMSS (hs_result h)"
  "VersionExchangeSuccess (hs_result (foldl (ssh_step cb) h evs)) = VersionExchangeSuccess (hs_result h)"
  "VersionExchangeDuration (hs_result (foldl (ssh_step cb) h evs)) = VersionExchangeDuration (hs_result h)"
  "KeyExchangeSuccess (hs_result (foldl (ssh_step cb) h evs)) = KeyExchangeSuccess (hs_result h)"
  "ServerHostKeyVerifySuccess (hs_result (foldl (ssh_step cb) h evs)) = ServerHostKeyVerifySuccess (hs_result h)"
  "ServerIdent (hs_result (foldl (ssh_step cb) h evs)) = ServerIdent (hs_result h)"
  by (induction evs arbitrary: h rule: reads.induct,
      simp_all add: hostKeyCallback_def transportReadyCallback_def Let_def split: option.splits)

lemma after_events_simps [simp]:
  "hs_conn (after_events opts r evs) = Reads (reads evs) new_watcher"
  "hs_ch (after_events opts r evs) =
     (case host_keys evs of [] \<Rightarrow> None | k # _ \<Rightarrow> Some (key_verdict opts k))"
  by (simp_all add: after_events_def steps_conn steps_ch)

lemmas after_events_result [simp] =
  steps_result [where h = "\<lparr> hs_conn = new_watcher, hs_ch = None, hs_result = r \<rparr>"
    and cb = "effectiveCallback opts", folded after_events_def, simplified] for r opts

text \<open>The two ways through \<open>Run\<close>.\<close>

lemma Run_dial_failed:
  "w_dial w = Inl err \<Longrightarrow>
   \<exists>r. run_dial mss target w = Inl r \<and> Run mss target opts w = r\<lparr> Duration := w_end w - w_start w \<rparr>"
  by (simp add: Run_def run_dial_def Let_def)

definition run_handshake :: "Options \<Rightarrow> world \<Rightarrow> Result \<Rightarrow> Result" where
  "run_handshake opts w r =
     (let h = after_events opts r (w_events w)
      in run_success (run_host_key (hs_ch h)
           (run_outcome (w_ctxErr w) (w_handshakeErr w)
             (run_version opts (w_versionExchangeStart w) (hs_conn h) (hs_result h)))))"

lemma Run_dialled:
  "w_dial w = Inr c \<Longrightarrow>
   \<exists>r. run_dial mss target w = Inr r \<and>
       Run mss target opts w = (run_handshake opts w r)\<lparr> Duration := w_end w - w_start w \<rparr>"
  by (simp add: Run_def run_dial_def run_handshake_def after_events_def Let_def)

definition fresh :: "Result \<Rightarrow> bool" where
  "fresh r \<longleftrightarrow>
     ErrorPhase r = [] \<and> ErrorReason r = [] \<and> \<not> Success r \<and> \<not> KeyExchangeSuccess r \<and>
     \<not> VersionExchangeSuccess r \<and> \<not> ServerHostKeyVerifySuccess r \<and> TCPConnectSuccess r \<and>
     ServerIdent r = zero_ServerIdentification"

lemma run_dial_fresh: "run_dial mss target w = Inr r \<Longrightarrow> fresh r"
  by (auto simp: run_dial_def Let_def zero_Result_def fresh_def
      split: sum.splits option.splits raw_conn.splits if_splits)

definition aborted :: "world \<Rightarrow> bool" where
  "aborted w \<longleftrightarrow> (case w_handshakeErr w of None \<Rightarrow> False | Some e \<Rightarrow> errors_Is e errAbort)"

definition first_key :: "Options \<Rightarrow> world \<Rightarrow> hostKeyResult option" where
  "first_key opts w = (case host_keys (w_events w) of [] \<Rightarrow> None | k # _ \<Rightarrow> Some (key_verdict opts k))"

definition identified :: "world \<Rightarrow> bool" where
  "identified w \<longleftrightarrow> ident_line (read_bytes (w_events w)) \<noteq> None"

definition first_key_failed :: "Options \<Rightarrow> world \<Rightarrow> bool" where
  "first_key_failed opts w \<longleftrightarrow> (case first_key opts w of None \<Rightarrow> False | Some hk \<Rightarrow> \<not> hk_verified hk)"

lemma received_identified:
  "received (Reads (reads (w_events w)) new_watcher) = None \<longleftrightarrow> \<not> identified w"
  using received_Reads [of "reads (w_events w)"] by (auto simp: identified_def read_bytes_def)

lemma run_version_simps [simp]:
  "ErrorPhase (run_version opts s c r) = ErrorPhase r"
  "ErrorReason (run_version opts s c r) = ErrorReason r"
  "KeyExchangeSuccess (run_version opts s c r) = KeyExchangeSuccess r"
  "KeyExchangeDuration (run_version opts s c r) = KeyExchangeDuration r"
  "ServerHostKeyVerifySuccess (run_version opts s c r) = ServerHostKeyVerifySuccess r"
  "TCPConnectSuccess (run_version opts s c r) = TCPConnectSuccess r"
  "VersionExchangeSuccess (run_version opts s c r) \<longleftrightarrow> received c \<noteq> None \<or> VersionExchangeSuccess r"
  by (simp_all add: run_version_def Let_def split: option.splits sum.splits)

lemmas run_defs = run_success_def run_host_key_def run_outcome_def Let_def

lemma handshake_fields:
  assumes "fresh r"
  shows "KeyExchangeSuccess (run_handshake opts w r) \<longleftrightarrow> aborted w"
    and "VersionExchangeSuccess (run_handshake opts w r) \<longleftrightarrow> identified w"
    and "ServerHostKeyVerifySuccess (run_handshake opts w r) \<longleftrightarrow> (\<exists>hk. first_key opts w = Some hk \<and> hk_verified hk)"
    and "TCPConnectSuccess (run_handshake opts w r)"
    and "ErrorPhase (run_handshake opts w r) =
      (if first_key_failed opts w then ErrPhaseKeyExchange
       else if aborted w then []
       else if w_handshakeErr w = None \<or> identified w then ErrPhaseKeyExchange
       else ErrPhaseVersionExchange)"
    and "Success (run_handshake opts w r) \<longleftrightarrow> aborted w \<and> (\<exists>hk. first_key opts w = Some hk \<and> hk_verified hk)"
  using assms
  by (auto simp: run_handshake_def run_defs fresh_def first_key_def first_key_failed_def aborted_def
      received_identified split: option.splits list.splits)

lemma handshake_reason:
  assumes "fresh r"
  shows "ErrorReason (run_handshake opts w r) =
     (case first_key opts w of
        Some hk \<Rightarrow> if hk_verified hk then ErrorReason (run_outcome (w_ctxErr w) (w_handshakeErr w) r) else hk_errorReason hk
      | None \<Rightarrow> ErrorReason (run_outcome (w_ctxErr w) (w_handshakeErr w) r))"
  using assms
  by (simp add: run_handshake_def run_defs fresh_def first_key_def split: option.splits list.splits)

section \<open>What a successful probe means\<close>

lemma order_keys_after_ident:
  "handshake_order s checked evs \<Longrightarrow> (checked \<longrightarrow> ident_line s \<noteq> None) \<Longrightarrow>
     (checked \<or> host_keys evs \<noteq> [] \<longrightarrow> ident_line (s @ read_bytes evs) \<noteq> None) \<and>
     (list_ex is_ready evs \<longrightarrow> checked \<or> host_keys evs \<noteq> [])"
proof (induction s checked evs rule: handshake_order.induct)
  case (2 s checked t p evs)
  then show ?case using ident_line_append_Some by (fastforce simp: read_bytes_def)
next
  case (3 s checked h r k evs)
  then show ?case by (simp add: read_bytes_def)
qed (auto simp: read_bytes_def)

lemma contract_keys:
  assumes "newClientConn_contract w"
  shows "host_keys (w_events w) \<noteq> [] \<longrightarrow> identified w"
    and "transport_ready w \<longrightarrow> host_keys (w_events w) \<noteq> []"
  using assms order_keys_after_ident [of "[]" False "w_events w"]
  by (simp_all add: newClientConn_contract_def identified_def transport_ready_def)

lemma contract_ready_aborted:
  assumes "newClientConn_contract w" and "transport_ready w"
  shows "aborted w"
proof -
  from assms(2) obtain e where "e \<in> set (w_events w)" and "is_ready e"
    unfolding transport_ready_def list_ex_iff by blast
  then obtain t a where "ReadyEv t a \<in> set (w_events w)" by (metis is_ready.elims(2))
  moreover have "fst (transportReadyCallback t a h) = Some (Err errAbort [])" for h
    by (simp add: transportReadyCallback_def Let_def)
  ultimately obtain e' where "w_handshakeErr w = Some e'" and "kinds (Err errAbort []) \<subseteq> kinds e'"
    using assms(1) unfolding newClientConn_contract_def by blast
  then show ?thesis by (simp add: aborted_def errors_Is_kinds)
qed

lemma contract_aborted: "newClientConn_contract w \<Longrightarrow> aborted w \<longleftrightarrow> transport_ready w"
  using contract_ready_aborted [of w]
  by (force simp: newClientConn_contract_def aborted_def errors_Is_kinds)

lemma connectStart_simps [simp]:
  "connectStart [] = None"
  "connectStart (t # ts) = Some t"
proof -
  have "foldl CompareAndSwap_nil (Some t) ts = Some t"
    by (induction ts) (simp_all add: CompareAndSwap_nil_def)
  then show "connectStart (t # ts) = Some t" by (simp add: connectStart_def CompareAndSwap_nil_def)
qed (simp add: connectStart_def)

lemma Run_cases:
  obtains (failed) err where "w_dial w = Inl err"
      "Run mss target opts w =
        (let r0 = zero_Result\<lparr> DNSLookup := isHostname target \<rparr>;
             r1 = (case connectStart (w_controls w) of
                     Some t \<Rightarrow> if isHostname target
                       then r0\<lparr> DNSLookupSuccess := True, DNSLookupDuration := t - w_dialStart w \<rparr> else r0
                   | None \<Rightarrow> r0)
         in r1\<lparr> ErrorPhase := (if isHostname target \<and> w_controls w = [] then ErrPhaseDNSLookup else ErrPhaseTCPConnect),
                ErrorReason := classifyDialError (w_ctxErr w) err,
                Duration := w_end w - w_start w \<rparr>)"
  | (dialled) c r where "w_dial w = Inr c" "run_dial mss target w = Inr r" "fresh r"
      "Run mss target opts w = (run_handshake opts w r)\<lparr> Duration := w_end w - w_start w \<rparr>"
proof (cases "w_dial w")
  case (Inl err)
  then show ?thesis
    by (intro failed [OF Inl]) (cases "w_controls w"; simp add: Run_def run_dial_def zero_Result_def Let_def)
next
  case (Inr c)
  from Run_dialled [OF Inr, of mss target opts] show ?thesis
    using dialled [OF Inr] run_dial_fresh by blast
qed

lemma key_verdict_verified [simp]:
  "hk_verified (key_verdict opts (h, rm, k)) \<longleftrightarrow> verifyHostKey (effectiveCallback opts) h rm k = None"
  by (simp add: key_verdict_def split: option.splits)

lemma key_verdict_reason:
  "verifyHostKey (effectiveCallback opts) h rm k = Some e \<Longrightarrow>
     hk_errorReason (key_verdict opts (h, rm, k)) = classifyHostKeyVerifyError e"
  by (simp add: key_verdict_def)

lemma first_key_verified:
  "(\<exists>hk. first_key opts w = Some hk \<and> hk_verified hk) \<longleftrightarrow>
     (\<exists>h rm k ks. host_keys (w_events w) = (h, rm, k) # ks \<and>
        verifyHostKey (effectiveCallback opts) h rm k = None)"
  by (auto simp: first_key_def split: list.splits)

lemma Success_aborted:
  "Success (Run mss target opts w) \<longleftrightarrow>
     (\<exists>c. w_dial w = Inr c) \<and> aborted w \<and>
     (\<exists>h rm k ks. host_keys (w_events w) = (h, rm, k) # ks \<and>
        verifyHostKey (effectiveCallback opts) h rm k = None)"
  by (cases rule: Run_cases [of w mss target opts])
     (auto simp: handshake_fields first_key_verified zero_Result_def Let_def split: option.splits)

text \<open>C2.  A probe succeeds exactly when the TCP connection was made, the transport became ready
  and the first host key the server presented was verified.\<close>

theorem Run_success_iff:
  assumes "newClientConn_contract w"
  shows "Success (Run mss target opts w) \<longleftrightarrow>
     (\<exists>c. w_dial w = Inr c) \<and> transport_ready w \<and>
     (\<exists>h rm k ks. host_keys (w_events w) = (h, rm, k) # ks \<and>
        verifyHostKey (effectiveCallback opts) h rm k = None)"
  using assms by (simp add: Success_aborted contract_aborted)

lemma contract_error: "newClientConn_contract w \<Longrightarrow> w_handshakeErr w \<noteq> None"
  using contract_ready_aborted [of w] by (auto simp: newClientConn_contract_def aborted_def)

lemma run_dial_dns:
  assumes "w_dial w = Inr c" and "run_dial mss target w = Inr r" and "dial_contract w"
  shows "DNSLookup r \<longrightarrow> DNSLookupSuccess r"
  using assms
  by (cases "w_controls w")
     (auto simp: dial_contract_def run_dial_def Let_def split: raw_conn.splits sum.splits)

lemma handshake_dns:
  "DNSLookup (run_handshake opts w r) = DNSLookup r"
  "DNSLookupSuccess (run_handshake opts w r) = DNSLookupSuccess r"
  by (simp_all add: run_handshake_def run_defs run_version_def split: option.splits list.splits sum.splits)

text \<open>A probe of a server with a listed host key, step by step.\<close>

definition sample_algorithms :: algorithms where
  "sample_algorithms =
     \<lparr> alg_KeyExchange = ''curve25519-sha256'', alg_HostKey = ''ssh-ed25519'',
       alg_WriteCipher = ''aes128-ctr'', alg_ReadCipher = ''aes256-ctr'',
       alg_WriteMAC = ''hmac-sha2-256'', alg_ReadMAC = ''hmac-sha2-512'' \<rparr>"

definition sample_world :: world where
  "sample_world =
     \<lparr> w_start = 0, w_dialStart = 1, w_controls = [4, 6], w_dial = Inr OtherConn, w_dialEnd = 9,
       w_ctxErr = None, w_versionExchangeStart = 10,
       w_events =
         [ReadEv 12 ''hello'', ReadEv 13 [CHR 0x0A], ReadEv 15 ''SSH-2.0-Open'',
          ReadEv 20 (''SSH_9.6 x'' @ [CHR 0x0D, CHR 0x0A]),
          HostKeyEv ''h:22'' ''192.0.2.1:22'' (PlainKey ''k''), ReadyEv 31 sample_algorithms],
       w_handshakeErr = Some (Err (OtherError ''ssh: handshake failed'' None) [Err errAbort []]),
       w_end = 32 \<rparr>"

definition sample_options :: Options where
  "sample_options =
     \<lparr> opt_HostKeyCallback = Some (\<lambda>_ _ k. if k = PlainKey ''k'' then None else Some (Err (KeyError [''k'']) [])),
       opt_Ciphers = [], opt_KeyExchanges = [], opt_MACs = [], opt_HostKeyAlgorithms = [],
       opt_StripServerIdentificationComments = True \<rparr>"

lemma sample_handshake_order: "handshake_order [] False (w_events sample_world)"
  by code_simp

lemma sample_contract: "newClientConn_contract sample_world" "dial_contract sample_world"
  using sample_handshake_order
  by (auto simp: newClientConn_contract_def dial_contract_def sample_world_def transportReadyCallback_def
      Let_def transport_ready_def)

theorem Run_success_iff_witness:
  "Success (Run tcpNegotiatedMSS_other ''h:22'' sample_options sample_world)"
  unfolding Run_success_iff [OF sample_contract(1)]
  by (simp add: sample_world_def transport_ready_def sample_options_def effectiveCallback_def verifyHostKey_def)

section \<open>What a failed probe reports\<close>

text \<open>The documented reasons of each phase.\<close>

definition contextReasons :: "string set" where
  "contextReasons = {''timeout'', ''canceled''}"

definition dialReasons :: "string set" where
  "dialReasons = contextReasons \<union> {''connection_refused'', ''no_route_to_host'', ''network_unreachable'',
     ''connection_reset'', ''dns_failure'', ''other''}"

definition negotiationReasons :: "string set" where
  "negotiationReasons = {''no_common_kex_algorithm'', ''no_common_host_key_algorithm'', ''no_common_cipher'',
     ''no_common_mac'', ''no_common_algorithm''}"

definition handshakeReasons :: "string set" where
  "handshakeReasons = contextReasons \<union> negotiationReasons \<union> {''connection_reset'', ''other''}"

definition hostKeyReasons :: "string set" where
  "hostKeyReasons = {''server_host_key_unknown'', ''server_host_key_mismatch'', ''server_host_key_revoked'',
     ''server_host_key_rejected'', ''server_host_certificate_invalid''}"

lemma classifyDialError_range: "classifyDialError ctx err \<in> dialReasons"
  by (simp add: classifyDialError_def classifyContextError_def dialReasons_def contextReasons_def)

lemma classifyKexError_range: "classifyKexError ctx err \<in> handshakeReasons"
  by (simp add: classifyKexError_def classifyNegotiationError_def classifyContextError_def
      handshakeReasons_def contextReasons_def negotiationReasons_def split: option.splits)

lemma classifyHostKeyVerifyError_range: "classifyHostKeyVerifyError err \<in> hostKeyReasons"
  by (simp add: classifyHostKeyVerifyError_def hostKeyReasons_def split: option.splits)

lemma failed_key_reason:
  "first_key opts w = Some hk \<Longrightarrow> \<not> hk_verified hk \<Longrightarrow> hk_errorReason hk \<in> hostKeyReasons"
  by (auto simp: first_key_def key_verdict_def classifyHostKeyVerifyError_range
      split: list.splits option.splits)

lemma reasons_plain:
  "[] \<notin> dialReasons" "''user_auth_reached'' \<notin> dialReasons"
  "[] \<notin> handshakeReasons" "''user_auth_reached'' \<notin> handshakeReasons"
  "[] \<notin> hostKeyReasons" "''user_auth_reached'' \<notin> hostKeyReasons"
  by (simp_all add: dialReasons_def handshakeReasons_def contextReasons_def negotiationReasons_def
      hostKeyReasons_def)

lemma classified_reasons [simp]:
  "classifyDialError ctx err \<noteq> []" "classifyDialError ctx err \<noteq> ''user_auth_reached''"
  "classifyKexError ctx err \<noteq> []" "classifyKexError ctx err \<noteq> ''user_auth_reached''"
  "classifyHostKeyVerifyError err \<noteq> []" "classifyHostKeyVerifyError err \<noteq> ''user_auth_reached''"
  by (metis reasons_plain classifyDialError_range classifyKexError_range classifyHostKeyVerifyError_range)+

text \<open>
  The table of reasons in the README, with the phases each belongs to; \<^verbatim>\<open>other\<close> belongs to any.
\<close>

definition documented_reasons :: "(string \<times> string list) list" where
  "documented_reasons =
     (let any = [''dns_lookup'', ''tcp_connect'', ''version_exchange'', ''key_exchange'']
      in [(''connection_refused'', [''tcp_connect'']), (''no_route_to_host'', [''tcp_connect'']),
          (''network_unreachable'', [''tcp_connect'']), (''dns_failure'', [''dns_lookup'']),
          (''connection_reset'', [''tcp_connect'', ''version_exchange'', ''key_exchange'']),
          (''timeout'', any), (''canceled'', any),
          (''server_host_key_unknown'', [''key_exchange'']), (''server_host_key_mismatch'', [''key_exchange'']),
          (''server_host_key_revoked'', [''key_exchange'']), (''server_host_certificate_invalid'', [''key_exchange'']),
          (''server_host_key_rejected'', [''key_exchange'']),
          (''no_common_kex_algorithm'', [''key_exchange'']), (''no_common_host_key_algorithm'', [''key_exchange'']),
          (''no_common_cipher'', [''key_exchange'']), (''no_common_mac'', [''key_exchange'']),
          (''no_common_algorithm'', [''key_exchange'']), (''user_auth_reached'', [''key_exchange'']),
          (''other'', any)])"

definition documented_error :: "string \<Rightarrow> string \<Rightarrow> bool" where
  "documented_error phase reason \<longleftrightarrow>
     (case map_of documented_reasons reason of None \<Rightarrow> False | Some phases \<Rightarrow> phase \<in> set phases)"

text \<open>
  What the standard library and the SSH library promise about their errors: resolving a name does
  not fail with the error number of a connection attempt, an attempt does not fail with a DNS
  error, and the negotiation of algorithms fails only after the server has identified itself.
\<close>

definition connect_errnos :: "errkind set" where
  "connect_errnos = Errno ` {ECONNREFUSED, EHOSTUNREACH, ENETUNREACH, ECONNRESET}"

definition error_contract :: "string \<Rightarrow> world \<Rightarrow> bool" where
  "error_contract target w \<longleftrightarrow>
     (\<forall>err. w_dial w = Inl err \<longrightarrow>
        (if isHostname target \<and> w_controls w = [] then kinds err \<inter> connect_errnos = {}
         else \<not> as_DNSError err)) \<and>
     (\<forall>e. w_handshakeErr w = Some e \<and> as_NegotiationError e \<noteq> None \<longrightarrow> identified w)"

lemma documented_entries:
  "documented_error ''tcp_connect'' ''connection_refused''" "documented_error ''tcp_connect'' ''no_route_to_host''"
  "documented_error ''tcp_connect'' ''network_unreachable''" "documented_error ''dns_lookup'' ''dns_failure''"
  "documented_error ''tcp_connect'' ''connection_reset''" "documented_error ''version_exchange'' ''connection_reset''"
  "documented_error ''key_exchange'' ''connection_reset''" "documented_error ''dns_lookup'' ''timeout''"
  "documented_error ''tcp_connect'' ''timeout''" "documented_error ''version_exchange'' ''timeout''"
  "documented_error ''key_exchange'' ''timeout''" "documented_error ''dns_lookup'' ''canceled''"
  "documented_error ''tcp_connect'' ''canceled''" "documented_error ''version_exchange'' ''canceled''"
  "documented_error ''key_exchange'' ''canceled''" "documented_error ''dns_lookup'' ''other''"
  "documented_error ''tcp_connect'' ''other''" "documented_error ''version_exchange'' ''other''"
  "documented_error ''key_exchange'' ''other''" "documented_error ''key_exchange'' ''server_host_key_unknown''"
  "documented_error ''key_exchange'' ''server_host_key_mismatch''" "documented_error ''key_exchange'' ''server_host_key_revoked''"
  "documented_error ''key_exchange'' ''server_host_certificate_invalid''" "documented_error ''key_exchange'' ''server_host_key_rejected''"
  "documented_error ''key_exchange'' ''no_common_kex_algorithm''" "documented_error ''key_exchange'' ''no_common_host_key_algorithm''"
  "documented_error ''key_exchange'' ''no_common_cipher''" "documented_error ''key_exchange'' ''no_common_mac''"
  "documented_error ''key_exchange'' ''no_common_algorithm''" "documented_error ''key_exchange'' ''user_auth_reached''"
  by code_simp+

lemma dial_error_documented:
  "kinds err \<inter> connect_errnos = {} \<Longrightarrow> documented_error ''dns_lookup'' (classifyDialError ctx err)"
  "\<not> as_DNSError err \<Longrightarrow> documented_error ''tcp_connect'' (classifyDialError ctx err)"
  by (simp_all add: classifyDialError_def classifyContextError_def connect_errnos_def errors_Is_kinds documented_entries)

lemma kex_error_documented:
  "documented_error ''key_exchange'' (classifyKexError ctx err)"
  "as_NegotiationError err = None \<Longrightarrow> documented_error ''version_exchange'' (classifyKexError ctx err)"
  by (simp_all add: classifyKexError_def classifyNegotiationError_def classifyContextError_def documented_entries
      split: option.split)

lemma host_key_error_documented: "r \<in> hostKeyReasons \<Longrightarrow> documented_error ''key_exchange'' r"
  by (auto simp: hostKeyReasons_def documented_entries)

lemma handshake_not_dial:
  "\<not> documented_error ''key_exchange'' r \<and> \<not> documented_error ''version_exchange'' r \<and> \<not> documented_error [] r \<and> r \<noteq> []"
  if "r \<in> {''connection_refused'', ''no_route_to_host'', ''network_unreachable'', ''dns_failure''}"
proof -
  have "\<not> documented_error p r"
    if "p \<in> {''key_exchange'', ''version_exchange'', []}"
      "r \<in> {''connection_refused'', ''no_route_to_host'', ''network_unreachable'', ''dns_failure''}" for p r
    using that by (elim insertE emptyE; simp only:; code_simp)
  with that show ?thesis by auto
qed

lemma handshake_error_documented:
  assumes "fresh r" and "\<And>e. w_handshakeErr w = Some e \<Longrightarrow> as_NegotiationError e \<noteq> None \<Longrightarrow> identified w"
  shows "ErrorPhase (run_handshake opts w r) = [] \<and> ErrorReason (run_handshake opts w r) = [] \<or>
    documented_error (ErrorPhase (run_handshake opts w r)) (ErrorReason (run_handshake opts w r))"
proof (cases "first_key_failed opts w")
  case True
  then obtain hk where "first_key opts w = Some hk" "\<not> hk_verified hk"
    by (auto simp: first_key_failed_def split: option.splits)
  with True show ?thesis
    using failed_key_reason [of opts w hk] host_key_error_documented
    by (simp add: handshake_fields [OF assms(1)] handshake_reason [OF assms(1)])
next
  case False
  then have reason: "ErrorReason (run_handshake opts w r) = ErrorReason (run_outcome (w_ctxErr w) (w_handshakeErr w) r)"
    by (auto simp: handshake_reason [OF assms(1)] first_key_failed_def split: option.splits)
  show ?thesis
  proof (cases "w_handshakeErr w")
    case None
    note documented_entries
    with None False show ?thesis
      unfolding reason handshake_fields(5) [OF assms(1)] by (simp add: run_outcome_def aborted_def)
  next
    case (Some e)
    show ?thesis
    proof (cases "errors_Is e errAbort")
      case True
      with Some False assms(1) show ?thesis
        unfolding reason handshake_fields(5) [OF assms(1)] by (simp add: run_outcome_def aborted_def fresh_def)
    next
      case no_abort: False
      have "as_NegotiationError e = None \<or> identified w" using assms(2) [OF Some] by blast
      with Some False no_abort show ?thesis
        unfolding reason handshake_fields(5) [OF assms(1)]
        by (auto simp: run_outcome_def aborted_def kex_error_documented)
    qed
  qed
qed

lemma dial_reason_meaning:
  "classifyDialError ctx err = ''connection_refused'' \<Longrightarrow> errors_Is err (Errno ECONNREFUSED)"
  "classifyDialError ctx err = ''no_route_to_host'' \<Longrightarrow> errors_Is err (Errno EHOSTUNREACH)"
  "classifyDialError ctx err = ''network_unreachable'' \<Longrightarrow> errors_Is err (Errno ENETUNREACH)"
  "classifyDialError ctx err = ''dns_failure'' \<Longrightarrow> as_DNSError err"
  by (auto simp: classifyDialError_def classifyContextError_def split: if_splits)

text \<open>C29.  The error labels of a probe are those of the documented table: either both are empty, or the
  reason is one of the table's and the phase one the table gives for it.  A refused connection,
  an unreachable host or network and a DNS failure are only reported for a failed dial whose error
  says so.\<close>

theorem Run_error_labels_documented:
  assumes "error_contract target w"
  shows "(ErrorPhase (Run mss target opts w) = [] \<and> ErrorReason (Run mss target opts w) = [] \<or>
      documented_error (ErrorPhase (Run mss target opts w)) (ErrorReason (Run mss target opts w))) \<and>
    (\<forall>reason errno. (reason, errno) \<in> {(''connection_refused'', ECONNREFUSED), (''no_route_to_host'', EHOSTUNREACH),
        (''network_unreachable'', ENETUNREACH)} \<and> ErrorReason (Run mss target opts w) = reason \<longrightarrow>
       (\<exists>err. w_dial w = Inl err \<and> errors_Is err (Errno errno))) \<and>
    (ErrorReason (Run mss target opts w) = ''dns_failure'' \<longrightarrow> (\<exists>err. w_dial w = Inl err \<and> as_DNSError err))"
proof (cases rule: Run_cases [of w mss target opts])
  case (failed err)
  have doc: "documented_error (ErrorPhase (Run mss target opts w)) (ErrorReason (Run mss target opts w))"
    using assms failed(1) unfolding failed(2) error_contract_def
    by (auto simp: dial_error_documented Let_def)
  have "ErrorReason (Run mss target opts w) = classifyDialError (w_ctxErr w) err"
    unfolding failed(2) by (simp add: Let_def)
  with doc failed(1) dial_reason_meaning [of "w_ctxErr w" err] show ?thesis by auto
next
  case (dialled c r)
  let ?p = "ErrorPhase (run_handshake opts w r)" and ?q = "ErrorReason (run_handshake opts w r)"
  have doc: "?p = [] \<and> ?q = [] \<or> documented_error ?p ?q"
    using assms by (intro handshake_error_documented [OF dialled(3)]) (auto simp: error_contract_def)
  have "?p \<in> {[], ''key_exchange'', ''version_exchange''}" by (simp add: handshake_fields [OF dialled(3)])
  with doc have "?q \<notin> {''connection_refused'', ''no_route_to_host'', ''network_unreachable'', ''dns_failure''}"
    using handshake_not_dial [of ?q] by auto
  with doc show ?thesis unfolding dialled(4) by simp
qed

theorem Run_error_labels_documented_witness:
  "let w = sample_world\<lparr> w_controls := [], w_dial := Inl (Err OpError [Err (DNSError False) []]) \<rparr>
   in documented_error (ErrorPhase (Run tcpNegotiatedMSS_other ''h:22'' sample_options w))
        (ErrorReason (Run tcpNegotiatedMSS_other ''h:22'' sample_options w))"
proof -
  let ?w = "sample_world\<lparr> w_controls := [], w_dial := Inl (Err OpError [Err (DNSError False) []]) \<rparr>"
  have h: "isHostname ''h:22''" by code_simp
  have "as_NegotiationError (Err (OtherError ''ssh: handshake failed'' None) [Err errAbort []]) = None" by code_simp
  with h have "error_contract ''h:22'' ?w" by (auto simp: error_contract_def sample_world_def connect_errnos_def)
  moreover have "ErrorPhase (Run tcpNegotiatedMSS_other ''h:22'' sample_options ?w) \<noteq> []"
    using h by (simp add: Run_def run_dial_def Let_def)
  ultimately show ?thesis
    unfolding Let_def using Run_error_labels_documented [of "''h:22''" ?w tcpNegotiatedMSS_other sample_options] by blast
qed

lemma Run_ErrorPhase_iff:
  assumes "newClientConn_contract w"
  shows "ErrorPhase (Run mss target opts w) = [] \<longleftrightarrow> Success (Run mss target opts w)"
proof (cases rule: Run_cases [of w mss target opts])
  case (dialled c r)
  have "aborted w \<longrightarrow> first_key opts w \<noteq> None"
    using contract_keys(2) [OF assms] contract_aborted [OF assms]
    by (auto simp: first_key_def split: list.splits)
  moreover have "w_handshakeErr w \<noteq> None" using assms by (rule contract_error)
  ultimately show ?thesis using dialled
    by (auto simp: handshake_fields first_key_failed_def split: option.splits)
qed (auto simp: zero_Result_def Let_def split: option.splits)

text \<open>Success and error labels tell the same story: a probe succeeded exactly when it reports
  no error phase, exactly when it reports no error reason, and it never reaches user
  authentication.\<close>

theorem Run_error_labels_consistent:
  assumes "newClientConn_contract w"
  shows "(ErrorPhase (Run mss target opts w) = [] \<longleftrightarrow> Success (Run mss target opts w)) \<and>
    (ErrorReason (Run mss target opts w) = [] \<longleftrightarrow> Success (Run mss target opts w)) \<and>
    ErrorReason (Run mss target opts w) \<noteq> ''user_auth_reached''"
proof (cases rule: Run_cases [of w mss target opts])
  case (failed err)
  then show ?thesis by (auto simp: zero_Result_def Let_def split: option.splits)
next
  case (dialled c r)
  have err: "w_handshakeErr w \<noteq> None" using assms by (rule contract_error)
  have key: "aborted w \<Longrightarrow> first_key opts w \<noteq> None"
    using contract_keys(2) [OF assms] contract_aborted [OF assms]
    by (simp add: first_key_def split: list.splits)
  show ?thesis
    using dialled err key failed_key_reason [of opts w] reasons_plain(5,6)
    by (auto simp: handshake_fields handshake_reason first_key_failed_def run_outcome_def aborted_def
        fresh_def split: option.splits)
qed

theorem Run_error_labels_consistent_witness:
  "ErrorPhase (Run tcpNegotiatedMSS_other ''h:22'' sample_options sample_world) = [] \<and>
   ErrorReason (Run tcpNegotiatedMSS_other ''h:22'' sample_options sample_world) = []"
proof -
  have "Success (Run tcpNegotiatedMSS_other ''h:22'' sample_options sample_world)" by code_simp
  then show ?thesis
    using Run_error_labels_consistent [OF sample_contract(1), of tcpNegotiatedMSS_other "''h:22''" sample_options]
    by simp
qed

text \<open>C12.  The phases succeed in order, each only after the one before it, and the error phase names
  the first one that did not: DNS lookup (of a host name), TCP connect, version exchange, key
  exchange with the host key check.\<close>

theorem Run_phases_in_order:
  assumes "newClientConn_contract w" and "dial_contract w" and "result = Run mss target opts w"
  shows "ErrorPhase result =
      (if DNSLookup result \<and> \<not> DNSLookupSuccess result then ''dns_lookup''
       else if \<not> TCPConnectSuccess result then ''tcp_connect''
       else if \<not> VersionExchangeSuccess result then ''version_exchange''
       else if \<not> KeyExchangeSuccess result \<or> \<not> ServerHostKeyVerifySuccess result then ''key_exchange''
       else []) \<and>
    (ServerHostKeyVerifySuccess result \<or> KeyExchangeSuccess result \<longrightarrow> VersionExchangeSuccess result) \<and>
    (VersionExchangeSuccess result \<longrightarrow> TCPConnectSuccess result) \<and>
    (TCPConnectSuccess result \<and> DNSLookup result \<longrightarrow> DNSLookupSuccess result)"
proof (cases rule: Run_cases [of w mss target opts])
  case (failed err)
  then show ?thesis unfolding assms(3)
    by (cases "w_controls w") (auto simp: zero_Result_def Let_def)
next
  case (dialled c r)
  have dns: "DNSLookup r \<longrightarrow> DNSLookupSuccess r"
    using dialled(1,2) assms(2) by (rule run_dial_dns)
  have key: "aborted w \<longrightarrow> first_key opts w \<noteq> None" "first_key opts w \<noteq> None \<longrightarrow> identified w"
    using contract_keys [OF assms(1)] contract_aborted [OF assms(1)]
    by (auto simp: first_key_def split: list.splits)
  have "w_handshakeErr w \<noteq> None" using assms(1) by (rule contract_error)
  with dialled dns key show ?thesis unfolding assms(3)
    by (auto simp: handshake_fields handshake_dns first_key_failed_def split: option.splits)
qed

theorem Run_phases_in_order_witness:
  "KeyExchangeSuccess (Run tcpNegotiatedMSS_other ''h:22'' sample_options sample_world) \<and>
   VersionExchangeSuccess (Run tcpNegotiatedMSS_other ''h:22'' sample_options sample_world) \<and>
   DNSLookupSuccess (Run tcpNegotiatedMSS_other ''h:22'' sample_options sample_world)"
proof -
  have "KeyExchangeSuccess (Run tcpNegotiatedMSS_other ''h:22'' sample_options sample_world)"
    and "DNSLookup (Run tcpNegotiatedMSS_other ''h:22'' sample_options sample_world)" by code_simp+
  with Run_phases_in_order [OF sample_contract refl, of tcpNegotiatedMSS_other "''h:22''" sample_options]
  show ?thesis by blast
qed

section \<open>The host key decides\<close>

lemma after_events_snoc:
  "after_events opts r (evs @ [e]) = ssh_step (effectiveCallback opts) (after_events opts r evs) e"
  by (simp add: after_events_def)

lemma handshake_algorithms:
  assumes "w_events w = pre @ [ReadyEv t a]"
  shows "KEXAlgorithm (run_handshake opts w r) = alg_KeyExchange a"
    "ServerHostKeyAlgorithm (run_handshake opts w r) = alg_HostKey a"
    "EncryptionClientToServer (run_handshake opts w r) = alg_WriteCipher a"
    "EncryptionServerToClient (run_handshake opts w r) = alg_ReadCipher a"
    "MACClientToServer (run_handshake opts w r) = alg_WriteMAC a"
    "MACServerToClient (run_handshake opts w r) = alg_ReadMAC a"
  by (simp_all add: assms run_handshake_def run_defs run_version_def after_events_snoc transportReadyCallback_def
      split: option.splits list.splits sum.splits)

lemma first_key_verdict:
  assumes "host_keys (w_events w) = (h, rm, k) # ks"
    and "verifyHostKey (effectiveCallback opts) h rm k = Some e"
  shows "first_key_failed opts w" "first_key opts w = Some (key_verdict opts (h, rm, k))"
  using assms by (simp_all add: first_key_failed_def first_key_def)

text \<open>C13.  When the first host key a server presents fails verification, the probe fails with that
  reason, in phase \<^verbatim>\<open>key_exchange\<close>, whatever happens afterwards (later host keys, timeouts,
  resets), and the algorithms the transport negotiated are reported nevertheless.\<close>

theorem Run_failed_host_key_outranks:
  assumes "w_dial w = Inr c" and "host_keys (w_events w) = (h, rm, k) # ks"
    and "verifyHostKey (effectiveCallback opts) h rm k = Some e"
    and "result = Run mss target opts w"
  shows "\<not> Success result \<and> \<not> ServerHostKeyVerifySuccess result \<and>
    ErrorPhase result = ''key_exchange'' \<and> ErrorReason result = classifyHostKeyVerifyError e \<and>
    (\<forall>pre t a. w_events w = pre @ [ReadyEv t a] \<longrightarrow>
       KEXAlgorithm result = alg_KeyExchange a \<and> ServerHostKeyAlgorithm result = alg_HostKey a \<and>
       EncryptionClientToServer result = alg_WriteCipher a \<and> EncryptionServerToClient result = alg_ReadCipher a \<and>
       MACClientToServer result = alg_WriteMAC a \<and> MACServerToClient result = alg_ReadMAC a)"
proof (cases rule: Run_cases [of w mss target opts])
  case (dialled c r)
  with first_key_verdict [OF assms(2,3)] key_verdict_reason [OF assms(3)] assms(3) show ?thesis
    unfolding assms(4)
    by (auto simp: handshake_fields handshake_reason handshake_algorithms)
qed (simp add: assms(1))

definition mismatch_world :: world where
  "mismatch_world = sample_world\<lparr> w_events :=
     [ReadEv 15 (''SSH-2.0-OpenSSH_9.6'' @ [CHR 0x0A]), HostKeyEv ''h:22'' ''192.0.2.1:22'' (PlainKey ''other''),
      HostKeyEv ''h:22'' ''192.0.2.1:22'' (PlainKey ''k''), ReadyEv 31 sample_algorithms] \<rparr>"

theorem Run_failed_host_key_outranks_witness:
  "ErrorReason (Run tcpNegotiatedMSS_linux ''[2001:db8::1]:22'' sample_options mismatch_world) = ''server_host_key_mismatch'' \<and>
   KEXAlgorithm (Run tcpNegotiatedMSS_linux ''[2001:db8::1]:22'' sample_options mismatch_world) = ''curve25519-sha256''"
proof -
  let ?e = "Err (KeyError [''k'']) []"
  have "w_dial mismatch_world = Inr OtherConn"
    and "host_keys (w_events mismatch_world) =
      (''h:22'', ''192.0.2.1:22'', PlainKey ''other'') # [(''h:22'', ''192.0.2.1:22'', PlainKey ''k'')]"
    and "verifyHostKey (effectiveCallback sample_options) ''h:22'' ''192.0.2.1:22'' (PlainKey ''other'') = Some ?e"
    by (simp_all add: mismatch_world_def sample_world_def sample_options_def effectiveCallback_def verifyHostKey_def)
  from Run_failed_host_key_outranks [OF this refl]
  have "ErrorReason (Run tcpNegotiatedMSS_linux ''[2001:db8::1]:22'' sample_options mismatch_world) =
      classifyHostKeyVerifyError ?e"
    and "\<And>pre t a. w_events mismatch_world = pre @ [ReadyEv t a] \<Longrightarrow>
      KEXAlgorithm (Run tcpNegotiatedMSS_linux ''[2001:db8::1]:22'' sample_options mismatch_world) = alg_KeyExchange a"
    by blast+
  moreover have "classifyHostKeyVerifyError ?e = ''server_host_key_mismatch''" by code_simp
  moreover have "w_events mismatch_world = butlast (w_events mismatch_world) @ [ReadyEv 31 sample_algorithms]"
    by (simp add: mismatch_world_def)
  ultimately show ?thesis by (simp add: sample_algorithms_def)
qed

text \<open>C3.  With a known_hosts callback a probe enforces the known_hosts policy of the code on the first host key:
  it can only succeed with a key the policy accepts, and a key the policy rejects is reported
  with the policy's reason.\<close>

theorem Run_enforces_known_hosts:
  assumes "newClientConn_contract w" and "opt_HostKeyCallback opts = Some cb"
    and "w_dial w = Inr c" and "host_keys (w_events w) = (h, rm, k) # ks"
    and "knownhosts_callback kh h rm cb" and "wire_key k"
  shows "case policy kh k of
      Accept \<Rightarrow> Success (Run mss target opts w) = transport_ready w
    | Reject reason \<Rightarrow> \<not> Success (Run mss target opts w) \<and> ErrorReason (Run mss target opts w) = reason"
proof -
  have v: "verdict_of (verifyHostKey (effectiveCallback opts) h rm k) = policy kh k"
    using verify_policy [OF assms(5,6)] assms(2) by (simp add: effectiveCallback_def)
  show ?thesis
  proof (cases "verifyHostKey (effectiveCallback opts) h rm k")
    case None
    with v have "policy kh k = Accept" by (simp add: verdict_of_def)
    with None assms(3,4) show ?thesis by (simp add: Success_aborted contract_aborted [OF assms(1)])
  next
    case (Some e)
    with v have "policy kh k = Reject (classifyHostKeyVerifyError e)" by (simp add: verdict_of_def)
    moreover have "ErrorReason (Run mss target opts w) = classifyHostKeyVerifyError e"
      using first_key_verdict [OF assms(4) Some] key_verdict_reason [OF Some] Some assms(3)
      by (cases rule: Run_cases [of w mss target opts]) (simp_all add: handshake_reason)
    ultimately show ?thesis using Some assms(4) by (simp add: Success_aborted)
  qed
qed

theorem Run_enforces_known_hosts_witness:
  "Success (Run tcpNegotiatedMSS_linux ''h:22''
     (sample_options\<lparr> opt_HostKeyCallback := Some (lookup_callback
       \<lparr> listed = {PlainKey ''k''}, authorities = {}, revoked = {}, valid_cert = (\<lambda>_. True) \<rparr>) \<rparr>)
     sample_world)"
proof -
  let ?kh = "\<lparr> listed = {PlainKey ''k''}, authorities = {}, revoked = {}, valid_cert = (\<lambda>_. True) \<rparr>"
  let ?opts = "sample_options\<lparr> opt_HostKeyCallback := Some (lookup_callback ?kh) \<rparr>"
  have "host_keys (w_events sample_world) = (''h:22'', ''192.0.2.1:22'', PlainKey ''k'') # []"
    and "w_dial sample_world = Inr OtherConn" and "transport_ready sample_world"
    by (simp_all add: sample_world_def transport_ready_def)
  moreover have "policy ?kh (PlainKey ''k'') = Accept" by (simp add: plain_policy_def)
  ultimately show ?thesis
    using Run_enforces_known_hosts [OF sample_contract(1), of ?opts "lookup_callback ?kh" OtherConn "''h:22''"
        "''192.0.2.1:22''" "PlainKey ''k''" "[]" ?kh tcpNegotiatedMSS_linux "''h:22''"]
      lookup_callback_contract
    by simp
qed

section \<open>The server's identification\<close>

lemma handshake_ident:
  assumes "fresh r"
  shows "ServerIdent (run_handshake opts w r) =
    (case ident_line (read_bytes (w_events w)) of
       None \<Rightarrow> zero_ServerIdentification
     | Some l \<Rightarrow>
         (case parseServerIdentification (TrimSuffix l [CHR 0x0D]) of
            Inl _ \<Rightarrow> zero_ServerIdentification
          | Inr ident \<Rightarrow> if opt_StripServerIdentificationComments opts then withoutComments ident else ident))"
proof -
  have "ServerIdent (run_handshake opts w r) =
      ServerIdent (run_version opts (w_versionExchangeStart w) (Reads (reads (w_events w)) new_watcher)
        (hs_result (after_events opts r (w_events w))))"
    by (simp add: run_handshake_def run_defs split: option.splits list.splits)
  also have "\<dots> = (case ident_line (read_bytes (w_events w)) of
       None \<Rightarrow> zero_ServerIdentification
     | Some l \<Rightarrow>
         (case parseServerIdentification (TrimSuffix l [CHR 0x0D]) of
            Inl _ \<Rightarrow> zero_ServerIdentification
          | Inr ident \<Rightarrow> if opt_StripServerIdentificationComments opts then withoutComments ident else ident))"
    using assms received_identified [of w] parse_Reads [of "reads (w_events w)"]
    by (auto simp: run_version_def identified_def read_bytes_def fresh_def split: option.splits sum.splits)
  finally show ?thesis .
qed

lemma Run_ident_labels:
  assumes "l \<in> set (ident_labels (ServerIdent (Run mss target opts w)))"
  shows "list_all is_printable l \<and> length l \<le> 255"
proof (cases rule: Run_cases [of w mss target opts])
  case (failed err)
  with assms show ?thesis
    by (auto simp: Let_def zero_Result_def ident_labels_def zero_ServerIdentification_def split: option.splits if_splits)
next
  case (dialled c r)
  let ?l = "ident_line (read_bytes (w_events w))"
  have "ServerIdent (Run mss target opts w) = zero_ServerIdentification \<or>
    (\<exists>raw ident. parseServerIdentification raw = Inr ident \<and>
       ServerIdent (Run mss target opts w) \<in> {ident, withoutComments ident})"
    by (cases ?l; cases "parseServerIdentification (TrimSuffix (the ?l) [CHR 0x0D])")
       (auto simp: dialled handshake_ident)
  then consider "ServerIdent (Run mss target opts w) = zero_ServerIdentification"
    | raw ident where "parseServerIdentification raw = Inr ident"
      "ServerIdent (Run mss target opts w) \<in> {ident, withoutComments ident}" by blast
  then show ?thesis
  proof cases
    case 1
    with assms show ?thesis by (auto simp: ident_labels_def zero_ServerIdentification_def)
  next
    case 2
    have g: "ident_grammar raw ident" using 2(1) by (rule parse_sound)
    have "ident_labels (withoutComments ident\<lparr> RFCConformant := b \<rparr>) = ident_labels (withoutComments ident)" for b
      by (simp add: ident_labels_def)
    with 2(2) assms ident_labels_safe [OF g] ident_labels_safe [OF withoutComments_grammar [OF g]]
    show ?thesis by auto
  qed
qed

text \<open>C26.  The version exchange succeeds exactly when the bytes the server sent, however they were
  split over reads, contain a complete line starting with \<^verbatim>\<open>SSH-\<close>; the reported identification
  is the parse of the first such line, without its comments when they are to be stripped, and
  empty when it does not parse.  This holds even when the key exchange fails afterwards.\<close>

theorem Run_reports_identification:
  "VersionExchangeSuccess (Run mss target opts w) =
     ((\<exists>c. w_dial w = Inr c) \<and> ident_line (read_bytes (w_events w)) \<noteq> None) \<and>
   ServerIdent (Run mss target opts w) =
     (case (w_dial w, ident_line (read_bytes (w_events w))) of
        (Inr _, Some l) \<Rightarrow>
          (case parseServerIdentification (TrimSuffix l [CHR 0x0D]) of
             Inl _ \<Rightarrow> zero_ServerIdentification
           | Inr ident \<Rightarrow> if opt_StripServerIdentificationComments opts then withoutComments ident else ident)
      | _ \<Rightarrow> zero_ServerIdentification)"
  by (cases rule: Run_cases [of w mss target opts])
     (auto simp: handshake_fields handshake_ident identified_def zero_Result_def Let_def split: option.splits)

section \<open>Durations\<close>

fun event_times :: "ssh_event list \<Rightarrow> int list" where
  "event_times [] = []"
| "event_times (ReadEv t _ # evs) = t # event_times evs"
| "event_times (ReadyEv t _ # evs) = t # event_times evs"
| "event_times (HostKeyEv _ _ _ # evs) = event_times evs"

text \<open>The monotonic clock: readings never go back along the probe.\<close>

definition monotonic_clock :: "world \<Rightarrow> bool" where
  "monotonic_clock w \<longleftrightarrow>
     w_start w \<le> w_dialStart w \<and> w_dialStart w \<le> w_dialEnd w \<and>
     list_all (\<lambda>t. w_dialStart w \<le> t \<and> t \<le> w_dialEnd w) (w_controls w) \<and>
     w_dialEnd w \<le> w_versionExchangeStart w \<and>
     sorted (w_versionExchangeStart w # event_times (w_events w) @ [w_end w])"

lemma event_times_append [simp]: "event_times (xs @ ys) = event_times xs @ event_times ys"
  by (induction xs rule: event_times.induct) simp_all

lemma reads_append: "reads (xs @ ys) = reads xs @ reads ys"
  by (induction xs rule: reads.induct) simp_all

lemma reads_times: "fst ` set (reads evs) \<subseteq> set (event_times evs)"
  by (induction evs rule: event_times.induct) auto

lemma Reads_append: "Reads (xs @ ys) w = Reads ys (Reads xs w)"
  by (induction xs arbitrary: w) auto

lemma received_keep:
  "received (Reads xs new_watcher) = Some t \<Longrightarrow> received (Reads (xs @ ys) new_watcher) = Some t"
  by (simp add: Reads_append Reads_done)

lemma kex_duration:
  assumes "sorted (event_times evs)"
  shows "KeyExchangeDuration (hs_result (after_events opts r evs)) = KeyExchangeDuration r \<or>
    (\<exists>t t'. received (Reads (reads evs) new_watcher) = Some t' \<and> t \<in> set (event_times evs) \<and> t' \<le> t \<and>
       KeyExchangeDuration (hs_result (after_events opts r evs)) = t - t')"
  using assms
proof (induction evs rule: rev_induct)
  case (snoc e evs)
  then have IH: "KeyExchangeDuration (hs_result (after_events opts r evs)) = KeyExchangeDuration r \<or>
    (\<exists>t t'. received (Reads (reads evs) new_watcher) = Some t' \<and> t \<in> set (event_times evs) \<and> t' \<le> t \<and>
       KeyExchangeDuration (hs_result (after_events opts r evs)) = t - t')"
    by (simp add: sorted_append)
  show ?case
  proof (cases e)
    case (ReadyEv now a)
    have "t' \<le> now" if "received (Reads (reads evs) new_watcher) = Some t'" for t'
      using received_Reads_time [OF that] reads_times [of evs] snoc.prems ReadyEv
      by (auto simp: sorted_append)
    with IH ReadyEv show ?thesis
      by (auto simp: after_events_snoc transportReadyCallback_def reads_append split: option.splits)
  next
    case (ReadEv now p)
    with IH show ?thesis
      using received_keep by (fastforce simp: after_events_snoc reads_append)
  next
    case (HostKeyEv h rm k)
    with IH show ?thesis
      by (auto simp: after_events_snoc reads_append hostKeyCallback_def Let_def split: option.splits)
  qed
qed (simp add: after_events_def)

lemma handshake_durations:
  "DNSLookupDuration (run_handshake opts w r) = DNSLookupDuration r"
  "TCPConnectDuration (run_handshake opts w r) = TCPConnectDuration r"
  "KeyExchangeDuration (run_handshake opts w r) = KeyExchangeDuration (hs_result (after_events opts r (w_events w)))"
  "VersionExchangeDuration (run_handshake opts w r) =
    (case received (Reads (reads (w_events w)) new_watcher) of
       Some t \<Rightarrow> t - w_versionExchangeStart w | None \<Rightarrow> VersionExchangeDuration r)"
  by (simp_all add: run_handshake_def run_defs run_version_def split: option.splits list.splits sum.splits)

lemma run_dial_durations:
  assumes "run_dial mss target w = Inr r" and "monotonic_clock w"
  shows "0 \<le> DNSLookupDuration r" "0 \<le> TCPConnectDuration r"
    "DNSLookupDuration r + TCPConnectDuration r \<le> w_dialEnd w - w_dialStart w"
    "VersionExchangeDuration r = 0" "KeyExchangeDuration r = 0"
  using assms
  by (cases "w_controls w";
      auto simp: run_dial_def Let_def zero_Result_def monotonic_clock_def
        split: sum.splits raw_conn.splits)+

text \<open>C25.  On a monotonic clock every duration a probe reports is non-negative, and the phases it
  times do not overlap: together they last at most as long as the whole probe.\<close>

theorem Run_durations:
  assumes "monotonic_clock w" and "result = Run mss target opts w"
  shows "0 \<le> DNSLookupDuration result \<and> 0 \<le> TCPConnectDuration result \<and>
    0 \<le> VersionExchangeDuration result \<and> 0 \<le> KeyExchangeDuration result \<and>
    DNSLookupDuration result + TCPConnectDuration result + VersionExchangeDuration result +
      KeyExchangeDuration result \<le> Duration result"
proof (cases rule: Run_cases [of w mss target opts])
  case (failed err)
  have "w_versionExchangeStart w \<le> w_end w" using assms(1) by (simp add: monotonic_clock_def)
  with failed assms(1) show ?thesis unfolding assms(2)
    by (cases "w_controls w") (auto simp: zero_Result_def Let_def monotonic_clock_def)
next
  case (dialled c r)
  let ?ts = "event_times (w_events w)"
  have times: "w_versionExchangeStart w \<le> w_end w" "t \<in> set ?ts \<Longrightarrow> w_versionExchangeStart w \<le> t \<and> t \<le> w_end w"
    "sorted ?ts" "w_start w \<le> w_dialStart w" "w_dialEnd w \<le> w_versionExchangeStart w" for t
    using assms(1) by (auto simp: monotonic_clock_def sorted_append)
  have rec: "received (Reads (reads (w_events w)) new_watcher) = Some t \<Longrightarrow> t \<in> set ?ts" for t
    using received_Reads_time reads_times by blast
  note dial = run_dial_durations [OF dialled(2) assms(1)]
  from kex_duration [OF times(3), of opts r] show ?thesis
    unfolding assms(2) dialled(4)
    using dial times rec by (fastforce simp: handshake_durations split: option.splits)
qed

theorem Run_durations_witness:
  "0 \<le> KeyExchangeDuration (Run tcpNegotiatedMSS_linux ''h:22'' sample_options sample_world) \<and>
   KeyExchangeDuration (Run tcpNegotiatedMSS_linux ''h:22'' sample_options sample_world) = 11"
proof -
  have "monotonic_clock sample_world" by code_simp
  moreover have "KeyExchangeDuration (Run tcpNegotiatedMSS_linux ''h:22'' sample_options sample_world) = 11"
    by code_simp
  ultimately show ?thesis using Run_durations [OF _ refl] by blast
qed

section \<open>The context explains a failure\<close>

text \<open>C30.  When the probe's context has ended, a failed dial or handshake is reported as a timeout
  or a cancellation, not as the reset or refused connection it shows up as; only a host key
  already found bad takes precedence.\<close>

theorem Run_context_reason:
  assumes "newClientConn_contract w" and "w_ctxErr w = Some ctxErr"
    and "DeadlineExceeded \<in> kinds ctxErr \<or> Canceled \<in> kinds ctxErr"
    and "\<not> Success (Run mss target opts w)"
    and "\<forall>(h, rm, k)\<in>set (host_keys (w_events w)). verifyHostKey (effectiveCallback opts) h rm k = None"
  shows "ErrorReason (Run mss target opts w) =
    (if DeadlineExceeded \<in> kinds ctxErr then ''timeout'' else ''canceled'')"
proof (cases rule: Run_cases [of w mss target opts])
  case (failed err)
  with assms(2,3) show ?thesis
    by (auto simp: Let_def classifyDialError_def classifyContextError_def ctx_Is_def errors_Is_kinds)
next
  case (dialled c r)
  have key: "hk_verified hk" if "first_key opts w = Some hk" for hk
    using assms(5) that by (auto simp: first_key_def split: list.splits)
  have "aborted w \<longrightarrow> first_key opts w \<noteq> None"
    using contract_keys(2) [OF assms(1)] contract_aborted [OF assms(1)]
    by (auto simp: first_key_def split: list.splits)
  with dialled assms(4) key have "\<not> aborted w" by (auto simp: handshake_fields)
  with contract_error [OF assms(1)] obtain e where "w_handshakeErr w = Some e" "\<not> errors_Is e errAbort"
    by (auto simp: aborted_def)
  with dialled key assms(2,3) show ?thesis
    by (auto simp: handshake_reason run_outcome_def classifyKexError_def classifyContextError_def ctx_Is_def
        errors_Is_kinds split: option.splits)
qed

definition reset_world :: world where
  "reset_world = sample_world\<lparr> w_ctxErr := Some (Err DeadlineExceeded []), w_events := [],
     w_handshakeErr := Some (Err OpError [Err (Errno ECONNRESET) []]) \<rparr>"

theorem Run_context_reason_witness:
  "ErrorReason (Run tcpNegotiatedMSS_linux ''h:22'' sample_options reset_world) = ''timeout''"
proof -
  have "newClientConn_contract reset_world"
    by (simp add: newClientConn_contract_def reset_world_def transport_ready_def)
  moreover have "\<not> Success (Run tcpNegotiatedMSS_linux ''h:22'' sample_options reset_world)" by code_simp
  moreover have "w_ctxErr reset_world = Some (Err DeadlineExceeded [])" and "host_keys (w_events reset_world) = []"
    by (simp_all add: reset_world_def)
  ultimately show ?thesis
    using Run_context_reason [of reset_world "Err DeadlineExceeded []" tcpNegotiatedMSS_linux "''h:22''" sample_options]
    by simp
qed

end
