(* ===== verification/Collector.thy ===== *)
theory Collector
  imports ProbeCorrect "HOL-Library.Sublist"
begin

text \<open>
  The Prometheus collector (\<^verbatim>\<open>internal/collector/collector.go\<close>): the descriptors, \<^verbatim>\<open>Describe\<close>, and
  \<^verbatim>\<open>Collect\<close>, which runs the probe and turns its result into metrics.  The client library is not
  modelled: a descriptor is what is passed to \<^verbatim>\<open>prometheus.NewDesc\<close>, a metric what is passed to
  \<^verbatim>\<open>MustNewConstMetric\<close>, and the channel is the list of what is sent.  What the library asks of a
  collector is the locale \<open>checked_collector\<close>, interpreted on \<open>SSHCollector\<close>.
\<close>

section \<open>Descriptors\<close>

datatype ValueType = CounterValue | GaugeValue | UntypedValue

record typedDesc =
  d_namespace :: string
  d_subsystem :: string
  d_name :: string
  d_help :: string
  d_labels :: "string list"
  d_valueType :: ValueType

definition namespace :: string where "namespace = ''ssh_transport''"

definition newDesc :: "string \<Rightarrow> string \<Rightarrow> string \<Rightarrow> string list \<Rightarrow> ValueType \<Rightarrow> typedDesc" where
  "newDesc subsystem name help labels valueType =
     \<lparr> d_namespace = namespace, d_subsystem = subsystem, d_name = name, d_help = help, d_labels = labels,
       d_valueType = valueType \<rparr>"

definition subSystemDNS :: string where "subSystemDNS = ''dns_lookup''"
definition subSystemTCP :: string where "subSystemTCP = ''tcp''"
definition subSystemTCPConnect :: string where "subSystemTCPConnect = ''tcp_connect''"
definition subSystemServerIdent :: string where "subSystemServerIdent = ''server_identification''"
definition subSystemVersionExchange :: string where "subSystemVersionExchange = ''version_exchange''"
definition subSystemKEX :: string where "subSystemKEX = ''kex''"
definition subSystemKeyExchange :: string where "subSystemKeyExchange = ''key_exchange''"
definition subSystemServerHostKey :: string where "subSystemServerHostKey = ''server_host_key''"
definition subSystemEncryption :: string where "subSystemEncryption = ''encryption''"
definition subSystemMAC :: string where "subSystemMAC = ''mac''"
definition subSystemError :: string where "subSystemError = ''error''"

definition dnsLookupSuccessDesc :: typedDesc where
  "dnsLookupSuccessDesc = newDesc subSystemDNS ''success''
     ''Whether the target hostname was resolved. Absent for IP literal targets.''
     [] GaugeValue"

definition dnsLookupDurationDesc :: typedDesc where
  "dnsLookupDurationDesc = newDesc subSystemDNS ''duration_seconds''
     ''Time taken to resolve the target hostname. Absent for IP literal targets and when the lookup fails.''
     [] GaugeValue"

definition tcpConnectSuccessDesc :: typedDesc where
  "tcpConnectSuccessDesc = newDesc subSystemTCPConnect ''success''
     ''Whether a TCP connection to the target could be established.''
     [] GaugeValue"

definition tcpConnectDurationDesc :: typedDesc where
  "tcpConnectDurationDesc = newDesc subSystemTCPConnect ''duration_seconds''
     ''Time taken to establish the TCP connection, excluding name resolution. Absent on failure.''
     [] GaugeValue"

definition tcpMSSDesc :: typedDesc where
  "tcpMSSDesc = newDesc subSystemTCP ''mss_bytes''
     ''TCP maximum segment size negotiated at connect time. Absent if unavailable.''
     [] GaugeValue"

definition serverIdentificationInfoDesc :: typedDesc where
  "serverIdentificationInfoDesc = newDesc subSystemServerIdent ''info''
     ''Identification string sent by the server (RFC 4253 section 4.2). Absent unless the version exchange succeeded, or if it could not be parsed.''
     [''identification_string'', ''protoversion'', ''softwareversion'', ''comments''] GaugeValue"

definition serverIdentificationRFCConformantDesc :: typedDesc where
  "serverIdentificationRFCConformantDesc = newDesc subSystemServerIdent ''rfc_conformant''
     (''Whether the server'' @ [CHR 0x27] @ ''s identification string conforms to RFC 4253 section 4.2. Absent unless the version exchange succeeded.'')
     [] GaugeValue"

definition versionExchangeSuccessDesc :: typedDesc where
  "versionExchangeSuccessDesc = newDesc subSystemVersionExchange ''success''
     (''Whether the server'' @ [CHR 0x27] @ ''s identification string was received (RFC 4253 section 4.2).'')
     [] GaugeValue"

definition versionExchangeDurationDesc :: typedDesc where
  "versionExchangeDurationDesc = newDesc subSystemVersionExchange ''duration_seconds''
     ''Time taken for the version exchange (RFC 4253 section 4.2). Absent on failure.''
     [] GaugeValue"

definition kexAlgorithmInfoDesc :: typedDesc where
  "kexAlgorithmInfoDesc = newDesc subSystemKEX ''algorithm_info''
     ''Negotiated key exchange algorithm (RFC 4253 section 7.1). Absent unless key exchange completed.''
     [''algorithm''] GaugeValue"

definition serverHostKeyAlgorithmInfoDesc :: typedDesc where
  "serverHostKeyAlgorithmInfoDesc = newDesc subSystemServerHostKey ''algorithm_info''
     ''Negotiated server host key algorithm (RFC 4253 section 7.1). Absent unless key exchange completed.''
     [''algorithm''] GaugeValue"

definition encryptionAlgorithmInfoDesc :: typedDesc where
  "encryptionAlgorithmInfoDesc = newDesc subSystemEncryption ''algorithm_info''
     ''Negotiated encryption algorithm per direction (RFC 4253 section 7.1). Absent unless key exchange completed.''
     [''direction'', ''algorithm''] GaugeValue"

definition macAlgorithmInfoDesc :: typedDesc where
  "macAlgorithmInfoDesc = newDesc subSystemMAC ''algorithm_info''
     ''Negotiated MAC algorithm per direction (RFC 4253 section 7.1). Absent for AEAD ciphers, which need no separate MAC.''
     [''direction'', ''algorithm''] GaugeValue"

definition serverHostKeyVerifySuccessDesc :: typedDesc where
  "serverHostKeyVerifySuccessDesc = newDesc subSystemServerHostKey ''verify_success''
     ''Whether the server host key was verified (RFC 4253 section 8).''
     [] GaugeValue"

definition keyExchangeSuccessDesc :: typedDesc where
  "keyExchangeSuccessDesc = newDesc subSystemKeyExchange ''success''
     ''Whether the key exchange (RFC 4253 section 7) completed.''
     [] GaugeValue"

definition keyExchangeDurationDesc :: typedDesc where
  "keyExchangeDurationDesc = newDesc subSystemKeyExchange ''duration_seconds''
     ''Time taken for the key exchange (RFC 4253 section 7). Absent on failure.''
     [] GaugeValue"

definition errorInfoDesc :: typedDesc where
  "errorInfoDesc = newDesc subSystemError ''info''
     ''Phase and reason this probe failed. Absent if the probe succeeded.''
     [''phase'', ''reason''] GaugeValue"

definition durationDesc :: typedDesc where
  "durationDesc = newDesc [] ''duration_seconds''
     ''Time taken for the whole probe, whether it succeeded or not.''
     [] GaugeValue"

definition successDesc :: typedDesc where
  "successDesc = newDesc [] ''success''
     ''Whether the probe succeeded: every phase completed and the server host key was verified.''
     [] GaugeValue"

section \<open>Metrics\<close>

text \<open>
  A value is a \<^verbatim>\<open>float64\<close>: an integer converted to it, or the \<^verbatim>\<open>Seconds()\<close> of a duration given in
  nanoseconds.
\<close>

datatype mvalue = Float int | Seconds int

record metric =
  mt_desc :: typedDesc
  mt_value :: mvalue
  mt_labels :: "string list"

definition mustNewConstMetric :: "typedDesc \<Rightarrow> mvalue \<Rightarrow> string list \<Rightarrow> metric" where
  "mustNewConstMetric td v labelValues = \<lparr> mt_desc = td, mt_value = v, mt_labels = labelValues \<rparr>"

definition boolToFloat64 :: "bool \<Rightarrow> mvalue" where
  "boolToFloat64 b = (if b then Float 1 else Float 0)"

record SSHCollector =
  sc_target :: string
  sc_module :: string
  sc_opts :: Options
  sc_run :: "string \<Rightarrow> Options \<Rightarrow> Result"

text \<open>\<^verbatim>\<open>New\<close>, with the world the probe will meet.\<close>

definition New_collector ::
  "(mss_calls \<Rightarrow> gerr + int) \<Rightarrow> world \<Rightarrow> string \<Rightarrow> string \<Rightarrow> Options \<Rightarrow> SSHCollector" where
  "New_collector tcpMSS w target mdl opts =
     \<lparr> sc_target = target, sc_module = mdl, sc_opts = opts, sc_run = (\<lambda>t opts. Run tcpMSS t opts w) \<rparr>"

definition Describe :: "SSHCollector \<Rightarrow> typedDesc list" where
  "Describe c =
     [dnsLookupSuccessDesc,
      dnsLookupDurationDesc,
      tcpConnectSuccessDesc,
      tcpConnectDurationDesc,
      tcpMSSDesc,
      serverIdentificationInfoDesc,
      serverIdentificationRFCConformantDesc,
      versionExchangeSuccessDesc,
      versionExchangeDurationDesc,
      kexAlgorithmInfoDesc,
      serverHostKeyAlgorithmInfoDesc,
      encryptionAlgorithmInfoDesc,
      macAlgorithmInfoDesc,
      serverHostKeyVerifySuccessDesc,
      keyExchangeSuccessDesc,
      keyExchangeDurationDesc,
      errorInfoDesc,
      durationDesc,
      successDesc]"

definition metrics_of :: "Result \<Rightarrow> metric list" where
  "metrics_of result =
     (if DNSLookup result then
        [mustNewConstMetric dnsLookupSuccessDesc (boolToFloat64 (DNSLookupSuccess result)) []] @
        (if DNSLookupSuccess result
         then [mustNewConstMetric dnsLookupDurationDesc (Seconds (DNSLookupDuration result)) []] else [])
      else []) @
     [mustNewConstMetric tcpConnectSuccessDesc (boolToFloat64 (TCPConnectSuccess result)) []] @
     (if TCPConnectSuccess result then
        [mustNewConstMetric tcpConnectDurationDesc (Seconds (TCPConnectDuration result)) []] @
        (if TCPMSS result > 0 then [mustNewConstMetric tcpMSSDesc (Float (TCPMSS result)) []] else [])
      else []) @
     (if VersionExchangeSuccess result then
        (let ident = ServerIdent result in
         (if String ident \<noteq> []
          then [mustNewConstMetric serverIdentificationInfoDesc (Float 1)
                  [String ident, ProtoVersion ident, SoftwareVersion ident, Comments ident]]
          else []) @
         [mustNewConstMetric serverIdentificationRFCConformantDesc (boolToFloat64 (RFCConformant ident)) []])
      else []) @
     [mustNewConstMetric versionExchangeSuccessDesc (boolToFloat64 (VersionExchangeSuccess result)) []] @
     (if VersionExchangeSuccess result
      then [mustNewConstMetric versionExchangeDurationDesc (Seconds (VersionExchangeDuration result)) []] else []) @
     (if KeyExchangeSuccess result \<and> KEXAlgorithm result \<noteq> []
      then [mustNewConstMetric kexAlgorithmInfoDesc (Float 1) [KEXAlgorithm result]] else []) @
     (if ServerHostKeyAlgorithm result \<noteq> []
      then [mustNewConstMetric serverHostKeyAlgorithmInfoDesc (Float 1) [ServerHostKeyAlgorithm result]] else []) @
     (if EncryptionClientToServer result \<noteq> []
      then [mustNewConstMetric encryptionAlgorithmInfoDesc (Float 1)
              [''client_to_server'', EncryptionClientToServer result]] else []) @
     (if EncryptionServerToClient result \<noteq> []
      then [mustNewConstMetric encryptionAlgorithmInfoDesc (Float 1)
              [''server_to_client'', EncryptionServerToClient result]] else []) @
     (if MACClientToServer result \<noteq> []
      then [mustNewConstMetric macAlgorithmInfoDesc (Float 1)
              [''client_to_server'', MACClientToServer result]] else []) @
     (if MACServerToClient result \<noteq> []
      then [mustNewConstMetric macAlgorithmInfoDesc (Float 1)
              [''server_to_client'', MACServerToClient result]] else []) @
     [mustNewConstMetric serverHostKeyVerifySuccessDesc (boolToFloat64 (ServerHostKeyVerifySuccess result)) []] @
     [mustNewConstMetric keyExchangeSuccessDesc (boolToFloat64 (KeyExchangeSuccess result)) []] @
     (if KeyExchangeSuccess result
      then [mustNewConstMetric keyExchangeDurationDesc (Seconds (KeyExchangeDuration result)) []] else []) @
     (if ErrorPhase result \<noteq> []
      then [mustNewConstMetric errorInfoDesc (Float 1) [ErrorPhase result, ErrorReason result]] else []) @
     [mustNewConstMetric durationDesc (Seconds (Duration result)) []] @
     [mustNewConstMetric successDesc (boolToFloat64 (Success result)) []]"

definition Collect_ch :: "SSHCollector \<Rightarrow> metric list" where
  "Collect_ch c = metrics_of (sc_run c (sc_target c) (sc_opts c))"

section \<open>What the client library asks of a collector\<close>

text \<open>
  A registry checks what a collector sends: every metric has a described descriptor, as many
  label values as the descriptor has label names, and no two metrics are the same series.
  Then every series has one value.
\<close>

definition series :: "metric \<Rightarrow> typedDesc \<times> string list" where
  "series m = (mt_desc m, mt_labels m)"

definition sample :: "metric list \<Rightarrow> typedDesc \<Rightarrow> string list \<Rightarrow> mvalue option" where
  "sample ms d ls = map_of (map (\<lambda>m. (series m, mt_value m)) ms) (d, ls)"

locale checked_collector =
  fixes describe :: "'c \<Rightarrow> typedDesc list"
    and collect :: "'c \<Rightarrow> metric list"
  assumes described: "m \<in> set (collect c) \<Longrightarrow> mt_desc m \<in> set (describe c)"
    and arity: "m \<in> set (collect c) \<Longrightarrow> length (mt_labels m) = length (d_labels (mt_desc m))"
    and unique: "distinct (map series (collect c))"
begin

lemma sample_iff:
  "sample (collect c) d ls = Some v \<longleftrightarrow> (\<exists>m\<in>set (collect c). mt_desc m = d \<and> mt_labels m = ls \<and> mt_value m = v)"
proof -
  have "distinct (map fst (map (\<lambda>m. (series m, mt_value m)) (collect c)))"
    using unique [of c] by (simp add: comp_def)
  then show ?thesis by (auto simp: sample_def series_def)
qed

lemma sample_described: "sample (collect c) d ls = Some v \<Longrightarrow> d \<in> set (describe c) \<and> length ls = length (d_labels d)"
  using described arity by (auto simp: sample_iff)

lemma sample_None_iff:
  "sample (collect c) d ls = None \<longleftrightarrow> (\<forall>m\<in>set (collect c). mt_desc m = d \<longrightarrow> mt_labels m \<noteq> ls)"
  using sample_iff [of c d ls] by (metis not_None_eq)

end

lemmas desc_defs = dnsLookupSuccessDesc_def dnsLookupDurationDesc_def tcpConnectSuccessDesc_def
  tcpConnectDurationDesc_def tcpMSSDesc_def serverIdentificationInfoDesc_def
  serverIdentificationRFCConformantDesc_def versionExchangeSuccessDesc_def versionExchangeDurationDesc_def
  kexAlgorithmInfoDesc_def serverHostKeyAlgorithmInfoDesc_def encryptionAlgorithmInfoDesc_def
  macAlgorithmInfoDesc_def serverHostKeyVerifySuccessDesc_def keyExchangeSuccessDesc_def
  keyExchangeDurationDesc_def errorInfoDesc_def durationDesc_def
  successDesc_def

lemmas subsystem_defs = namespace_def subSystemDNS_def subSystemTCP_def subSystemTCPConnect_def
  subSystemServerIdent_def subSystemVersionExchange_def subSystemKEX_def subSystemKeyExchange_def
  subSystemServerHostKey_def subSystemEncryption_def subSystemMAC_def subSystemError_def

text \<open>The place of a metric in \<^verbatim>\<open>Collect\<close>: its names, and the direction where a descriptor is used twice.\<close>

definition slot :: "metric \<Rightarrow> string \<times> string \<times> string list" where
  "slot m = (d_subsystem (mt_desc m), d_name (mt_desc m),
     if d_labels (mt_desc m) = [''direction'', ''algorithm''] then take 1 (mt_labels m) else [])"

definition slots :: "(string \<times> string \<times> string list) list" where
  "slots =
     [(''dns_lookup'', ''success'', []), (''dns_lookup'', ''duration_seconds'', [])] @
     [(''tcp_connect'', ''success'', [])] @
     [(''tcp_connect'', ''duration_seconds'', []), (''tcp'', ''mss_bytes'', [])] @
     [(''server_identification'', ''info'', []), (''server_identification'', ''rfc_conformant'', [])] @
     [(''version_exchange'', ''success'', [])] @ [(''version_exchange'', ''duration_seconds'', [])] @
     [(''kex'', ''algorithm_info'', [])] @ [(''server_host_key'', ''algorithm_info'', [])] @
     [(''encryption'', ''algorithm_info'', [''client_to_server''])] @
     [(''encryption'', ''algorithm_info'', [''server_to_client''])] @
     [(''mac'', ''algorithm_info'', [''client_to_server''])] @
     [(''mac'', ''algorithm_info'', [''server_to_client''])] @
     [(''server_host_key'', ''verify_success'', [])] @
     [(''key_exchange'', ''success'', [])] @ [(''key_exchange'', ''duration_seconds'', [])] @
     [(''error'', ''info'', [])] @ [([], ''duration_seconds'', [])] @ [([], ''success'', [])]"

lemma slots_distinct: "distinct slots"
  by code_simp

lemma desc_fields:
  "d_subsystem (newDesc a b h ls t) = a" "d_name (newDesc a b h ls t) = b" "d_labels (newDesc a b h ls t) = ls"
  "d_valueType (newDesc a b h ls t) = t"
  by (simp_all add: newDesc_def)

lemma metrics_slots: "subseq (map slot (metrics_of r)) slots"
  unfolding metrics_of_def slots_def map_append
  by (intro list_emb_append_mono)
     (simp_all add: slot_def mustNewConstMetric_def desc_defs desc_fields subsystem_defs Let_def)

lemma metrics_distinct: "distinct (map series (metrics_of r))"
proof -
  have "distinct (map slot (metrics_of r))"
    using metrics_slots slots_distinct by (metis subseq_conv_nths distinct_nthsI)
  then show ?thesis
    by (auto simp: distinct_map inj_on_def slot_def series_def)
qed

lemma desc_names_distinct: "distinct (map (\<lambda>d. (d_subsystem d, d_name d)) (Describe c))"
  by (simp add: Describe_def desc_defs desc_fields subsystem_defs)

lemma descs_distinct: "distinct (Describe c)"
  using desc_names_distinct [of c] by (simp only: distinct_map)

lemma metrics_described: "list_all (\<lambda>m. mt_desc m \<in> set (Describe c)) (metrics_of r)"
  unfolding metrics_of_def list_all_append
  by (intro conjI) (simp_all add: Describe_def mustNewConstMetric_def Let_def)

lemma metrics_arity: "list_all (\<lambda>m. length (mt_labels m) = length (d_labels (mt_desc m))) (metrics_of r)"
  unfolding metrics_of_def list_all_append
  by (intro conjI) (simp_all add: mustNewConstMetric_def Let_def desc_defs desc_fields)

interpretation sshc: checked_collector Describe Collect_ch
proof
  fix m and c :: SSHCollector
  assume "m \<in> set (Collect_ch c)"
  then show "mt_desc m \<in> set (Describe c)" and "length (mt_labels m) = length (d_labels (mt_desc m))"
    using metrics_described metrics_arity unfolding Collect_ch_def list.pred_set by blast+
next
  fix c :: SSHCollector
  show "distinct (map series (Collect_ch c))" by (simp add: Collect_ch_def metrics_distinct)
qed

text \<open>C22.  Whatever a probe returns, a registry accepts what the collector sends: every metric has a
  described descriptor and the right number of label values, no series is sent twice, and the
  described names are all different, so that none is refused at registration.\<close>

theorem Collect_accepted_by_registry:
  "(\<forall>m\<in>set (Collect_ch c). mt_desc m \<in> set (Describe c) \<and>
      length (mt_labels m) = length (d_labels (mt_desc m))) \<and>
   distinct (map (\<lambda>m. (mt_desc m, mt_labels m)) (Collect_ch c)) \<and>
   distinct (map (\<lambda>d. (d_subsystem d, d_name d)) (Describe c))"
proof (intro conjI ballI)
  show "distinct (map (\<lambda>m. (mt_desc m, mt_labels m)) (Collect_ch c))"
    using sshc.unique [of c] by (simp add: series_def [abs_def])
  show "distinct (map (\<lambda>d. (d_subsystem d, d_name d)) (Describe c))" by (rule desc_names_distinct)
qed (use sshc.described sshc.arity in blast)+

theorem Collect_accepted_by_registry_witness:
  "let m = mustNewConstMetric errorInfoDesc (Float 1) [''dns_lookup'', ''timeout'']
   in length (mt_labels m) = length (d_labels (mt_desc m)) \<and>
      m \<in> set (Collect_ch (New_collector tcpNegotiatedMSS_other
        (sample_world\<lparr> w_dial := Inl (Err DeadlineExceeded []), w_controls := [] \<rparr>)
        ''h:22'' ''default'' sample_options))"
proof -
  let ?c = "New_collector tcpNegotiatedMSS_other
    (sample_world\<lparr> w_dial := Inl (Err DeadlineExceeded []), w_controls := [] \<rparr>) ''h:22'' ''default'' sample_options"
  let ?m = "mustNewConstMetric errorInfoDesc (Float 1) [''dns_lookup'', ''timeout'']"
  have "?m \<in> set (Collect_ch ?c)" by code_simp
  with Collect_accepted_by_registry [of ?c] show ?thesis unfolding Let_def by blast
qed

section \<open>What the metrics say\<close>

definition with_desc :: "typedDesc \<Rightarrow> metric list \<Rightarrow> metric list" where
  "with_desc d ms = filter (\<lambda>m. mt_desc m = d) ms"

lemma sample_with_desc: "sample ms d ls = sample (with_desc d ms) d ls"
  by (induction ms) (auto simp: sample_def series_def with_desc_def)

lemma with_desc_simps:
  "with_desc d (xs @ ys) = with_desc d xs @ with_desc d ys"
  "with_desc d (if b then xs else ys) = (if b then with_desc d xs else with_desc d ys)"
  "with_desc d [] = []"
  "with_desc d (mustNewConstMetric td v ls # ms) =
     (if td = d then mustNewConstMetric td v ls # with_desc d ms else with_desc d ms)"
  by (simp_all add: with_desc_def mustNewConstMetric_def)

lemma descs_distinct_rev:
  "distinct
     [successDesc, durationDesc, errorInfoDesc,
      keyExchangeDurationDesc, keyExchangeSuccessDesc, serverHostKeyVerifySuccessDesc,
      macAlgorithmInfoDesc, encryptionAlgorithmInfoDesc, serverHostKeyAlgorithmInfoDesc,
      kexAlgorithmInfoDesc, versionExchangeDurationDesc, versionExchangeSuccessDesc,
      serverIdentificationRFCConformantDesc, serverIdentificationInfoDesc, tcpMSSDesc,
      tcpConnectDurationDesc, tcpConnectSuccessDesc, dnsLookupDurationDesc,
      dnsLookupSuccessDesc]"
  using descs_distinct [of undefined] unfolding Describe_def
  by (subst distinct_rev [symmetric]) (simp only: rev.simps append.simps)

text \<open>All pairs, in both directions.\<close>

lemmas desc_neqs = descs_distinct [of undefined, unfolded Describe_def, simplified] descs_distinct_rev [simplified]

lemma samples_singleton:
  "sample (if b then [mustNewConstMetric d v ls] else []) d ls' = (if b \<and> ls' = ls then Some v else None)"
  "sample [mustNewConstMetric d v ls] d ls' = (if ls' = ls then Some v else None)"
  by (auto simp: sample_def series_def mustNewConstMetric_def)

lemma with_desc_metrics:
  "with_desc successDesc (metrics_of r) = [mustNewConstMetric successDesc (boolToFloat64 (Success r)) []]"
  "with_desc errorInfoDesc (metrics_of r) =
     (if ErrorPhase r \<noteq> [] then [mustNewConstMetric errorInfoDesc (Float 1) [ErrorPhase r, ErrorReason r]] else [])"
  "with_desc dnsLookupDurationDesc (metrics_of r) =
     (if DNSLookup r \<and> DNSLookupSuccess r
      then [mustNewConstMetric dnsLookupDurationDesc (Seconds (DNSLookupDuration r)) []] else [])"
  "with_desc tcpConnectDurationDesc (metrics_of r) =
     (if TCPConnectSuccess r
      then [mustNewConstMetric tcpConnectDurationDesc (Seconds (TCPConnectDuration r)) []] else [])"
  "with_desc versionExchangeDurationDesc (metrics_of r) =
     (if VersionExchangeSuccess r
      then [mustNewConstMetric versionExchangeDurationDesc (Seconds (VersionExchangeDuration r)) []] else [])"
  "with_desc keyExchangeDurationDesc (metrics_of r) =
     (if KeyExchangeSuccess r
      then [mustNewConstMetric keyExchangeDurationDesc (Seconds (KeyExchangeDuration r)) []] else [])"
  "with_desc durationDesc (metrics_of r) = [mustNewConstMetric durationDesc (Seconds (Duration r)) []]"
  "with_desc serverIdentificationInfoDesc (metrics_of r) =
     (if VersionExchangeSuccess r \<and> String (ServerIdent r) \<noteq> []
      then [mustNewConstMetric serverIdentificationInfoDesc (Float 1) (ident_labels (ServerIdent r))] else [])"
  unfolding metrics_of_def Let_def with_desc_simps ident_labels_def
  by (simp_all add: desc_neqs)

lemma samples:
  "sample (metrics_of r) successDesc ls = (if ls = [] then Some (boolToFloat64 (Success r)) else None)"
  "sample (metrics_of r) errorInfoDesc ls =
     (if ErrorPhase r \<noteq> [] \<and> ls = [ErrorPhase r, ErrorReason r] then Some (Float 1) else None)"
  "sample (metrics_of r) dnsLookupDurationDesc ls =
     (if (DNSLookup r \<and> DNSLookupSuccess r) \<and> ls = [] then Some (Seconds (DNSLookupDuration r)) else None)"
  "sample (metrics_of r) tcpConnectDurationDesc ls =
     (if TCPConnectSuccess r \<and> ls = [] then Some (Seconds (TCPConnectDuration r)) else None)"
  "sample (metrics_of r) versionExchangeDurationDesc ls =
     (if VersionExchangeSuccess r \<and> ls = [] then Some (Seconds (VersionExchangeDuration r)) else None)"
  "sample (metrics_of r) keyExchangeDurationDesc ls =
     (if KeyExchangeSuccess r \<and> ls = [] then Some (Seconds (KeyExchangeDuration r)) else None)"
  "sample (metrics_of r) durationDesc ls = (if ls = [] then Some (Seconds (Duration r)) else None)"
  "sample (metrics_of r) serverIdentificationInfoDesc ls =
     (if (VersionExchangeSuccess r \<and> String (ServerIdent r) \<noteq> []) \<and> ls = ident_labels (ServerIdent r)
      then Some (Float 1) else None)"
  by (simp_all only: sample_with_desc [of "metrics_of r"] with_desc_metrics samples_singleton)

text \<open>The duration of a phase is reported exactly when the phase succeeded; the whole probe's
  duration and its success always are, the error series exactly when there is an error phase,
  with the phase and reason of the result.\<close>

theorem Collect_series:
  assumes "r = sc_run c (sc_target c) (sc_opts c)"
  shows "sample (Collect_ch c) successDesc [] = Some (boolToFloat64 (Success r)) \<and>
    sample (Collect_ch c) durationDesc [] = Some (Seconds (Duration r)) \<and>
    sample (Collect_ch c) dnsLookupDurationDesc [] =
      (if DNSLookup r \<and> DNSLookupSuccess r then Some (Seconds (DNSLookupDuration r)) else None) \<and>
    sample (Collect_ch c) tcpConnectDurationDesc [] =
      (if TCPConnectSuccess r then Some (Seconds (TCPConnectDuration r)) else None) \<and>
    sample (Collect_ch c) versionExchangeDurationDesc [] =
      (if VersionExchangeSuccess r then Some (Seconds (VersionExchangeDuration r)) else None) \<and>
    sample (Collect_ch c) keyExchangeDurationDesc [] =
      (if KeyExchangeSuccess r then Some (Seconds (KeyExchangeDuration r)) else None) \<and>
    (\<forall>ls. sample (Collect_ch c) errorInfoDesc ls =
      (if ErrorPhase r \<noteq> [] \<and> ls = [ErrorPhase r, ErrorReason r] then Some (Float 1) else None))"
  by (simp add: Collect_ch_def assms samples)

theorem Collect_series_witness:
  "sample (Collect_ch (New_collector tcpNegotiatedMSS_other sample_world ''h:22'' ''default'' sample_options))
     keyExchangeDurationDesc [] = Some (Seconds 11)"
proof -
  let ?c = "New_collector tcpNegotiatedMSS_other sample_world ''h:22'' ''default'' sample_options"
  have "KeyExchangeSuccess (sc_run ?c (sc_target ?c) (sc_opts ?c))"
    and "KeyExchangeDuration (sc_run ?c (sc_target ?c) (sc_opts ?c)) = 11" by code_simp+
  with Collect_series [OF refl, of ?c] show ?thesis by simp
qed

text \<open>C23.  The metrics of one probe are consistent: \<^verbatim>\<open>ssh_transport_success\<close> is 1 exactly when no series
  of \<^verbatim>\<open>ssh_transport_error_info\<close> is sent, and otherwise it is 0 and there is exactly one.\<close>

theorem Collect_error_iff_failure:
  assumes "newClientConn_contract w" and "ms = Collect_ch (New_collector mss w target mdl opts)"
  shows "(sample ms successDesc [] = Some (Float 1) \<and> (\<forall>ls. sample ms errorInfoDesc ls = None)) \<or>
    (sample ms successDesc [] = Some (Float 0) \<and> (\<exists>!ls. sample ms errorInfoDesc ls \<noteq> None))"
  using Run_ErrorPhase_iff [OF assms(1), of mss target opts]
  by (auto simp: assms(2) Collect_ch_def New_collector_def samples boolToFloat64_def)

theorem Collect_error_iff_failure_witness:
  "sample (Collect_ch (New_collector tcpNegotiatedMSS_other reset_world ''h:22'' ''default'' sample_options))
     successDesc [] = Some (Float 0)"
proof -
  let ?ms = "Collect_ch (New_collector tcpNegotiatedMSS_other reset_world ''h:22'' ''default'' sample_options)"
  have "newClientConn_contract reset_world"
    by (simp add: newClientConn_contract_def reset_world_def transport_ready_def)
  from Collect_error_iff_failure [OF this refl, of tcpNegotiatedMSS_other "''h:22''" "''default''" sample_options]
  have "sample ?ms successDesc [] = Some (Float 0) \<or> sample ?ms errorInfoDesc [''version_exchange'', ''timeout''] = None"
    by (elim disjE conjE; simp)
  moreover have "sample ?ms errorInfoDesc [''version_exchange'', ''timeout''] = Some (Float 1)" by code_simp
  ultimately show ?thesis by simp
qed

text \<open>C31.  The label values a target can influence through its identification string are printable
  ASCII of at most 255 bytes, in every metric of the identification series and for every
  sequence of bytes the target sends.\<close>

theorem Collect_identification_labels:
  "\<forall>m\<in>set (Collect_ch (New_collector mss w target mdl opts)). mt_desc m = serverIdentificationInfoDesc \<longrightarrow>
     (\<forall>l\<in>set (mt_labels m). list_all is_printable l \<and> length l \<le> 255)"
proof (intro ballI impI)
  fix m l
  assume "m \<in> set (Collect_ch (New_collector mss w target mdl opts))"
    and "mt_desc m = serverIdentificationInfoDesc" and l: "l \<in> set (mt_labels m)"
  then have "m \<in> set (with_desc serverIdentificationInfoDesc (metrics_of (Run mss target opts w)))"
    by (simp add: with_desc_def Collect_ch_def New_collector_def)
  then have "mt_labels m = ident_labels (ServerIdent (Run mss target opts w))"
    by (auto simp: with_desc_metrics mustNewConstMetric_def split: if_splits)
  with l show "list_all is_printable l \<and> length l \<le> 255" using Run_ident_labels by metis
qed

theorem Collect_identification_labels_witness:
  "list_all is_printable ''OpenSSH_9.6''"
proof -
  let ?m = "mustNewConstMetric serverIdentificationInfoDesc (Float 1)
    [''SSH-2.0-OpenSSH_9.6'', ''2.0'', ''OpenSSH_9.6'', []]"
  have "?m \<in> set (Collect_ch (New_collector tcpNegotiatedMSS_other sample_world ''h:22'' ''default'' sample_options))"
    by code_simp
  moreover have "mt_desc ?m = serverIdentificationInfoDesc" and "''OpenSSH_9.6'' \<in> set (mt_labels ?m)"
    by (simp_all add: mustNewConstMetric_def)
  ultimately show ?thesis using Collect_identification_labels by blast
qed

end
