(* ===== verification/Go_Float.thy ===== *)
theory Go_Float
  imports Complex_Main
begin

text \<open>
  The part of Go's \<^verbatim>\<open>float64\<close>, \<^verbatim>\<open>int64\<close> and \<^verbatim>\<open>time.Duration\<close> arithmetic the exporter uses.  A finite
  \<^verbatim>\<open>float64\<close> is a rational number; every operation rounds its exact result to the nearest multiple
  of the unit in the last place, ties to even, with 53 bits of precision and gradual underflow.
\<close>

section \<open>Rounding\<close>

text \<open>The number of binary digits.\<close>

function bits :: "int \<Rightarrow> int" where
  "bits n = (if n \<le> 0 then 0 else 1 + bits (n div 2))"
  by pat_completeness auto
termination by (relation "measure nat") auto

declare bits.simps [simp del]

text \<open>The exponent of a positive rational: the largest power of two not above it.\<close>

definition ilog2 :: "rat \<Rightarrow> int" where
  "ilog2 x =
     (let (p, q) = quotient_of x; e = bits p - bits q
      in if 2 powi e \<le> x then e else e - 1)"

definition round_half_even :: "rat \<Rightarrow> int" where
  "round_half_even k =
     (let f = floor k; d = k - of_int f
      in if d < 1 / 2 then f else if d > 1 / 2 then f + 1 else if even f then f else f + 1)"

definition ulp_exponent :: "rat \<Rightarrow> int" where
  "ulp_exponent x = max (ilog2 \<bar>x\<bar> - 52) (- 1074)"

definition rnd :: "rat \<Rightarrow> rat" where
  "rnd x =
     (if x = 0 then 0
      else sgn x * of_int (round_half_even (\<bar>x\<bar> / 2 powi ulp_exponent x)) * 2 powi ulp_exponent x)"

section \<open>Floating-point numbers\<close>

datatype float64 = NaN | PosInf | NegInf | Fin rat

definition to_float :: "rat \<Rightarrow> float64" where
  "to_float x = (let r = rnd x in if r \<ge> 2 ^ 1024 then PosInf else if r \<le> - (2 ^ 1024) then NegInf else Fin r)"

section \<open>Durations\<close>

definition wrap64 :: "int \<Rightarrow> int" where
  "wrap64 n = (n + 2 ^ 63) mod 2 ^ 64 - 2 ^ 63"

text \<open>\<^verbatim>\<open>Duration.Seconds\<close>: Go's division truncates towards zero.\<close>

definition quot :: "int \<Rightarrow> int \<Rightarrow> int" where
  "quot a b = sgn a * sgn b * (\<bar>a\<bar> div \<bar>b\<bar>)"

definition Duration_Seconds :: "int \<Rightarrow> rat" where
  "Duration_Seconds d =
     (let sec = quot d 1000000000; nsec = d - sec * 1000000000
      in rnd (rnd (of_int sec) + rnd (rnd (of_int nsec) / 1000000000)))"

text \<open>
  The conversion of a \<^verbatim>\<open>float64\<close> to an \<^verbatim>\<open>int64\<close> drops the fraction; for a value out of range the
  language leaves the result to the implementation, here an argument.
\<close>

definition truncate :: "rat \<Rightarrow> int" where
  "truncate x = (if x \<ge> 0 then floor x else ceiling x)"

fun to_int64 :: "(float64 \<Rightarrow> int) \<Rightarrow> float64 \<Rightarrow> int" where
  "to_int64 impl (Fin x) =
     (if - (2 ^ 63) \<le> truncate x \<and> truncate x < 2 ^ 63 then truncate x else impl (Fin x))"
| "to_int64 impl f = impl f"

section \<open>Rounding errors\<close>

lemma bits_nonneg: "0 \<le> bits n"
  by (induction n rule: bits.induct) (simp add: bits.simps)

lemma bits_bounds: "0 < n \<Longrightarrow> 2 ^ nat (bits n) \<le> 2 * n \<and> n < 2 ^ nat (bits n)"
proof (induction n rule: bits.induct)
  case (1 n)
  have b: "nat (bits n) = Suc (nat (bits (n div 2)))"
    using 1(2) bits_nonneg [of "n div 2"] by (simp add: bits.simps [of n] nat_add_distrib)
  show ?case
  proof (cases "n = 1")
    case True
    then show ?thesis by (simp add: bits.simps)
  next
    case False
    with 1 have "2 ^ nat (bits (n div 2)) \<le> 2 * (n div 2) \<and> n div 2 < 2 ^ nat (bits (n div 2))"
      by (intro 1(1)) auto
    then show ?thesis unfolding b power_Suc by linarith
  qed
qed

lemma ilog2_bounds:
  assumes "0 < x"
  shows "2 powi ilog2 x \<le> x"
proof -
  obtain p q where pq: "quotient_of x = (p, q)" by (cases "quotient_of x")
  then have q: "0 < q" and x: "x = of_int p / of_int q"
    using quotient_of_denom_pos quotient_of_div by blast+
  with assms have p: "0 < p" by (simp add: zero_less_divide_iff)
  have P: "(2::rat) powi bits p \<le> 2 * of_int p"
    using bits_bounds [OF p] bits_nonneg [of p] by (simp add: power_int_def) (metis of_int_le_iff of_int_mult of_int_numeral of_int_power)
  have Q: "of_int q < (2::rat) powi bits q"
    using bits_bounds [OF q] bits_nonneg [of q] by (simp add: power_int_def)
  have "(2::rat) powi (bits p - bits q - 1) = 2 powi bits p / 2 / 2 powi bits q"
    by (simp add: power_int_diff)
  also have "\<dots> \<le> of_int p / 2 powi bits q" using P by (intro divide_right_mono) simp_all
  also have "\<dots> \<le> x" unfolding x using p q Q by (intro divide_left_mono) simp_all
  finally show ?thesis by (simp add: ilog2_def pq Let_def)
qed

lemma round_half_even_error: "\<bar>of_int (round_half_even k) - k\<bar> \<le> 1 / 2"
  unfolding round_half_even_def Let_def
  using of_int_floor_le [of k] real_of_int_floor_add_one_gt [of "0"] floor_correct [of k]
  by (auto simp: abs_le_iff)

lemma rnd_error: "\<bar>rnd x - x\<bar> \<le> \<bar>x\<bar> / 2 ^ 53 + 1 / 2 ^ 100"
proof (cases "x = 0")
  case False
  let ?u = "(2::rat) powi ulp_exponent x"
  have u: "0 < ?u" by simp
  let ?k = "\<bar>x\<bar> / ?u"
  have "rnd x - x = sgn x * ((of_int (round_half_even ?k) - ?k) * ?u)"
    using False u by (simp add: rnd_def algebra_simps) (simp add: abs_mult_sgn)
  then have "\<bar>rnd x - x\<bar> = \<bar>of_int (round_half_even ?k) - ?k\<bar> * ?u"
    using False by (simp add: abs_mult abs_sgn_eq)
  also have "\<dots> \<le> 1 / 2 * ?u" using round_half_even_error [of ?k] by (intro mult_right_mono) simp_all
  also have "\<dots> \<le> \<bar>x\<bar> / 2 ^ 53 + 1 / 2 ^ 100"
  proof (cases "ilog2 \<bar>x\<bar> - 52 \<le> - 1074")
    case True
    then have "?u = 2 powi (- 1074)" by (simp add: ulp_exponent_def)
    also have "\<dots> \<le> 2 powi (- 99)" by (intro power_int_increasing) simp_all
    also have "\<dots> = 2 / 2 ^ 100" by (simp add: power_int_minus field_simps)
    finally show ?thesis by simp
  next
    case False
    then have "?u = 2 powi ilog2 \<bar>x\<bar> / 2 ^ 52" by (simp add: ulp_exponent_def power_int_diff)
    also have "\<dots> \<le> \<bar>x\<bar> / 2 ^ 52" using ilog2_bounds [of "\<bar>x\<bar>"] \<open>x \<noteq> 0\<close> by (intro divide_right_mono) simp_all
    finally show ?thesis by simp
  qed
  finally show ?thesis .
qed (simp add: rnd_def)

end
