(* ===== verification/ScrapeTimeout.thy ===== *)
theory ScrapeTimeout
  imports Go_Float
begin

text \<open>
  \<^verbatim>\<open>effectiveTimeout\<close> of \<^verbatim>\<open>internal/probehttp/probehttp.go\<close>: the time a probe may take, from the
  configured maximum and the scrape timeout Prometheus announces in a header.  \<^verbatim>\<open>ParseFloat\<close> is an
  argument (it answers nothing for an error); the arithmetic is that of \<open>Go_Float\<close>.
\<close>

definition Second :: int where "Second = 1000000000"

definition effectiveTimeout ::
  "(string \<Rightarrow> float64 option) \<Rightarrow> (float64 \<Rightarrow> int) \<Rightarrow> string \<Rightarrow> int \<Rightarrow> int \<Rightarrow> int" where
  "effectiveTimeout ParseFloat impl timeoutSecs maxTimeout offset =
     (if timeoutSecs = [] then maxTimeout
      else
        (case ParseFloat timeoutSecs of
           Some (Fin s) \<Rightarrow>
             if s \<le> 0 \<or> s \<ge> Duration_Seconds (wrap64 (maxTimeout + offset)) then maxTimeout
             else
               let scrapeTimeout = wrap64 (to_int64 impl (to_float (s * rnd (of_int Second))) - offset)
               in if scrapeTimeout > 0 then scrapeTimeout else maxTimeout
         | _ \<Rightarrow> maxTimeout))"

section \<open>Bounds\<close>

lemma wrap64_id: "- (2 ^ 63) \<le> n \<Longrightarrow> n < 2 ^ 63 \<Longrightarrow> wrap64 n = n"
  by (simp add: wrap64_def)

lemma wrap64_diff:
  "0 \<le> k \<Longrightarrow> k \<le> 2 ^ 50 \<Longrightarrow> 0 \<le> m \<Longrightarrow> m \<le> 2 ^ 50 \<Longrightarrow> wrap64 (k - m) = k - m"
  by (simp add: wrap64_def)

lemma rnd_bounds:
  assumes "0 \<le> x"
  shows "rnd x \<le> x + x / 2 ^ 53 + 1 / 2 ^ 100" and "x - x / 2 ^ 53 - 1 / 2 ^ 100 \<le> rnd x"
  using rnd_error [of x] assms by (simp_all add: abs_le_iff)

lemma rnd_nonneg: "0 \<le> x \<Longrightarrow> 0 \<le> rnd x"
proof -
  assume "0 \<le> x"
  moreover have "0 \<le> round_half_even (\<bar>x\<bar> / 2 powi ulp_exponent x)"
    by (simp add: round_half_even_def Let_def)
  ultimately show ?thesis by (auto simp: rnd_def)
qed

lemma rnd_Second: "rnd (of_int Second) = 1000000000"
  by code_simp

lemma seconds_arith:
  fixes a b c d sec nsec s :: rat
  assumes "a \<le> sec + sec / 2 ^ 53 + 1 / 2 ^ 100" "c \<le> nsec + nsec / 2 ^ 53 + 1 / 2 ^ 100"
    and "b \<le> c / 1000000000 + c / 1000000000 / 2 ^ 53 + 1 / 2 ^ 100"
    and "s \<le> a + b + (a + b) / 2 ^ 53 + 1 / 2 ^ 100"
    and "d = sec * 1000000000 + nsec" "d \<le> 2 ^ 50" "0 \<le> sec" "0 \<le> nsec" "nsec < 1000000000"
  shows "s * 1000000000 \<le> d + 1 / 2"
  using assms by (simp add: field_simps)

lemma seconds_arith_lower:
  fixes a b c d sec nsec s :: rat
  assumes "sec - sec / 2 ^ 53 - 1 / 2 ^ 100 \<le> a" "nsec - nsec / 2 ^ 53 - 1 / 2 ^ 100 \<le> c"
    and "c / 1000000000 - c / 1000000000 / 2 ^ 53 - 1 / 2 ^ 100 \<le> b"
    and "a + b - (a + b) / 2 ^ 53 - 1 / 2 ^ 100 \<le> s"
    and "d = sec * 1000000000 + nsec" "d \<le> 2 ^ 50" "0 \<le> sec" "0 \<le> nsec" "nsec < 1000000000"
  shows "d - 1 / 2 \<le> s * 1000000000"
  using assms by (simp add: field_simps)

text \<open>\<^verbatim>\<open>Seconds\<close> is exact up to a few units in the last place.\<close>

lemma Duration_Seconds_bounds:
  assumes "0 \<le> d" and "d \<le> 2 ^ 50"
  shows "Duration_Seconds d * 1000000000 \<le> of_int d + 1 / 2"
    and "of_int d - 1 / 2 \<le> Duration_Seconds d * 1000000000"
proof -
  define sec where "sec = d div 1000000000"
  define nsec where "nsec = d mod 1000000000"
  have d: "quot d 1000000000 = sec" "d - sec * 1000000000 = nsec"
    using assms(1) by (auto simp: quot_def sec_def nsec_def minus_div_mult_eq_mod sgn_if)
  have range: "0 \<le> sec" "0 \<le> nsec" "nsec < 1000000000" "d = sec * 1000000000 + nsec"
    using assms(1) by (auto simp: sec_def nsec_def pos_imp_zdiv_nonneg_iff)
  define a where "a = rnd (rat_of_int sec)"
  define c where "c = rnd (rat_of_int nsec)"
  define b where "b = rnd (c / 1000000000)"
  have S: "Duration_Seconds d = rnd (a + b)"
    unfolding Duration_Seconds_def Let_def d a_def b_def c_def by (simp add: d)
  have nn: "0 \<le> a" "0 \<le> c" "0 \<le> b"
    using range by (simp_all add: a_def b_def c_def rnd_nonneg)
  note a = rnd_bounds [of "rat_of_int sec", folded a_def]
  note c = rnd_bounds [of "rat_of_int nsec", folded c_def]
  note b = rnd_bounds [of "c / 1000000000", folded b_def]
  note s = rnd_bounds [of "a + b"]
  have D: "rat_of_int d = rat_of_int sec * 1000000000 + rat_of_int nsec" "rat_of_int d \<le> 2 ^ 50"
    "0 \<le> rat_of_int sec" "0 \<le> rat_of_int nsec" "rat_of_int nsec < 1000000000"
    using range assms(2) of_int_le_iff [of d "2 ^ 50", where 'a = rat] by simp_all
  show "Duration_Seconds d * 1000000000 \<le> of_int d + 1 / 2"
    unfolding S by (rule seconds_arith [OF a(1) c(1) b(1) s(1) D]) (use nn range in simp_all)
  show "of_int d - 1 / 2 \<le> Duration_Seconds d * 1000000000"
    unfolding S by (rule seconds_arith_lower [OF a(2) c(2) b(2) s(2) D]) (use nn range in simp_all)
qed

text \<open>C18.  The effective timeout of a probe is positive and never above the configured maximum,
  whatever the header says, for a maximum and an offset of up to thirteen days together.  A
  scrape timeout that leaves at least two nanoseconds after the offset is respected: up to two
  nanoseconds of rounding, the probe gets the smaller of the maximum and the scrape timeout minus
  the offset.  A scrape timeout within the offset, or one that is not a finite number, is ignored:
  the probe gets the maximum, although the documentation says the smaller of the two, and may
  outlast the scrape.\<close>

theorem effectiveTimeout_bounds:
  assumes "0 < maxTimeout" and "0 \<le> offset" and "maxTimeout + offset \<le> 2 ^ 50"
    and "t = effectiveTimeout ParseFloat impl timeoutSecs maxTimeout offset"
  shows "0 < t \<and> t \<le> maxTimeout \<and>
    (timeoutSecs = [] \<or> (\<nexists>s. ParseFloat timeoutSecs = Some (Fin s)) \<longrightarrow> t = maxTimeout) \<and>
    (\<forall>s. timeoutSecs \<noteq> [] \<and> ParseFloat timeoutSecs = Some (Fin s) \<longrightarrow>
       (of_int offset + 2 \<le> s * 1000000000 \<longrightarrow>
          of_int t \<le> min (of_int maxTimeout) (s * 1000000000 - of_int offset) + 1 \<and>
          min (of_int maxTimeout) (s * 1000000000 - of_int offset) - 2 \<le> of_int t) \<and>
       (s * 1000000000 \<le> of_int offset - 1 \<longrightarrow> t = maxTimeout))"
proof (cases "\<exists>s. timeoutSecs \<noteq> [] \<and> ParseFloat timeoutSecs = Some (Fin s)")
  case False
  then have "t = maxTimeout" unfolding assms(4) effectiveTimeout_def
    by (auto split: option.splits float64.splits)
  with False assms(1) show ?thesis by blast
next
  case True
  then obtain s where s: "timeoutSecs \<noteq> []" "ParseFloat timeoutSecs = Some (Fin s)" by blast
  define d where "d = maxTimeout + offset"
  have d: "0 \<le> d" "d \<le> 2 ^ 50" "wrap64 d = d" using assms(1-3) by (simp_all add: d_def wrap64_id)
  note S = Duration_Seconds_bounds [OF d(1,2)]
  show ?thesis
  proof (cases "s \<le> 0 \<or> s \<ge> Duration_Seconds d")
    case True
    then have "t = maxTimeout" unfolding assms(4) effectiveTimeout_def using s d(3) by (simp add: d_def)
    moreover have "rat_of_int d \<le> s * 1000000000 + 1 \<or> s \<le> 0" using True S(2) by linarith
    ultimately show ?thesis using s assms(1,2) by (auto simp: d_def)
  next
    case False
    define p where "p = rnd (s * 1000000000)"
    have "0 \<le> s * 1000000000" "s * 1000000000 \<le> 2 ^ 50 + 1"
      using False S(1) d(2) of_int_le_iff [of d "2 ^ 50", where 'a = rat] by simp_all
    with rnd_bounds [of "s * 1000000000", folded p_def] rnd_nonneg [of "s * 1000000000", folded p_def]
    have p: "0 \<le> p" "p \<le> s * 1000000000 + 1 / 4" "s * 1000000000 - 1 / 4 \<le> p" "p < 2 ^ 51" by simp_all
    have pd: "p < of_int d + 1" using p(2) False S(1) by linarith
    have fl: "0 \<le> floor p" "floor p \<le> d" "floor p \<le> 2 ^ 50"
      using p(1) pd d(2) by (simp_all add: floor_less_iff less_add_one) linarith+
    have "p < 2 ^ 1024" using p(4) by (rule less_trans) simp
    moreover have "- (2 ^ 1024) < p" using p(1) by (simp add: less_le_trans [of _ 0])
    ultimately have "to_float (s * 1000000000) = Fin p" by (simp add: to_float_def p_def Let_def)
    then have "to_int64 impl (to_float (s * rnd (of_int Second))) = floor p"
      using p(1) fl by (simp add: rnd_Second truncate_def)
    moreover have "wrap64 (floor p - offset) = floor p - offset"
      using fl(1,3) assms(1-3) by (intro wrap64_diff) simp_all
    ultimately have t: "t = (if floor p - offset > 0 then floor p - offset else maxTimeout)"
      unfolding assms(4) effectiveTimeout_def using s False d(3) by (simp add: d_def)
    have le: "rat_of_int (floor p) \<le> s * 1000000000 + 1" using p(2) of_int_floor_le [of p] by linarith
    have ge: "s * 1000000000 - 5 / 4 \<le> rat_of_int (floor p)" using p(3) floor_correct [of p] by linarith
    have "of_int t \<le> min (of_int maxTimeout) (s * 1000000000 - of_int offset) + 1 \<and>
        min (of_int maxTimeout) (s * 1000000000 - of_int offset) - 2 \<le> of_int t"
      if "of_int offset + 2 \<le> s * 1000000000"
    proof -
      have "offset + 1 \<le> floor p" using that p(3) by (simp add: le_floor_iff)
      with t have "t = floor p - offset" by simp
      with le ge fl(2) show ?thesis by (simp add: d_def min_def)
    qed
    moreover have "t = maxTimeout" if "s * 1000000000 \<le> of_int offset - 1"
    proof -
      have "floor p \<le> offset" using that p(2) by (simp add: floor_le_iff)
      with t show ?thesis by simp
    qed
    moreover have "0 < t \<and> t \<le> maxTimeout" using t fl(2) assms(1) by (simp add: d_def)
    ultimately show ?thesis using s by simp
  qed
qed

theorem effectiveTimeout_bounds_witness:
  "effectiveTimeout (\<lambda>_. Some (Fin 3)) (\<lambda>_. 0) ''3'' 5000000000 500000000 \<in> {2499999998..2500000001} \<and>
   effectiveTimeout (\<lambda>_. Some (Fin (1 / 4))) (\<lambda>_. 0) ''0.25'' 5000000000 500000000 = 5000000000"
proof
  note b = effectiveTimeout_bounds [where maxTimeout = 5000000000 and offset = 500000000, OF _ _ _ refl,
    THEN conjunct2, THEN conjunct2, THEN conjunct2, THEN spec, THEN mp]
  let ?t = "effectiveTimeout (\<lambda>_. Some (Fin 3)) (\<lambda>_. 0) ''3'' 5000000000 500000000"
  from b [of "''3''" "\<lambda>_. Some (Fin 3)" 3 "\<lambda>_. 0"] have "rat_of_int ?t \<le> of_int 2500000001" "of_int 2499999998 \<le> rat_of_int ?t"
    by simp_all
  then show "?t \<in> {2499999998..2500000001}" unfolding of_int_le_iff by simp
  from b [of "''0.25''" "\<lambda>_. Some (Fin (1 / 4))" "1 / 4" "\<lambda>_. 0"]
  show "effectiveTimeout (\<lambda>_. Some (Fin (1 / 4))) (\<lambda>_. 0) ''0.25'' 5000000000 500000000 = 5000000000" by simp
qed

end
