(* ===== verification/Transitions.thy ===== *)
theory Transitions
  imports Main
begin

text \<open>
  Transition systems: the reachable states of a step relation, and the interface of an inductive
  invariant.  The \<^verbatim>\<open>/probe\<close> handler, concurrent reloads and \<^verbatim>\<open>serve\<close> are such systems.
\<close>

inductive reach :: "('s \<Rightarrow> bool) \<Rightarrow> ('s \<Rightarrow> 's \<Rightarrow> bool) \<Rightarrow> 's \<Rightarrow> bool" for init step where
  start: "init s \<Longrightarrow> reach init step s"
| more: "reach init step s \<Longrightarrow> step s t \<Longrightarrow> reach init step t"

inductive run :: "('s \<Rightarrow> 's \<Rightarrow> bool) \<Rightarrow> nat \<Rightarrow> 's \<Rightarrow> 's \<Rightarrow> bool" for step where
  run0: "run step 0 s s"
| runS: "step s t \<Longrightarrow> run step n t u \<Longrightarrow> run step (Suc n) s u"

lemma run_reach: "run step n s t \<Longrightarrow> reach init step s \<Longrightarrow> reach init step t"
  by (induction rule: run.induct) (auto intro: reach.more)

locale inductive_invariant =
  fixes init :: "'s \<Rightarrow> bool"
    and step :: "'s \<Rightarrow> 's \<Rightarrow> bool"
    and inv :: "'s \<Rightarrow> bool"
  assumes base: "init s \<Longrightarrow> inv s"
    and keep: "inv s \<Longrightarrow> step s t \<Longrightarrow> inv t"
begin

lemma reach_inv: "reach init step s \<Longrightarrow> inv s"
  by (induction rule: reach.induct) (auto intro: base keep)

lemma run_inv: "run step n s t \<Longrightarrow> inv s \<Longrightarrow> inv t"
  by (induction rule: run.induct) (auto intro: keep)

end

text \<open>
  A ranking: every step lowers it, and as long as there is work some step is enabled.  Then all
  runs are bounded by the rank of their first state, and each can be extended until the work is
  done.
\<close>

locale ranked_system = inductive_invariant +
  fixes rank :: "'s \<Rightarrow> nat"
    and finished :: "'s \<Rightarrow> bool"
  assumes lower: "inv s \<Longrightarrow> step s t \<Longrightarrow> rank t < rank s"
    and enabled: "inv s \<Longrightarrow> \<not> finished s \<Longrightarrow> \<exists>t. step s t"
begin

lemma run_bounded: "run step n s t \<Longrightarrow> inv s \<Longrightarrow> n + rank t \<le> rank s"
proof (induction rule: run.induct)
  case (runS s t n u)
  then show ?case using lower [of s t] keep [of s t] by fastforce
qed simp

lemma run_completes: "inv s \<Longrightarrow> \<exists>n t. run step n s t \<and> finished t"
proof (induction "rank s" arbitrary: s rule: less_induct)
  case less
  show ?case
  proof (cases "finished s")
    case True
    then show ?thesis using run.run0 [of step s] by blast
  next
    case False
    with less.prems obtain t where t: "step s t" using enabled by blast
    with less obtain n u where "run step n t u" and "finished u" using lower [OF less.prems t] keep [OF less.prems t] by blast
    with run.runS [of step s t] t show ?thesis by blast
  qed
qed

end

section \<open>Populations\<close>

text \<open>
  Concurrent calls are a finite map from identifiers to where each call has got to; their total
  weight falls whenever one of them advances or returns.
\<close>

definition weight :: "('a \<Rightarrow> nat) \<Rightarrow> ('i \<rightharpoonup> 'a) \<Rightarrow> nat" where
  "weight f m = (\<Sum>i\<in>dom m. f (the (m i)))"

lemma weight_advance:
  assumes "finite (dom m)" and "m i = Some x" and "f y < f x"
  shows "weight f (m(i \<mapsto> y)) < weight f m"
proof -
  have "dom (m(i \<mapsto> y)) = dom m" using assms(2) by auto
  moreover have "(\<Sum>j\<in>dom m. f (the ((m(i \<mapsto> y)) j))) < (\<Sum>j\<in>dom m. f (the (m j)))"
    using assms by (intro sum_strict_mono_ex1) (auto intro!: bexI [of _ i])
  ultimately show ?thesis by (simp add: weight_def)
qed

lemma weight_return:
  assumes "finite (dom m)" and "m i = Some x" and "0 < f x"
  shows "weight f (m(i := None)) < weight f m"
proof -
  have "weight f (m(i := None)) = sum (\<lambda>j. f (the (m j))) (dom m - {i})"
    unfolding weight_def by (rule sum.cong) auto
  moreover have "weight f m = f x + sum (\<lambda>j. f (the (m j))) (dom m - {i})"
    unfolding weight_def using assms(1,2) by (subst sum.remove [of _ i]) auto
  ultimately show ?thesis using assms(3) by simp
qed

lemma weight_bounded: "(\<And>x. f x \<le> c) \<Longrightarrow> weight f m \<le> c * card (dom m)"
  unfolding weight_def using sum_bounded_above [of "dom m" "\<lambda>i. f (the (m i))" c] by (simp add: mult.commute)

end
