(* ===== verification/Handler.thy ===== *)
theory Handler
  imports Request ConfigModules Collector ScrapeTimeout Transitions
begin

text \<open>
  The \<^verbatim>\<open>/probe\<close> handler (\<^verbatim>\<open>internal/probehttp/probehttp.go\<close>).  Admission of a request is a function
  of the live configuration; the rest of the handler is a step relation, since net/http runs it
  concurrently for all requests: each rule is one atomic action on the state the requests share
  (the semaphore channel, the gauge, the counters, the pointer to the configuration).  What
  \<^verbatim>\<open>promhttp\<close> answers for the collector is an arbitrary status, and it may panic.
\<close>

section \<open>Responses\<close>

datatype reject_msg =
    UnknownModule string
  | TargetRequired
  | MalformedTarget port_error
  | PortNotAllowed int string
  | TargetNotAllowed string string
  | ConcurrencyLimit int

definition StatusBadRequest :: int where [simp]: "StatusBadRequest = 400"
definition StatusForbidden :: int where [simp]: "StatusForbidden = 403"
definition StatusServiceUnavailable :: int where [simp]: "StatusServiceUnavailable = 503"
definition StatusOK :: int where [simp]: "StatusOK = 200"

definition StatusText :: "int \<Rightarrow> string" where
  "StatusText code =
     (if code = 200 then ''OK'' else if code = 400 then ''Bad Request'' else if code = 403 then ''Forbidden''
      else if code = 503 then ''Service Unavailable'' else [])"

definition moduleUnresolved :: string where "moduleUnresolved = []"

subsection \<open>The status recorder\<close>

text \<open>
  A response writer of \<^verbatim>\<open>net/http\<close>: the status line, once it is sent, and the body.  A second final
  status is ignored, a write without a status sends 200, and informational statuses (1xx) are sent
  at once without settling the final one.
\<close>

record response_writer =
  rw_status :: "int option"
  rw_body :: bytes

definition rw_new :: response_writer where "rw_new = \<lparr> rw_status = None, rw_body = [] \<rparr>"

definition rw_WriteHeader :: "int \<Rightarrow> response_writer \<Rightarrow> response_writer" where
  "rw_WriteHeader code w =
     (if rw_status w \<noteq> None \<or> (100 \<le> code \<and> code \<le> 199 \<and> code \<noteq> 101) then w else w\<lparr> rw_status := Some code \<rparr>)"

definition rw_Write :: "bytes \<Rightarrow> response_writer \<Rightarrow> response_writer" where
  "rw_Write b w = (let w' = (if rw_status w = None then w\<lparr> rw_status := Some 200 \<rparr> else w) in w'\<lparr> rw_body := rw_body w' @ b \<rparr>)"

text \<open>The status the client sees when the handler is through.\<close>

definition rw_final :: "response_writer \<Rightarrow> int" where
  "rw_final w = (case rw_status w of Some c \<Rightarrow> c | None \<Rightarrow> 200)"

record statusRecorder =
  rec_w :: response_writer
  rec_status :: int
  rec_wroteHeader :: bool

definition newStatusRecorder :: "response_writer \<Rightarrow> statusRecorder" where
  "newStatusRecorder w = \<lparr> rec_w = w, rec_status = StatusOK, rec_wroteHeader = False \<rparr>"

definition rec_WriteHeader :: "int \<Rightarrow> statusRecorder \<Rightarrow> statusRecorder" where
  "rec_WriteHeader code rc =
     (let rc' = (if \<not> rec_wroteHeader rc then rc\<lparr> rec_status := code, rec_wroteHeader := True \<rparr> else rc)
      in rc'\<lparr> rec_w := rw_WriteHeader code (rec_w rc') \<rparr>)"

definition rec_Write :: "bytes \<Rightarrow> statusRecorder \<Rightarrow> statusRecorder" where
  "rec_Write b rc = (let rc' = rc\<lparr> rec_wroteHeader := True \<rparr> in rc'\<lparr> rec_w := rw_Write b (rec_w rc') \<rparr>)"

datatype write_op = OpWriteHeader int | OpWrite bytes

fun rec_op :: "statusRecorder \<Rightarrow> write_op \<Rightarrow> statusRecorder" where
  "rec_op rc (OpWriteHeader code) = rec_WriteHeader code rc"
| "rec_op rc (OpWrite b) = rec_Write b rc"

definition recorded :: "write_op list \<Rightarrow> statusRecorder" where
  "recorded ops = foldl rec_op (newStatusRecorder rw_new) ops"

definition recorder_ok :: "statusRecorder \<Rightarrow> bool" where
  "recorder_ok rc \<longleftrightarrow>
     (if rec_wroteHeader rc then rw_status (rec_w rc) = Some (rec_status rc)
      else rw_status (rec_w rc) = None \<and> rec_status rc = 200)"

lemma recorder_step: "recorder_ok rc \<Longrightarrow> (\<forall>c. op = OpWriteHeader c \<longrightarrow> 200 \<le> c) \<Longrightarrow> recorder_ok (rec_op rc op)"
  by (cases op) (auto simp: recorder_ok_def rec_WriteHeader_def rec_Write_def rw_WriteHeader_def rw_Write_def Let_def split: if_splits)

definition final_statuses :: "write_op list \<Rightarrow> bool" where
  "final_statuses ops \<longleftrightarrow> (\<forall>c. OpWriteHeader c \<in> set ops \<longrightarrow> 200 \<le> c)"

lemma recorded_ok:
  assumes "final_statuses ops"
  shows "recorder_ok (recorded ops)"
proof -
  have "recorder_ok (foldl rec_op rc ops)" if "recorder_ok rc" for rc
    using assms that unfolding final_statuses_def
  proof (induction ops arbitrary: rc)
    case (Cons op ops)
    then have "recorder_ok (rec_op rc op)" by (intro recorder_step) auto
    with Cons show ?case by simp
  qed simp
  then show ?thesis
    by (simp add: recorded_def recorder_ok_def newStatusRecorder_def rw_new_def)
qed

lemma recorder_ok_final: "recorder_ok rc \<Longrightarrow> rw_final (rec_w rc) = rec_status rc"
  by (auto simp: recorder_ok_def rw_final_def split: if_splits)

text \<open>C28.  The status counted for a probe is the one the client receives, for every sequence of
  headers and writes the wrapped handler makes with final statuses.\<close>

theorem statusRecorder_faithful:
  assumes "\<forall>c. OpWriteHeader c \<in> set ops \<longrightarrow> 200 \<le> c"
  shows "rec_status (recorded ops) = rw_final (rec_w (recorded ops))"
  using assms recorder_ok_final [OF recorded_ok] by (simp add: final_statuses_def)

theorem statusRecorder_faithful_witness:
  "rec_status (recorded [OpWriteHeader 500, OpWrite ''x'', OpWriteHeader 200]) = 500 \<and>
   rw_final (rec_w (recorded [OpWriteHeader 500, OpWrite ''x'', OpWriteHeader 200])) = 500"
proof -
  have "rec_status (recorded [OpWriteHeader 500, OpWrite ''x'', OpWriteHeader 200]) = 500" by code_simp
  then show ?thesis using statusRecorder_faithful [of "[OpWriteHeader 500, OpWrite ''x'', OpWriteHeader 200]"] by simp
qed

section \<open>Admission\<close>

record http_request =
  rq_module :: string
  rq_target :: string
  rq_scrapeTimeout :: string

definition moduleName :: "http_request \<Rightarrow> string" where
  "moduleName r = (if rq_module r = [] then DefaultModuleName else rq_module r)"

text \<open>
  From the query to the point where the semaphore is tried: a refusal with the module label to
  count, the status and the message, or the module and the address to probe.
\<close>

definition admission ::
  "(string \<Rightarrow> string) \<Rightarrow> (string \<rightharpoonup> Module) \<Rightarrow> http_request \<Rightarrow>
     (string \<times> int \<times> reject_msg) + (string \<times> Module \<times> string)" where
  "admission ul modules r =
     (let name = moduleName r in
      case modules name of
        None \<Rightarrow> Inl (moduleUnresolved, StatusBadRequest, UnknownModule name)
      | Some md \<Rightarrow>
          if rq_target r = [] then Inl (name, StatusBadRequest, TargetRequired)
          else
            (case ensurePort ul (rq_target r) (mod_TargetPort md) of
               Inl err \<Rightarrow> Inl (name, StatusBadRequest, MalformedTarget err)
             | Inr (target, host, port) \<Rightarrow>
                 if port \<notin> mod_AllowedPorts md then Inl (name, StatusForbidden, PortNotAllowed port name)
                 else if \<not> targetAllowed Match host (mod_AllowedTargets md)
                 then Inl (name, StatusForbidden, TargetNotAllowed host name)
                 else Inr (name, md, target)))"

lemma admission_Inr:
  "admission ul modules r = Inr (name, md, target) \<longleftrightarrow>
     name = moduleName r \<and> modules name = Some md \<and> rq_target r \<noteq> [] \<and>
     (\<exists>host port. ensurePort ul (rq_target r) (mod_TargetPort md) = Inr (target, host, port) \<and>
        port \<in> mod_AllowedPorts md \<and> targetAllowed Match host (mod_AllowedTargets md))"
  by (auto simp: admission_def Let_def split: option.splits sum.splits if_splits)

lemma admission_Inl_label:
  "admission ul modules r = Inl (label, code, msg) \<Longrightarrow>
     (label = [] \<and> code = 400) \<or> (label \<in> dom modules \<and> code \<in> {400, 403})"
  by (auto simp: admission_def Let_def moduleUnresolved_def split: option.splits sum.splits if_splits)

lemma admitted_target:
  assumes "keeps_punctuation ul" and "admission ul modules r = Inr (name, md, target)"
    and "SplitHostPort target = Some (h, p)" and "0 \<le> mod_TargetPort md" and "mod_TargetPort md < 2 ^ 63"
  shows "modules name = Some md \<and> (\<exists>m\<in>set (mod_AllowedTargets md). h \<in> allowed_hosts m) \<and>
    (\<exists>port\<in>mod_AllowedPorts md. Atoi p = Inr port)"
proof -
  from assms(2) obtain host port where "modules name = Some md"
    and e: "ensurePort ul (rq_target r) (mod_TargetPort md) = Inr (target, host, port)"
    and "port \<in> mod_AllowedPorts md" and "targetAllowed Match host (mod_AllowedTargets md)"
    unfolding admission_Inr by blast
  moreover from ensurePort_split [OF assms(1) e assms(3-5)] have "h = host" and "Atoi p = Inr port"
    by (simp_all add: Atoi_Itoa)
  ultimately show ?thesis by (auto simp: tm.allowed_iff)
qed

definition sample_module :: Module where
  "sample_module = \<lparr> mod_Options = sample_options, mod_AllowedTargets = [wildcardMatcher ''example.com''],
     mod_AllowedPorts = {22, 2222}, mod_TargetPort = 22 \<rparr>"

definition sample_request :: http_request where
  "sample_request = \<lparr> rq_module = [], rq_target = ''DB.Example.com.:2222'', rq_scrapeTimeout = ''3'' \<rparr>"

lemma sample_admission:
  "admission (map lower_byte) [''default'' \<mapsto> sample_module] sample_request =
     Inr (''default'', sample_module, ''db.example.com:2222'')"
proof -
  have "ensurePort (map lower_byte) ''DB.Example.com.:2222'' 22 = Inr (''db.example.com:2222'', ''db.example.com'', 2222)"
    and "targetAllowed Match ''db.example.com'' [wildcardMatcher ''example.com'']"
    by code_simp+
  then show ?thesis
    unfolding admission_Inr sample_request_def by (simp add: moduleName_def DefaultModuleName_def sample_module_def)
qed

text \<open>C40.  A module that lists only \<^verbatim>\<open>*.example.com\<close> admits an IPv6 literal with a zone chosen by the
  requester, so that the address dialled is not a name under that domain.\<close>

theorem wildcard_admits_zoned_literal:
  "let modules = [''default'' \<mapsto> sample_module];
       r = \<lparr> rq_module = [], rq_target = ''[2001:db8::1%25x.example.com]'', rq_scrapeTimeout = [] \<rparr>
   in admission (map lower_byte) modules r = Inr (''default'', sample_module, ''[2001:db8::1%x.example.com]:22'') \<and>
      isHostname ''[2001:db8::1%x.example.com]:22'' = False \<and>
      (\<exists>a. ParseAddr ''2001:db8::1%x.example.com'' = Some (IPv6 a ''x.example.com''))"
proof -
  have "ParseAddr ''2001:db8::1%x.example.com'' = Some (IPv6 42540766411282592856903984951653826561 ''x.example.com'')"
    and "ensurePort (map lower_byte) ''[2001:db8::1%25x.example.com]'' 22 =
      Inr (''[2001:db8::1%x.example.com]:22'', ''2001:db8::1%x.example.com'', 22)"
    and "targetAllowed Match ''2001:db8::1%x.example.com'' [wildcardMatcher ''example.com'']"
    and "isHostname ''[2001:db8::1%x.example.com]:22'' = False"
    by code_simp+
  then show ?thesis unfolding Let_def admission_Inr
    by (simp add: moduleName_def DefaultModuleName_def sample_module_def)
qed

end
