(* ===== verification/HandlerRuns.thy ===== *)
theory HandlerRuns
  imports Handler
begin

text \<open>
  The handler running for many requests at once.  Each request is a task with the place it has
  reached; the shared state is the pointer to the configuration, the semaphore channel, the gauge
  of probes in flight and the counter of requests.  The log of answers is a ghost variable.
\<close>

section \<open>The shared state and its atomic actions\<close>

record handler_options =
  ho_Timeout :: int
  ho_TimeoutOffset :: int
  ho_MaxConcurrent :: int

text \<open>
  The places of a request in the handler: admitted, holding a slot of the semaphore, probing (the
  gauge is incremented), answered (the deferred calls are to run), and with the gauge decremented.
\<close>

datatype place = Admitted | Holding | Probing | Answered | Leaving

record task =
  t_module :: string
  t_mod :: Module
  t_target :: string
  t_scrapeTimeout :: string
  t_place :: place

record hstate =
  h_live :: "string \<rightharpoonup> Module"
  h_sem :: int
  h_inFlight :: int
  h_requests :: "string \<times> string \<Rightarrow> nat"
  h_tasks :: "nat \<rightharpoonup> task"
  h_log :: "(nat \<times> string \<times> int) list"

text \<open>
  The environment of the handler: the Unicode table, \<^verbatim>\<open>ParseFloat\<close>, the conversion of floats out of
  range, and the options.
\<close>

record handler_env =
  he_lower :: "string \<Rightarrow> string"
  he_ParseFloat :: "string \<Rightarrow> float64 option"
  he_impl :: "float64 \<Rightarrow> int"
  he_opts :: handler_options

text \<open>The channel of capacity \<^verbatim>\<open>MaxConcurrent\<close>, or nil without a limit.\<close>

definition try_send :: "int \<Rightarrow> int \<Rightarrow> int option" where
  "try_send limit n = (if limit > 0 then (if n < limit then Some (n + 1) else None) else Some n)"

definition receive :: "int \<Rightarrow> int \<Rightarrow> int" where
  "receive limit n = (if limit > 0 then n - 1 else n)"

text \<open>
  The answer a client gets, for the ghost log, and \<^verbatim>\<open>requests.WithLabelValues(module, code).Inc()\<close>.
  They are separate actions: nothing but the handler's own code relates them.
\<close>

definition respond :: "nat \<Rightarrow> string \<Rightarrow> int \<Rightarrow> hstate \<Rightarrow> hstate" where
  "respond i label code s = s\<lparr> h_log := (i, label, code) # h_log s \<rparr>"

definition count_request :: "string \<Rightarrow> int \<Rightarrow> hstate \<Rightarrow> hstate" where
  "count_request label code s =
     s\<lparr> h_requests := (h_requests s)((label, Itoa code) := h_requests s (label, Itoa code) + 1) \<rparr>"

text \<open>\<^verbatim>\<open>http.Error\<close> sends the status with the message.\<close>

definition writeError :: "nat \<Rightarrow> string \<Rightarrow> int \<Rightarrow> reject_msg \<Rightarrow> hstate \<Rightarrow> (int \<times> string \<times> reject_msg) \<times> hstate" where
  "writeError i label code msg s =
     ((code, Itoa code @ '' '' @ StatusText code, msg), count_request label code (respond i label code s))"

definition put_task :: "nat \<Rightarrow> task \<Rightarrow> hstate \<Rightarrow> hstate" where
  "put_task i t s = s\<lparr> h_tasks := (h_tasks s)(i \<mapsto> t) \<rparr>"

definition drop_task :: "nat \<Rightarrow> hstate \<Rightarrow> hstate" where
  "drop_task i s = s\<lparr> h_tasks := (h_tasks s)(i := None) \<rparr>"

definition arrive :: "handler_env \<Rightarrow> nat \<Rightarrow> http_request \<Rightarrow> hstate \<Rightarrow> hstate" where
  "arrive env i r s =
     (case admission (he_lower env) (h_live s) r of
        Inl (label, code, msg) \<Rightarrow> snd (writeError i label code msg s)
      | Inr (name, md, target) \<Rightarrow>
          put_task i \<lparr> t_module = name, t_mod = md, t_target = target, t_scrapeTimeout = rq_scrapeTimeout r,
                       t_place = Admitted \<rparr> s)"

definition acquire :: "handler_env \<Rightarrow> nat \<Rightarrow> task \<Rightarrow> hstate \<Rightarrow> hstate" where
  "acquire env i t s =
     (case try_send (ho_MaxConcurrent (he_opts env)) (h_sem s) of
        Some n \<Rightarrow> put_task i (t\<lparr> t_place := Holding \<rparr>) (s\<lparr> h_sem := n \<rparr>)
      | None \<Rightarrow>
          drop_task i (snd (writeError i (t_module t) StatusServiceUnavailable
            (ConcurrencyLimit (ho_MaxConcurrent (he_opts env))) s)))"

definition begin_probe :: "nat \<Rightarrow> task \<Rightarrow> hstate \<Rightarrow> hstate" where
  "begin_probe i t s = put_task i (t\<lparr> t_place := Probing \<rparr>) (s\<lparr> h_inFlight := h_inFlight s + 1 \<rparr>)"

text \<open>
  What the probe of a task is: the collector \<^verbatim>\<open>New\<close> builds for it, and the timeout of its context.
\<close>

definition probe_of :: "(mss_calls \<Rightarrow> gerr + int) \<Rightarrow> world \<Rightarrow> task \<Rightarrow> SSHCollector" where
  "probe_of tcpMSS w t = New_collector tcpMSS w (t_target t) (t_module t) (mod_Options (t_mod t))"

definition probe_timeout :: "handler_env \<Rightarrow> task \<Rightarrow> int" where
  "probe_timeout env t =
     effectiveTimeout (he_ParseFloat env) (he_impl env) (t_scrapeTimeout t)
       (ho_Timeout (he_opts env)) (ho_TimeoutOffset (he_opts env))"

text \<open>
  \<^verbatim>\<open>promhttp\<close> writes to the recorder, the client receives what passes through it, and the recorded
  status is counted.
\<close>

definition answer :: "nat \<Rightarrow> task \<Rightarrow> write_op list \<Rightarrow> hstate \<Rightarrow> hstate" where
  "answer i t ops s =
     (let rc = recorded ops;
          s1 = respond i (t_module t) (rw_final (rec_w rc)) s;
          s2 = count_request (t_module t) (rec_status rc) s1
      in put_task i (t\<lparr> t_place := Answered \<rparr>) s2)"

text \<open>A panic of the wrapped handler skips the counter but not the deferred calls.\<close>

definition panic :: "nat \<Rightarrow> task \<Rightarrow> hstate \<Rightarrow> hstate" where
  "panic i t s = put_task i (t\<lparr> t_place := Answered \<rparr>) s"

definition end_probe :: "nat \<Rightarrow> task \<Rightarrow> hstate \<Rightarrow> hstate" where
  "end_probe i t s = put_task i (t\<lparr> t_place := Leaving \<rparr>) (s\<lparr> h_inFlight := h_inFlight s - 1 \<rparr>)"

definition leave :: "handler_env \<Rightarrow> nat \<Rightarrow> hstate \<Rightarrow> hstate" where
  "leave env i s = drop_task i (s\<lparr> h_sem := receive (ho_MaxConcurrent (he_opts env)) (h_sem s) \<rparr>)"

definition Handler_init :: "hstate \<Rightarrow> bool" where
  "Handler_init s \<longleftrightarrow> h_sem s = 0 \<and> h_inFlight s = 0 \<and> h_requests s = (\<lambda>_. 0) \<and> h_tasks s = Map.empty \<and> h_log s = []"

text \<open>The steps of requests already in the handler.\<close>

inductive task_step :: "handler_env \<Rightarrow> hstate \<Rightarrow> hstate \<Rightarrow> bool" for env where
  acquires: "h_tasks s i = Some t \<Longrightarrow> t_place t = Admitted \<Longrightarrow> task_step env s (acquire env i t s)"
| begins: "h_tasks s i = Some t \<Longrightarrow> t_place t = Holding \<Longrightarrow> task_step env s (begin_probe i t s)"
| answers: "h_tasks s i = Some t \<Longrightarrow> t_place t = Probing \<Longrightarrow> final_statuses ops \<Longrightarrow> task_step env s (answer i t ops s)"
| panics: "h_tasks s i = Some t \<Longrightarrow> t_place t = Probing \<Longrightarrow> task_step env s (panic i t s)"
| ends: "h_tasks s i = Some t \<Longrightarrow> t_place t = Answered \<Longrightarrow> task_step env s (end_probe i t s)"
| leaves: "h_tasks s i = Some t \<Longrightarrow> t_place t = Leaving \<Longrightarrow> task_step env s (leave env i s)"

text \<open>All steps: also new requests, and a reload of the configuration.\<close>

inductive handler_step :: "handler_env \<Rightarrow> hstate \<Rightarrow> hstate \<Rightarrow> bool" for env where
  arrives: "h_tasks s i = None \<Longrightarrow> handler_step env s (arrive env i r s)"
| works: "task_step env s t \<Longrightarrow> handler_step env s t"
| reloads: "handler_step env s (s\<lparr> h_live := modules \<rparr>)"

inductive_cases task_stepE: "task_step env s t"
inductive_cases handler_stepE: "handler_step env s t"

section \<open>The invariant\<close>

definition at_place :: "place set \<Rightarrow> hstate \<Rightarrow> nat set" where
  "at_place P s = {i. \<exists>t. h_tasks s i = Some t \<and> t_place t \<in> P}"

definition holders :: "hstate \<Rightarrow> nat set" where
  "holders = at_place {Holding, Probing, Answered, Leaving}"

definition probing :: "hstate \<Rightarrow> nat set" where
  "probing = at_place {Probing, Answered}"

definition handler_inv :: "handler_env \<Rightarrow> hstate \<Rightarrow> bool" where
  "handler_inv env s \<longleftrightarrow>
     finite (dom (h_tasks s)) \<and>
     h_sem s = (if ho_MaxConcurrent (he_opts env) > 0 then int (card (holders s)) else 0) \<and>
     (ho_MaxConcurrent (he_opts env) > 0 \<longrightarrow> h_sem s \<le> ho_MaxConcurrent (he_opts env)) \<and>
     h_inFlight s = int (card (probing s)) \<and>
     (\<forall>k. h_requests s k = count_list (map (\<lambda>(i, label, code). (label, Itoa code)) (h_log s)) k)"

lemma at_put [simp]:
  "at_place P (put_task i t s) = (if t_place t \<in> P then insert i (at_place P s) else at_place P s - {i})"
  by (auto simp: at_place_def put_task_def)

lemma at_drop [simp]: "at_place P (drop_task i s) = at_place P s - {i}"
  by (auto simp: at_place_def drop_task_def)

lemma at_frame [simp]:
  "at_place P (s\<lparr> h_sem := n \<rparr>) = at_place P s" "at_place P (s\<lparr> h_inFlight := m \<rparr>) = at_place P s" "at_place P (s\<lparr> h_live := l \<rparr>) = at_place P s"
  "at_place P (count_request label code s) = at_place P s" "at_place P (respond i label code s) = at_place P s"
  by (simp_all add: at_place_def count_request_def respond_def)

lemma at_iff: "h_tasks s i = Some t \<Longrightarrow> i \<in> at_place P s \<longleftrightarrow> t_place t \<in> P"
  by (simp add: at_place_def)

lemma at_None: "h_tasks s i = None \<Longrightarrow> i \<notin> at_place P s"
  by (simp add: at_place_def)

lemma finite_at: "finite (dom (h_tasks s)) \<Longrightarrow> finite (at_place P s)"
  by (rule finite_subset [of _ "dom (h_tasks s)"]) (auto simp: at_place_def)

lemma task_fields [simp]:
  "h_tasks (put_task i t s) = (h_tasks s)(i \<mapsto> t)" "h_tasks (drop_task i s) = (h_tasks s)(i := None)"
  "h_sem (put_task i t s) = h_sem s" "h_sem (drop_task i s) = h_sem s"
  "h_inFlight (put_task i t s) = h_inFlight s" "h_inFlight (drop_task i s) = h_inFlight s"
  "h_requests (put_task i t s) = h_requests s" "h_requests (drop_task i s) = h_requests s"
  "h_log (put_task i t s) = h_log s" "h_log (drop_task i s) = h_log s"
  "h_live (put_task i t s) = h_live s" "h_live (drop_task i s) = h_live s"
  by (simp_all add: put_task_def drop_task_def)

lemma count_fields [simp]:
  "h_tasks (count_request label code s) = h_tasks s" "h_sem (count_request label code s) = h_sem s"
  "h_inFlight (count_request label code s) = h_inFlight s" "h_live (count_request label code s) = h_live s"
  "h_log (count_request label code s) = h_log s"
  "h_requests (count_request label code s) k = h_requests s k + (if k = (label, Itoa code) then 1 else 0)"
  by (simp_all add: count_request_def)

lemma respond_fields [simp]:
  "h_tasks (respond i label code s) = h_tasks s" "h_sem (respond i label code s) = h_sem s"
  "h_inFlight (respond i label code s) = h_inFlight s" "h_live (respond i label code s) = h_live s"
  "h_log (respond i label code s) = (i, label, code) # h_log s" "h_requests (respond i label code s) = h_requests s"
  by (simp_all add: respond_def)

lemma int_card_remove: "finite A \<Longrightarrow> x \<in> A \<Longrightarrow> int (card (A - {x})) = int (card A) - 1"
  by (metis add_diff_cancel_right' card_Suc_Diff1 of_nat_1 of_nat_add Suc_eq_plus1)

lemmas place_defs = holders_def probing_def

lemma task_step_inv:
  assumes "handler_inv env s" and "task_step env s s'"
  shows "handler_inv env s'"
  using assms(2)
proof cases
  case (acquires i t)
  with assms(1) show ?thesis
    using finite_at [of s "{Holding, Probing, Answered, Leaving}"] finite_at [of s "{Probing, Answered}"]
    by (auto simp: handler_inv_def place_defs acquire_def writeError_def try_send_def at_iff split: option.splits if_splits)
next
  case (begins i t)
  with assms(1) show ?thesis
    using finite_at [of s "{Holding, Probing, Answered, Leaving}"] finite_at [of s "{Probing, Answered}"]
    by (auto simp: handler_inv_def place_defs begin_probe_def at_iff insert_absorb)
next
  case (answers i t ops)
  with assms(1) show ?thesis
    by (auto simp: handler_inv_def place_defs answer_def Let_def recorder_ok_final [OF recorded_ok] at_iff insert_absorb)
next
  case (panics i t)
  with assms(1) show ?thesis
    by (auto simp: handler_inv_def place_defs panic_def at_iff insert_absorb)
next
  case (ends i t)
  have "finite (at_place {Probing, Answered} s)" using assms(1) by (simp add: handler_inv_def finite_at)
  then have "int (card (at_place {Probing, Answered} s - {i})) = int (card (at_place {Probing, Answered} s)) - 1"
    using ends by (intro int_card_remove) (simp_all add: at_iff)
  with ends assms(1) show ?thesis
    by (auto simp: handler_inv_def place_defs end_probe_def at_iff insert_absorb)
next
  case (leaves i t)
  have "finite (at_place {Holding, Probing, Answered, Leaving} s)" using assms(1) by (simp add: handler_inv_def finite_at)
  then have "int (card (at_place {Holding, Probing, Answered, Leaving} s - {i})) =
      int (card (at_place {Holding, Probing, Answered, Leaving} s)) - 1"
    using leaves by (intro int_card_remove) (simp_all add: at_iff)
  with leaves assms(1) show ?thesis
    by (auto simp: handler_inv_def place_defs leave_def receive_def at_iff)
qed

lemma handler_step_inv:
  assumes "handler_inv env s" and "handler_step env s s'"
  shows "handler_inv env s'"
  using assms(2)
proof cases
  case (arrives i r)
  with assms(1) show ?thesis
    by (auto simp: arrive_def writeError_def handler_inv_def place_defs at_None split: sum.splits)
next
  case works
  with assms(1) show ?thesis by (rule task_step_inv)
next
  case (reloads modules)
  with assms(1) show ?thesis by (auto simp: handler_inv_def place_defs)
qed

interpretation handler: inductive_invariant Handler_init "handler_step env" "handler_inv env" for env
proof
  fix s
  assume "Handler_init s"
  then show "handler_inv env s"
    by (auto simp: Handler_init_def handler_inv_def place_defs at_place_def)
qed (rule handler_step_inv)

text \<open>C6.  In every reachable state of the handler, for any interleaving of requests, panics and
  reloads: with a limit, no more requests than the limit are past the semaphore, so that no more
  probes are in flight; the gauge is the number of probes in flight; and the counter of a module
  and status is the number of answers clients have received with them, refusals and probes
  alike, so that every answer is counted, once and with the status that was sent.\<close>

theorem handler_bounded:
  assumes "reach Handler_init (handler_step env) s"
  shows "(0 < ho_MaxConcurrent (he_opts env) \<longrightarrow>
       int (card (holders s)) \<le> ho_MaxConcurrent (he_opts env) \<and> h_inFlight s \<le> ho_MaxConcurrent (he_opts env)) \<and>
    h_inFlight s = int (card (probing s)) \<and>
    (\<forall>label code. h_requests s (label, code) =
       length (filter (\<lambda>(i, l, c). l = label \<and> Itoa c = code) (h_log s)))"
proof -
  have inv: "handler_inv env s" using assms by (rule handler.reach_inv)
  then have "finite (holders s)" by (simp add: handler_inv_def holders_def finite_at)
  moreover have "probing s \<subseteq> holders s" by (auto simp: place_defs at_place_def)
  ultimately have "card (probing s) \<le> card (holders s)" by (rule card_mono)
  moreover have "count_list (map (\<lambda>(i, l, c). (l, Itoa c)) xs) (label, code) =
      length (filter (\<lambda>(i, l, c). l = label \<and> Itoa c = code) xs)" for xs :: "(nat \<times> string \<times> int) list" and label code
    by (induction xs) auto
  ultimately show ?thesis using inv by (auto simp: handler_inv_def)
qed

text \<open>Two requests against a limit of one: the first is probing when the second arrives.\<close>

definition sample_env :: handler_env where
  "sample_env = \<lparr> he_lower = map lower_byte, he_ParseFloat = (\<lambda>_. Some (Fin 3)), he_impl = (\<lambda>_. 0),
     he_opts = \<lparr> ho_Timeout = 5000000000, ho_TimeoutOffset = 500000000, ho_MaxConcurrent = 1 \<rparr> \<rparr>"

definition sample_start :: hstate where
  "sample_start = \<lparr> h_live = [''default'' \<mapsto> sample_module], h_sem = 0, h_inFlight = 0, h_requests = (\<lambda>_. 0),
     h_tasks = Map.empty, h_log = [] \<rparr>"

definition sample_task :: "place \<Rightarrow> task" where
  "sample_task p = \<lparr> t_module = ''default'', t_mod = sample_module, t_target = ''db.example.com:2222'',
     t_scrapeTimeout = ''3'', t_place = p \<rparr>"

lemma sample_place: "t_place (sample_task p) = p"
  by (simp add: sample_task_def)

lemma sample_arrive: "h_live s = [''default'' \<mapsto> sample_module] \<Longrightarrow>
    arrive sample_env i sample_request s = put_task i (sample_task Admitted) s"
  by (simp add: arrive_def sample_env_def sample_admission) (simp add: sample_task_def sample_request_def)

definition sample_probing :: hstate where
  "sample_probing = sample_start\<lparr> h_sem := 1, h_inFlight := 1,
     h_tasks := [0 \<mapsto> sample_task Probing, 1 \<mapsto> sample_task Admitted] \<rparr>"

lemma reach_works: "reach Handler_init (handler_step env) s \<Longrightarrow> task_step env s t \<Longrightarrow> reach Handler_init (handler_step env) t"
  by (erule reach.more) (rule handler_step.works)

lemma sample_reach: "reach Handler_init (handler_step sample_env) sample_probing"
proof -
  let ?R = "reach Handler_init (handler_step sample_env)"
  let ?s1 = "put_task 0 (sample_task Admitted) sample_start"
  let ?s2 = "put_task 0 (sample_task Holding) (sample_start\<lparr> h_sem := 1 \<rparr>)"
  let ?s3 = "put_task 0 (sample_task Probing) (sample_start\<lparr> h_sem := 1, h_inFlight := 1 \<rparr>)"
  have "?R sample_start" by (rule reach.start) (simp add: Handler_init_def sample_start_def)
  moreover have "arrive sample_env 0 sample_request sample_start = ?s1"
    by (rule sample_arrive) (simp add: sample_start_def)
  ultimately have r1: "?R ?s1"
    using reach.more handler_step.arrives [of sample_start 0 sample_env sample_request] by (fastforce simp: sample_start_def)
  have "task_step sample_env ?s1 (acquire sample_env 0 (sample_task Admitted) ?s1)"
    by (rule task_step.acquires) (simp_all add: sample_place)
  moreover have "acquire sample_env 0 (sample_task Admitted) ?s1 = ?s2"
    by (simp add: acquire_def try_send_def sample_env_def sample_start_def put_task_def sample_task_def)
  ultimately have r2: "?R ?s2" using reach_works [OF r1] by simp
  have "task_step sample_env ?s2 (begin_probe 0 (sample_task Holding) ?s2)"
    by (rule task_step.begins) (simp_all add: sample_place)
  moreover have "begin_probe 0 (sample_task Holding) ?s2 = ?s3"
    by (simp add: begin_probe_def sample_start_def put_task_def sample_task_def)
  ultimately have r3: "?R ?s3" using reach_works [OF r2] by simp
  have "arrive sample_env 1 sample_request ?s3 = sample_probing"
    by (subst sample_arrive) (auto simp: sample_start_def sample_probing_def put_task_def)
  then show ?thesis using reach.more [OF r3] handler_step.arrives [of ?s3 1 sample_env sample_request]
    by (simp add: sample_start_def)
qed

theorem handler_bounded_witness:
  "int (card (probing sample_probing)) \<le> 1 \<and> probing sample_probing = {0}"
proof -
  have "probing sample_probing = {0}"
    by (auto simp: probing_def at_place_def sample_probing_def sample_task_def split: if_splits)
  moreover have "h_inFlight sample_probing = int (card (probing sample_probing))"
    using handler_bounded [OF sample_reach] by blast
  ultimately show ?thesis by simp
qed

section \<open>Requests are answered\<close>

fun place_rank :: "place \<Rightarrow> nat" where
  "place_rank Admitted = 5"
| "place_rank Holding = 4"
| "place_rank Probing = 3"
| "place_rank Answered = 2"
| "place_rank Leaving = 1"

definition task_rank :: "hstate \<Rightarrow> nat" where
  "task_rank s = weight (\<lambda>t. place_rank (t_place t)) (h_tasks s)"

lemma place_rank_range: "0 < place_rank p" "place_rank p \<le> 5"
  by (cases p; simp)+

lemma task_step_effect:
  assumes "task_step env s s'"
  shows "\<exists>i t. h_tasks s i = Some t \<and>
    (h_tasks s' = (h_tasks s)(i := None) \<or>
     (\<exists>t'. h_tasks s' = (h_tasks s)(i \<mapsto> t') \<and> place_rank (t_place t') < place_rank (t_place t) \<and>
        t_module t' = t_module t \<and> t_mod t' = t_mod t \<and> t_target t' = t_target t))"
  using assms
proof cases
  case (acquires i t)
  show ?thesis
  proof (cases "try_send (ho_MaxConcurrent (he_opts env)) (h_sem s)")
    case None
    with acquires show ?thesis by (intro exI [of _ i] exI [of _ t]) (simp add: acquire_def writeError_def)
  next
    case (Some n)
    with acquires show ?thesis
      by (intro exI [of _ i] exI [of _ t] conjI disjI2 exI [of _ "t\<lparr> t_place := Holding \<rparr>"])
         (simp_all add: acquire_def)
  qed
qed (fastforce simp: begin_probe_def answer_def Let_def panic_def end_probe_def leave_def)+

lemma task_step_rank: "handler_inv env s \<Longrightarrow> task_step env s s' \<Longrightarrow> task_rank s' < task_rank s"
  using task_step_effect [of env s s']
  by (auto simp: handler_inv_def task_rank_def place_rank_range intro!: weight_advance weight_return)

lemma task_step_enabled: "h_tasks s \<noteq> Map.empty \<Longrightarrow> \<exists>s'. task_step env s s'"
proof -
  assume "h_tasks s \<noteq> Map.empty"
  then obtain i t where t: "h_tasks s i = Some t" by (meson ext not_None_eq)
  then show ?thesis by (cases "t_place t") (blast intro: task_step.intros)+
qed

interpretation drain: ranked_system "handler_inv env" "task_step env" "handler_inv env" task_rank
    "\<lambda>s. h_tasks s = Map.empty" for env
  by unfold_locales (auto intro: task_step_inv task_step_rank task_step_enabled)

text \<open>C14.  Requests do not get stuck in the handler and leave nothing behind: from every reachable
  state, once no more requests arrive, every run of the requests in it takes at most five steps
  for each, some run completes, and whenever all of them are through, the semaphore is empty and
  no probe is counted as in flight.\<close>

theorem handler_drains:
  assumes "reach Handler_init (handler_step env) s"
  shows "(\<forall>n t. run (task_step env) n s t \<longrightarrow> n \<le> 5 * card (dom (h_tasks s)) \<and>
      (h_tasks t = Map.empty \<longrightarrow> h_sem t = 0 \<and> h_inFlight t = 0)) \<and>
    (\<exists>n t. run (task_step env) n s t \<and> h_tasks t = Map.empty)"
proof -
  have inv: "handler_inv env s" using assms by (rule handler.reach_inv)
  have "task_rank s \<le> 5 * card (dom (h_tasks s))"
    unfolding task_rank_def by (rule weight_bounded) (rule place_rank_range)
  then have "n \<le> 5 * card (dom (h_tasks s))" if "run (task_step env) n s t" for n t
    using drain.run_bounded [OF that inv] by simp
  moreover have "h_sem t = 0 \<and> h_inFlight t = 0" if "run (task_step env) n s t" "h_tasks t = Map.empty" for n t
    using drain.run_inv [OF that(1) inv] that(2) by (simp add: handler_inv_def place_defs at_place_def)
  moreover have "\<exists>n t. run (task_step env) n s t \<and> h_tasks t = Map.empty"
    using inv by (rule drain.run_completes)
  ultimately show ?thesis by blast
qed

theorem handler_drains_witness:
  "\<exists>n t. run (task_step sample_env) n sample_probing t \<and> h_tasks t = Map.empty"
  using handler_drains [OF sample_reach] by blast

end
