(* ===== verification/Reload.thy ===== *)
theory Reload
  imports HandlerRuns
begin

text \<open>
  Reloading the configuration (\<^verbatim>\<open>reloader\<close> and \<^verbatim>\<open>configReloadMetrics\<close> of \<^verbatim>\<open>main.go\<close>).  \<^verbatim>\<open>reload\<close> is a
  function of what \<^verbatim>\<open>config.Load\<close> returned and of the clock; it runs on SIGHUP and on requests at
  once, so the calls are also modelled as a step relation with the mutex, one rule for each
  action on the shared state.  The theorems show that the mutex makes the calls equivalent to a
  sequence of \<^verbatim>\<open>reload\<close>s in the order in which they read the files.
\<close>

section \<open>One reload\<close>

type_synonym modules = "string \<rightharpoonup> Module"

text \<open>
  What a reload updates: the pointer to the live modules and the two gauges.  The timestamp is
  the clock reading; its conversion to a float is left out.
\<close>

record served =
  sv_live :: modules
  sv_successful :: int
  sv_timestamp :: int

definition newConfigReloadMetrics :: "modules \<Rightarrow> served" where
  "newConfigReloadMetrics live = \<lparr> sv_live = live, sv_successful = 0, sv_timestamp = 0 \<rparr>"

definition record_result :: "config_error option \<Rightarrow> int \<Rightarrow> served \<Rightarrow> served" where
  "record_result err now sv =
     (case err of
        Some _ \<Rightarrow> sv\<lparr> sv_successful := 0 \<rparr>
      | None \<Rightarrow> sv\<lparr> sv_successful := 1, sv_timestamp := now \<rparr>)"

definition reload :: "config_error + modules \<Rightarrow> int \<Rightarrow> served \<Rightarrow> config_error option \<times> served" where
  "reload loaded now sv =
     (case loaded of
        Inl err \<Rightarrow> (Some err, record_result (Some err) now sv)
      | Inr mods \<Rightarrow> (None, (record_result None now sv)\<lparr> sv_live := mods \<rparr>))"

text \<open>A response of one of the plain handlers: status, content type and body.\<close>

record plain_response =
  pr_status :: int
  pr_contentType :: string
  pr_body :: string

definition text_plain :: string where "text_plain = ''text/plain; charset=utf-8''"

definition newline :: string where "newline = [CHR 0x0A]"

text \<open>\<^verbatim>\<open>http.Error\<close> sends the message with a newline as plain text.\<close>

definition http_Error :: "string \<Rightarrow> int \<Rightarrow> plain_response" where
  "http_Error msg code = \<lparr> pr_status = code, pr_contentType = text_plain, pr_body = msg @ newline \<rparr>"

definition reload_ServeHTTP :: "config_error + modules \<Rightarrow> int \<Rightarrow> served \<Rightarrow> plain_response \<times> served" where
  "reload_ServeHTTP loaded now sv =
     (case reload loaded now sv of
        (Some _, sv') \<Rightarrow> (http_Error ''config reload failed, keeping previous config'' 500, sv')
      | (None, sv') \<Rightarrow> (\<lparr> pr_status = 200, pr_contentType = text_plain, pr_body = ''OK'' @ newline \<rparr>, sv'))"

section \<open>Many reloads at once\<close>

text \<open>
  The disk: the files \<^verbatim>\<open>config.Load\<close> reads, the known hosts among them.  It may change at any
  time; all contents it has had, a ghost variable, are numbered by versions, of which the current
  one is the last.  A load sees one version.
\<close>

record disk =
  dk_files :: files
  dk_New :: knownhosts_New

record reload_env =
  re_lib :: ssh_library
  re_lower :: "string \<Rightarrow> string"
  re_configFile :: string
  re_allowAllTargets :: bool

definition load_from :: "reload_env \<Rightarrow> disk \<Rightarrow> map_order \<Rightarrow> config_error + modules" where
  "load_from env d order =
     Load (dk_files d) (re_lib env) (re_lower env) (dk_New d) order (re_configFile env) (re_allowAllTargets env)"

text \<open>
  The places of a call: waiting for the mutex, holding it, with the configuration loaded, with
  the first gauge set, with the timestamp set, and with the unlock to come.
\<close>

datatype call =
    Waiting
  | Locked
  | Loaded nat "config_error + modules"
  | Judged nat "config_error + modules"
  | Stamped nat modules int
  | Unlocking nat "config_error + modules" int

record rstate =
  r_disk :: disk
  r_version :: nat
  r_disks :: "disk list"
  r_served :: served
  r_mu :: "nat option"
  r_calls :: "nat \<rightharpoonup> call"
  r_history :: "(nat \<times> (config_error + modules) \<times> int) list"

definition put_call :: "nat \<Rightarrow> call \<Rightarrow> rstate \<Rightarrow> rstate" where
  "put_call i c s = s\<lparr> r_calls := (r_calls s)(i \<mapsto> c) \<rparr>"

definition err_of :: "'e + 'a \<Rightarrow> 'e option" where
  "err_of r = (case r of Inl e \<Rightarrow> Some e | Inr _ \<Rightarrow> None)"

definition on_served :: "(served \<Rightarrow> served) \<Rightarrow> rstate \<Rightarrow> rstate" where
  "on_served f s = s\<lparr> r_served := f (r_served s) \<rparr>"

inductive call_step :: "reload_env \<Rightarrow> rstate \<Rightarrow> rstate \<Rightarrow> bool" for env where
  locks: "r_calls s i = Some Waiting \<Longrightarrow> r_mu s = None \<Longrightarrow>
    call_step env s (put_call i Locked (s\<lparr> r_mu := Some i \<rparr>))"
| loads: "r_calls s i = Some Locked \<Longrightarrow> iteration_order order \<Longrightarrow>
    call_step env s (put_call i (Loaded (r_version s) (load_from env (r_disk s) order)) s)"
| judges: "r_calls s i = Some (Loaded v res) \<Longrightarrow>
    call_step env s (put_call i (Judged v res)
      (on_served (sv_successful_update (\<lambda>_. if err_of res = None then 1 else 0)) s))"
| stamps: "r_calls s i = Some (Judged v (Inr mods)) \<Longrightarrow>
    call_step env s (put_call i (Stamped v mods now) (on_served (sv_timestamp_update (\<lambda>_. now)) s))"
| fails: "r_calls s i = Some (Judged v (Inl e)) \<Longrightarrow> call_step env s (put_call i (Unlocking v (Inl e) now) s)"
| stores: "r_calls s i = Some (Stamped v mods now) \<Longrightarrow>
    call_step env s (put_call i (Unlocking v (Inr mods) now) (on_served (sv_live_update (\<lambda>_. mods)) s))"
| unlocks: "r_calls s i = Some (Unlocking v res now) \<Longrightarrow>
    call_step env s (s\<lparr> r_mu := None, r_calls := (r_calls s)(i := None), r_history := r_history s @ [(v, res, now)] \<rparr>)"

inductive reload_step :: "reload_env \<Rightarrow> rstate \<Rightarrow> rstate \<Rightarrow> bool" for env where
  calls: "r_calls s i = None \<Longrightarrow> reload_step env s (put_call i Waiting s)"
| works: "call_step env s t \<Longrightarrow> reload_step env s t"
| edits: "reload_step env s (s\<lparr> r_disk := d, r_version := r_version s + 1, r_disks := r_disks s @ [d] \<rparr>)"

inductive_cases reload_stepE: "reload_step env s t"

definition reload_init :: "served \<Rightarrow> rstate \<Rightarrow> bool" where
  "reload_init sv s \<longleftrightarrow> r_served s = sv \<and> r_mu s = None \<and> r_calls s = Map.empty \<and> r_history s = [] \<and>
     r_version s = 0 \<and> r_disks s = [r_disk s]"

section \<open>Serialisation\<close>

text \<open>The specification: completed reloads one after the other.\<close>

definition replay :: "served \<Rightarrow> (nat \<times> (config_error + modules) \<times> int) list \<Rightarrow> served" where
  "replay = foldl (\<lambda>sv (v, res, now). snd (reload res now sv))"

text \<open>How far the call that holds the mutex has changed what is served.\<close>

fun partly :: "call \<Rightarrow> served \<Rightarrow> served" where
  "partly (Judged v res) sv = sv\<lparr> sv_successful := if err_of res = None then 1 else 0 \<rparr>"
| "partly (Stamped v mods now) sv = sv\<lparr> sv_successful := 1, sv_timestamp := now \<rparr>"
| "partly (Unlocking v res now) sv = snd (reload res now sv)"
| "partly _ sv = sv"

text \<open>What a call has read, and from which version of the disk.\<close>

fun read_of :: "call \<Rightarrow> (nat \<times> (config_error + modules)) option" where
  "read_of (Loaded v res) = Some (v, res)"
| "read_of (Judged v res) = Some (v, res)"
| "read_of (Stamped v mods now) = Some (v, Inr mods)"
| "read_of (Unlocking v res now) = Some (v, res)"
| "read_of _ = None"

definition loaded_from :: "reload_env \<Rightarrow> disk list \<Rightarrow> nat \<Rightarrow> config_error + modules \<Rightarrow> bool" where
  "loaded_from env ds v res \<longleftrightarrow>
     v < length ds \<and> (\<exists>order. iteration_order order \<and> load_from env (ds ! v) order = res)"

definition mutex_inv :: "served \<Rightarrow> rstate \<Rightarrow> bool" where
  "mutex_inv sv s \<longleftrightarrow>
     (case r_mu s of
        None \<Rightarrow> (\<forall>i c. r_calls s i = Some c \<longrightarrow> c = Waiting) \<and> r_served s = replay sv (r_history s)
      | Some h \<Rightarrow> (\<forall>i c. r_calls s i = Some c \<longrightarrow> i \<noteq> h \<longrightarrow> c = Waiting) \<and>
          (\<exists>c. r_calls s h = Some c \<and> c \<noteq> Waiting \<and> r_served s = partly c (replay sv (r_history s))))"

definition version_inv :: "reload_env \<Rightarrow> rstate \<Rightarrow> bool" where
  "version_inv env s \<longleftrightarrow>
     length (r_disks s) = r_version s + 1 \<and> r_disks s ! r_version s = r_disk s \<and>
     sorted (map fst (r_history s)) \<and>
     (\<forall>(v, res, now)\<in>set (r_history s). loaded_from env (r_disks s) v res) \<and>
     (\<forall>i c v res. r_calls s i = Some c \<longrightarrow> read_of c = Some (v, res) \<longrightarrow>
        (\<forall>u\<in>fst ` set (r_history s). u \<le> v) \<and> loaded_from env (r_disks s) v res)"

lemma loaded_from_append: "loaded_from env ds v res \<Longrightarrow> loaded_from env (ds @ [d]) v res"
  by (auto simp: loaded_from_def nth_append)

definition reload_inv :: "reload_env \<Rightarrow> served \<Rightarrow> rstate \<Rightarrow> bool" where
  "reload_inv env sv s \<longleftrightarrow> finite (dom (r_calls s)) \<and> mutex_inv sv s \<and> version_inv env s"

lemma call_fields [simp]:
  "r_calls (put_call i c s) = (r_calls s)(i \<mapsto> c)" "r_mu (put_call i c s) = r_mu s"
  "r_served (put_call i c s) = r_served s" "r_history (put_call i c s) = r_history s"
  "r_version (put_call i c s) = r_version s" "r_disk (put_call i c s) = r_disk s" "r_disks (put_call i c s) = r_disks s"
  "r_calls (on_served f s) = r_calls s" "r_mu (on_served f s) = r_mu s" "r_served (on_served f s) = f (r_served s)"
  "r_history (on_served f s) = r_history s" "r_version (on_served f s) = r_version s" "r_disk (on_served f s) = r_disk s" "r_disks (on_served f s) = r_disks s"
  by (simp_all add: put_call_def on_served_def)

lemma replay_snoc [simp]: "replay sv (hs @ [(v, res, now)]) = snd (reload res now (replay sv hs))"
  by (simp add: replay_def)

lemma holder_is: "mutex_inv sv s \<Longrightarrow> r_calls s i = Some c \<Longrightarrow> c \<noteq> Waiting \<Longrightarrow> r_mu s = Some i"
  by (auto simp: mutex_inv_def split: option.splits)

lemma mutex_locks:
  "mutex_inv sv s \<Longrightarrow> r_mu s = None \<Longrightarrow> mutex_inv sv (put_call i Locked (s\<lparr> r_mu := Some i \<rparr>))"
  by (auto simp: mutex_inv_def)

lemma mutex_advance:
  assumes "mutex_inv sv s" and "r_calls s i = Some c" and "c \<noteq> Waiting" and "c' \<noteq> Waiting"
    and "\<And>x. r_served s = partly c x \<Longrightarrow> f (r_served s) = partly c' x"
  shows "mutex_inv sv (put_call i c' (on_served f s))"
proof -
  have mu: "r_mu s = Some i" using assms(1-3) by (rule holder_is)
  with assms(1,2) have "r_served s = partly c (replay sv (r_history s))" by (auto simp: mutex_inv_def)
  then have "f (r_served s) = partly c' (replay sv (r_history s))" by (rule assms(5))
  with mu assms(1,4) show ?thesis by (auto simp: mutex_inv_def)
qed

lemma mutex_unlocks:
  assumes "mutex_inv sv s" and "r_calls s i = Some (Unlocking v res now)"
  shows "mutex_inv sv (s\<lparr> r_mu := None, r_calls := (r_calls s)(i := None), r_history := r_history s @ [(v, res, now)] \<rparr>)"
proof -
  have mu: "r_mu s = Some i" using assms holder_is by blast
  with assms have "r_served s = snd (reload res now (replay sv (r_history s)))" by (auto simp: mutex_inv_def)
  with mu assms(1) show ?thesis by (auto simp: mutex_inv_def)
qed

lemma on_served_id [simp]: "on_served (\<lambda>sv. sv) s = s"
  by (simp add: on_served_def)

lemma reload_simps [simp]:
  "snd (reload (Inl e) now sv) = sv\<lparr> sv_successful := 0 \<rparr>"
  "snd (reload (Inr mods) now sv) = sv\<lparr> sv_successful := 1, sv_timestamp := now, sv_live := mods \<rparr>"
  "fst (reload res now sv) = err_of res"
  by (simp_all add: reload_def record_result_def err_of_def split: sum.splits)

lemma err_of_simps [simp]: "err_of (Inl e) = Some e" "err_of (Inr x) = None"
  by (simp_all add: err_of_def)

lemma call_step_mutex:
  assumes "call_step env s t" and "mutex_inv sv s"
  shows "mutex_inv sv t"
  using assms(1)
proof cases
  case (locks i)
  then show ?thesis using assms(2) by (simp add: mutex_locks)
next
  case (loads i order)
  then show ?thesis using mutex_advance [OF assms(2), of i Locked _ "\<lambda>sv. sv"] by simp
next
  case (judges i v res)
  then show ?thesis using mutex_advance [OF assms(2), of i "Loaded v res"] by simp
next
  case (stamps i v mods now)
  then show ?thesis using mutex_advance [OF assms(2), of i "Judged v (Inr mods)"] by simp
next
  case (fails i v e now)
  then show ?thesis using mutex_advance [OF assms(2), of i "Judged v (Inl e)" _ "\<lambda>sv. sv"] by simp
next
  case (stores i v mods now)
  then show ?thesis using mutex_advance [OF assms(2), of i "Stamped v mods now"] by simp
next
  case (unlocks i v res now)
  then show ?thesis using mutex_unlocks [OF assms(2)] by simp
qed

text \<open>Of the versions only what is read by a load, and what is appended to the history, matters.\<close>

lemma version_advance:
  assumes "version_inv env s" and "r_calls s i = Some c" and "read_of c' = read_of c"
    and "r_calls t = (r_calls s)(i \<mapsto> c')" and "r_history t = r_history s" and "r_version t = r_version s"
    and "r_disks t = r_disks s" and "r_disk t = r_disk s"
  shows "version_inv env t"
  using assms unfolding version_inv_def by (auto split: if_splits)

lemma version_loads:
  assumes "version_inv env s" and "iteration_order order"
  shows "version_inv env (put_call i (Loaded (r_version s) (load_from env (r_disk s) order)) s)"
proof -
  have "loaded_from env (r_disks s) (r_version s) (load_from env (r_disk s) order)"
    using assms by (auto simp: version_inv_def loaded_from_def)
  moreover have "u \<le> r_version s" if "u \<in> fst ` set (r_history s)" for u
    using assms(1) that by (fastforce simp: version_inv_def loaded_from_def)
  ultimately show ?thesis using assms(1) unfolding version_inv_def by (auto split: if_splits)
qed

lemma version_unlocks:
  assumes "version_inv env s" and "mutex_inv sv s" and "r_calls s i = Some (Unlocking v res now)"
  shows "version_inv env (s\<lparr> r_mu := None, r_calls := (r_calls s)(i := None), r_history := r_history s @ [(v, res, now)] \<rparr>)"
proof -
  have v: "\<forall>u\<in>fst ` set (r_history s). u \<le> v" "loaded_from env (r_disks s) v res"
    using assms(1,3) unfolding version_inv_def by (auto dest!: spec [of _ i])
  have "c = Waiting" if "r_calls s j = Some c" "j \<noteq> i" for j c
    using that holder_is [OF assms(2) that(1)] holder_is [OF assms(2,3)] by auto
  then have "read_of c = None" if "r_calls s j = Some c" "j \<noteq> i" for j c
    using that by fastforce
  with v assms(1) show ?thesis unfolding version_inv_def by (auto simp: sorted_append split: if_splits)
qed

lemma call_step_version:
  assumes "call_step env s t" and "mutex_inv sv s" and "version_inv env s"
  shows "version_inv env t"
  using assms(1)
proof cases
  case (loads i order)
  then show ?thesis using assms(3) by (simp add: version_loads)
next
  case (unlocks i v res now)
  then show ?thesis using version_unlocks [OF assms(3,2)] by simp
next
  case (locks i)
  then show ?thesis using version_advance [OF assms(3), of i Waiting Locked] by simp
next
  case (judges i v res)
  then show ?thesis using version_advance [OF assms(3), of i "Loaded v res" "Judged v res"] by simp
next
  case (stamps i v mods now)
  then show ?thesis using version_advance [OF assms(3), of i "Judged v (Inr mods)" "Stamped v mods now"] by simp
next
  case (fails i v e now)
  then show ?thesis using version_advance [OF assms(3), of i "Judged v (Inl e)" "Unlocking v (Inl e) now"] by simp
next
  case (stores i v mods now)
  then show ?thesis using version_advance [OF assms(3), of i "Stamped v mods now" "Unlocking v (Inr mods) now"] by simp
qed

lemma reload_step_inv:
  assumes "reload_step env s t" and "reload_inv env sv s"
  shows "reload_inv env sv t"
  using assms(1)
proof cases
  case (calls i)
  have "mutex_inv sv t" using assms(2) calls by (auto simp: reload_inv_def mutex_inv_def split: option.splits)
  moreover have "version_inv env t" using assms(2) calls by (auto simp: reload_inv_def version_inv_def)
  ultimately show ?thesis using assms(2) calls by (simp add: reload_inv_def)
next
  case works
  have "finite (dom (r_calls t))" using works assms(2) by cases (simp_all add: reload_inv_def)
  with works assms(2) show ?thesis using call_step_mutex call_step_version by (auto simp: reload_inv_def)
next
  case (edits d)
  have "mutex_inv sv t" using assms(2) edits by (auto simp: reload_inv_def mutex_inv_def split: option.splits)
  moreover have "version_inv env t"
    using assms(2) edits loaded_from_append [of env "r_disks s" _ _ d]
    unfolding reload_inv_def version_inv_def by (auto simp: nth_append split: prod.splits)
  ultimately show ?thesis using assms(2) edits by (simp add: reload_inv_def)
qed

interpretation reload: inductive_invariant "reload_init sv" "reload_step env" "reload_inv env sv" for sv env
proof
  fix s
  assume "reload_init sv s"
  then show "reload_inv env sv s" by (simp add: reload_init_def reload_inv_def mutex_inv_def version_inv_def replay_def)
qed (rule reload_step_inv)

text \<open>The last completed reload decides the gauge, the last successful one the modules and the time.\<close>

definition successes :: "(nat \<times> (config_error + modules) \<times> int) list \<Rightarrow> (nat \<times> modules \<times> int) list" where
  "successes hs = List.map_filter (\<lambda>(v, res, now). case res of Inl _ \<Rightarrow> None | Inr mods \<Rightarrow> Some (v, mods, now)) hs"

lemma replay_result:
  "sv_live (replay sv hs) = (if successes hs = [] then sv_live sv else fst (snd (last (successes hs))))"
  "sv_timestamp (replay sv hs) = (if successes hs = [] then sv_timestamp sv else snd (snd (last (successes hs))))"
  "sv_successful (replay sv hs) = (if hs = [] then sv_successful sv else if err_of (fst (snd (last hs))) = None then 1 else 0)"
proof -
  have "sv_live (replay sv hs) = (if successes hs = [] then sv_live sv else fst (snd (last (successes hs)))) \<and>
    sv_timestamp (replay sv hs) = (if successes hs = [] then sv_timestamp sv else snd (snd (last (successes hs)))) \<and>
    sv_successful (replay sv hs) = (if hs = [] then sv_successful sv else if err_of (fst (snd (last hs))) = None then 1 else 0)"
  proof (induction hs rule: rev_induct)
    case (snoc h hs)
    obtain v res now where "h = (v, res, now)" by (cases h) auto
    with snoc show ?case
      by (cases res) (simp_all add: successes_def List.map_filter_def)
  qed (simp add: replay_def successes_def List.map_filter_def)
  then show "sv_live (replay sv hs) = (if successes hs = [] then sv_live sv else fst (snd (last (successes hs))))"
    "sv_timestamp (replay sv hs) = (if successes hs = [] then sv_timestamp sv else snd (snd (last (successes hs))))"
    "sv_successful (replay sv hs) = (if hs = [] then sv_successful sv else if err_of (fst (snd (last hs))) = None then 1 else 0)"
    by blast+
qed

text \<open>C7.  Concurrent reloads are serialised: whenever no reload holds the mutex, what is served is
  the result of the completed reloads one after the other, each of a version of the files there
  has been, in an order in which these never get older.  So the live modules and the timestamp are those of the most recent
  successful load, a failed load changes neither, and the gauge tells whether the most recent
  load succeeded.\<close>

theorem reloads_serialised:
  assumes "reach (reload_init sv) (reload_step env) s" and "r_mu s = None"
  shows "r_served s = replay sv (r_history s) \<and> sorted (map fst (r_history s)) \<and>
    (\<forall>(v, res, now)\<in>set (r_history s). loaded_from env (r_disks s) v res) \<and>
    (successes (r_history s) = [] \<longrightarrow>
       sv_live (r_served s) = sv_live sv \<and> sv_timestamp (r_served s) = sv_timestamp sv) \<and>
    (successes (r_history s) \<noteq> [] \<longrightarrow>
       (sv_live (r_served s), sv_timestamp (r_served s)) = snd (last (successes (r_history s)))) \<and>
    (r_history s \<noteq> [] \<longrightarrow>
       (sv_successful (r_served s) = 1 \<longleftrightarrow> err_of (fst (snd (last (r_history s)))) = None))"
proof -
  have "reload_inv env sv s" using assms(1) by (rule reload.reach_inv)
  with assms(2) have "r_served s = replay sv (r_history s)" and "sorted (map fst (r_history s))"
    and "\<forall>(v, res, now)\<in>set (r_history s). loaded_from env (r_disks s) v res"
    by (simp_all add: reload_inv_def mutex_inv_def version_inv_def)
  then show ?thesis by (simp add: replay_result prod_eq_iff)
qed

definition loadable :: "reload_env \<Rightarrow> disk list \<Rightarrow> config_error + modules \<Rightarrow> bool" where
  "loadable env ds res \<longleftrightarrow> (\<exists>v. loaded_from env ds v res)"

lemma replay_loadable:
  assumes "\<forall>(v, res, now)\<in>set hs. loaded_from env ds v res"
  shows "sv_live (replay sv hs) = sv_live sv \<or> loadable env ds (Inr (sv_live (replay sv hs)))"
  using assms
proof (induction hs rule: rev_induct)
  case (snoc h hs)
  obtain v res now where "h = (v, res, now)" by (cases h) auto
  with snoc show ?case by (cases res) (auto simp: loadable_def)
qed (simp add: replay_def)

lemma live_loaded:
  assumes "reload_inv env sv s"
  shows "sv_live (r_served s) = sv_live sv \<or> loadable env (r_disks s) (Inr (sv_live (r_served s)))"
proof -
  have r: "sv_live (replay sv (r_history s)) = sv_live sv \<or> loadable env (r_disks s) (Inr (sv_live (replay sv (r_history s))))"
    using assms by (intro replay_loadable) (simp add: reload_inv_def version_inv_def)
  show ?thesis
  proof (cases "r_mu s")
    case None
    with assms r show ?thesis by (simp add: reload_inv_def mutex_inv_def)
  next
    case (Some h)
    with assms obtain c where c: "r_calls s h = Some c" "r_served s = partly c (replay sv (r_history s))"
      by (auto simp: reload_inv_def mutex_inv_def)
    have "loadable env (r_disks s) res" if "read_of c = Some (v, res)" for v res
      using that assms c(1) unfolding reload_inv_def version_inv_def loadable_def by blast
    with c(2) r show ?thesis by (cases c) (auto simp: reload_def record_result_def split: sum.splits)
  qed
qed

section \<open>Reloads complete\<close>

fun call_rank :: "call \<Rightarrow> nat" where
  "call_rank Waiting = 6"
| "call_rank Locked = 5"
| "call_rank (Loaded _ _) = 4"
| "call_rank (Judged _ _) = 3"
| "call_rank (Stamped _ _ _) = 2"
| "call_rank (Unlocking _ _ _) = 1"

lemma call_rank_range: "0 < call_rank c" "call_rank c \<le> 6"
  by (cases c; simp)+

lemma call_step_rank:
  assumes "call_step env s t" and "finite (dom (r_calls s))"
  shows "weight call_rank (r_calls t) < weight call_rank (r_calls s)"
  using assms by cases (auto intro!: weight_advance weight_return)

lemma iteration_order_id: "iteration_order (\<lambda>ms. ms)"
  by (simp add: iteration_order_def)

lemma call_enabled:
  assumes "mutex_inv sv s" and "r_calls s \<noteq> Map.empty"
  shows "\<exists>t. call_step env s t"
proof (cases "r_mu s")
  case None
  from assms(2) obtain i c where i: "r_calls s i = Some c" by (meson ext not_None_eq)
  with assms(1) None have "c = Waiting" by (auto simp: mutex_inv_def)
  with i None show ?thesis using call_step.locks by blast
next
  case (Some h)
  with assms(1) obtain c where c: "r_calls s h = Some c" "c \<noteq> Waiting" by (auto simp: mutex_inv_def)
  show ?thesis
  proof (cases c)
    case (Judged v res)
    with c show ?thesis using call_step.stamps [of s h v] call_step.fails [of s h v] by (cases res) blast+
  next
    case Locked
    with c show ?thesis using call_step.loads [OF _ iteration_order_id] by blast
  next
    case (Loaded v res)
    with c show ?thesis using call_step.judges by blast
  next
    case (Stamped v mods now)
    with c show ?thesis using call_step.stores by blast
  next
    case (Unlocking v res now)
    with c show ?thesis using call_step.unlocks by blast
  qed (use c in simp)
qed

interpretation reloads: ranked_system "reload_init sv" "call_step env" "reload_inv env sv"
    "\<lambda>s. weight call_rank (r_calls s)" "\<lambda>s. r_calls s = Map.empty" for sv env
proof
  show "reload_inv env sv t" if "reload_inv env sv s" "call_step env s t" for s t
    using that by (blast intro: reload_step_inv reload_step.works)
  show "\<exists>t. call_step env s t" if "reload_inv env sv s" "r_calls s \<noteq> Map.empty" for s
    using that by (auto simp: reload_inv_def intro: call_enabled)
  show "weight call_rank (r_calls t) < weight call_rank (r_calls s)" if "reload_inv env sv s" "call_step env s t" for s t
    using that by (auto simp: reload_inv_def intro: call_step_rank)
qed (rule reload.base)

text \<open>C15.  The mutex is never left locked: from every reachable state, once no more reloads are asked
  for, each run of those under way takes at most six steps for each, some run completes them
  all, and then the mutex is free.\<close>

theorem reloads_complete:
  assumes "reach (reload_init sv) (reload_step env) s"
  shows "(\<forall>n t. run (call_step env) n s t \<longrightarrow> n \<le> 6 * card (dom (r_calls s)) \<and>
      (r_calls t = Map.empty \<longrightarrow> r_mu t = None)) \<and>
    (\<exists>n t. run (call_step env) n s t \<and> r_calls t = Map.empty)"
proof -
  have inv: "reload_inv env sv s" using assms by (rule reload.reach_inv)
  have "weight call_rank (r_calls s) \<le> 6 * card (dom (r_calls s))" by (rule weight_bounded) (rule call_rank_range)
  then have "n \<le> 6 * card (dom (r_calls s))" if "run (call_step env) n s t" for n t
    using reloads.run_bounded [OF that inv] by simp
  moreover have "r_mu t = None" if "run (call_step env) n s t" "r_calls t = Map.empty" for n t
    using reloads.run_inv [OF that(1) inv] that(2) by (auto simp: reload_inv_def mutex_inv_def split: option.splits)
  moreover have "\<exists>n t. run (call_step env) n s t \<and> r_calls t = Map.empty" using inv by (rule reloads.run_completes)
  ultimately show ?thesis by blast
qed

section \<open>A reload alone, and examples\<close>

lemma reach_call: "reach I (reload_step env) s \<Longrightarrow> call_step env s t \<Longrightarrow> reach I (reload_step env) t"
  by (erule reach.more) (rule reload_step.works)

text \<open>A call that meets no other carries out \<^verbatim>\<open>reload\<close>.\<close>

lemma reload_alone:
  assumes "reach I (reload_step env) s" and "r_mu s = None" and "r_calls s = Map.empty" and "iteration_order order"
  shows "reach I (reload_step env) (s\<lparr> r_served := snd (reload (load_from env (r_disk s) order) now (r_served s)),
    r_history := r_history s @ [(r_version s, load_from env (r_disk s) order, now)] \<rparr>)" (is "reach I _ ?t")
proof -
  let ?R = "reach I (reload_step env)"
  define res where "res = load_from env (r_disk s) order"
  let ?v = "r_version s"
  let ?locked = "s\<lparr> r_mu := Some 0 \<rparr>"
  have "?R (put_call 0 Waiting s)" using assms(1) by (rule reach.more) (simp add: reload_step.calls assms(3))
  from reach_call [OF this call_step.locks [of _ 0]] assms(2) have "?R (put_call 0 Locked ?locked)"
    by (simp add: put_call_def)
  from reach_call [OF this call_step.loads [of _ 0, OF _ assms(4)]] have "?R (put_call 0 (Loaded ?v res) ?locked)"
    by (simp add: put_call_def res_def)
  from reach_call [OF this call_step.judges [of _ 0 ?v res]]
  have judged: "?R (put_call 0 (Judged ?v res) (on_served (sv_successful_update (\<lambda>_. if err_of res = None then 1 else 0)) ?locked))"
    by (simp add: put_call_def on_served_def)
  have unlocking: "?R (put_call 0 (Unlocking ?v res now) (on_served (\<lambda>sv. snd (reload res now sv)) ?locked))"
  proof (cases res)
    case (Inl e)
    with reach_call [OF judged call_step.fails [of _ 0 ?v e]] show ?thesis
      by (simp add: put_call_def on_served_def)
  next
    case (Inr mods)
    with reach_call [OF judged call_step.stamps [of _ 0 ?v mods _ now]]
    have "?R (put_call 0 (Stamped ?v mods now) (on_served (\<lambda>sv. sv\<lparr> sv_successful := 1, sv_timestamp := now \<rparr>) ?locked))"
      by (simp add: put_call_def on_served_def)
    from reach_call [OF this call_step.stores [of _ 0 ?v mods now]] Inr show ?thesis
      by (simp add: put_call_def on_served_def)
  qed
  from reach_call [OF this call_step.unlocks [of _ 0 ?v res now]] assms(2,3) show ?thesis
    by (cases s) (simp add: put_call_def on_served_def res_def)
qed

text \<open>A good configuration is loaded at 100; then the file disappears and a reload at 200 fails.\<close>

definition sample_renv :: reload_env where
  "sample_renv = \<lparr> re_lib = sample_library, re_lower = id, re_configFile = ''c.yml'', re_allowAllTargets = True \<rparr>"

definition good_disk :: disk where
  "good_disk = \<lparr> dk_files = sample_files, dk_New = sample_New \<rparr>"

definition bad_disk :: disk where
  "bad_disk = \<lparr> dk_files = sample_files\<lparr> ReadFile := (\<lambda>_. Inl (Err (OtherError ''ENOENT'' None) [])) \<rparr>, dk_New = sample_New \<rparr>"

definition sample_served :: served where
  "sample_served = newConfigReloadMetrics Map.empty"

definition sample_quiet :: rstate where
  "sample_quiet = \<lparr> r_disk = good_disk, r_version = 0, r_disks = [good_disk], r_served = sample_served, r_mu = None, r_calls = Map.empty, r_history = [] \<rparr>"

definition sample_failed :: "config_error \<Rightarrow> modules \<Rightarrow> rstate" where
  "sample_failed e mods = sample_quiet\<lparr> r_disk := bad_disk, r_version := 1, r_disks := [good_disk, bad_disk],
     r_served := \<lparr> sv_live = mods, sv_successful = 0, sv_timestamp = 100 \<rparr>, r_history := [(0, Inr mods, 100), (1, Inl e, 200)] \<rparr>"

lemma good_load: "\<exists>mods. load_from sample_renv good_disk rev = Inr mods"
  using sample_Load by (simp add: load_from_def sample_renv_def good_disk_def)

lemma bad_load: "\<exists>e. load_from sample_renv bad_disk rev = Inl e"
  by (simp add: load_from_def sample_renv_def bad_disk_def Load_def loadRawConfig_def sample_files_def)

lemma sample_reloads:
  "\<exists>e mods. load_from sample_renv good_disk rev = Inr mods \<and>
     reach (reload_init sample_served) (reload_step sample_renv) (sample_failed e mods)"
proof -
  let ?R = "reach (reload_init sample_served) (reload_step sample_renv)"
  obtain mods e where l: "load_from sample_renv good_disk rev = Inr mods" "load_from sample_renv bad_disk rev = Inl e"
    using good_load bad_load by blast
  have "?R sample_quiet" by (rule reach.start) (simp add: reload_init_def sample_quiet_def)
  from reload_alone [OF this _ _ sample_decodes(3), of 100]
  have "?R (sample_quiet\<lparr> r_served := \<lparr> sv_live = mods, sv_successful = 1, sv_timestamp = 100 \<rparr>,
      r_history := [(0, Inr mods, 100)] \<rparr>)"
    by (simp add: sample_quiet_def sample_served_def newConfigReloadMetrics_def l)
  from reach.more [OF this reload_step.edits [of _ _ bad_disk]]
  have "?R (sample_quiet\<lparr> r_disk := bad_disk, r_version := 1, r_disks := [good_disk, bad_disk], r_served := \<lparr> sv_live = mods, sv_successful = 1, sv_timestamp = 100 \<rparr>,
      r_history := [(0, Inr mods, 100)] \<rparr>)"
    by (simp add: sample_quiet_def)
  from reload_alone [OF this _ _ sample_decodes(3), of 200] have "?R (sample_failed e mods)"
    by (simp add: sample_quiet_def sample_failed_def l)
  with l show ?thesis by blast
qed

theorem reloads_serialised_witness:
  "\<exists>(s :: rstate) mods. load_from sample_renv good_disk rev = Inr mods \<and> length (r_history s) = 2 \<and>
     sv_live (r_served s) = mods \<and> sv_timestamp (r_served s) = 100 \<and> sv_successful (r_served s) \<noteq> 1"
proof -
  obtain e mods where l: "load_from sample_renv good_disk rev = Inr mods"
    and r: "reach (reload_init sample_served) (reload_step sample_renv) (sample_failed e mods)"
    using sample_reloads by blast
  have h: "r_history (sample_failed e mods) = [(0, Inr mods, 100), (1, Inl e, 200)]" "r_mu (sample_failed e mods) = None"
    by (simp_all add: sample_failed_def sample_quiet_def)
  have "successes [(0, Inr mods, 100), (1, Inl e, 200)] = [(0, mods, 100)]"
    by (simp add: successes_def List.map_filter_def)
  with reloads_serialised [OF r h(2), THEN conjunct2] have "sv_live (r_served (sample_failed e mods)) = mods"
    "sv_timestamp (r_served (sample_failed e mods)) = 100" "sv_successful (r_served (sample_failed e mods)) \<noteq> 1"
    by (simp_all add: h)
  with l h(1) show ?thesis by (intro exI [of _ "sample_failed e mods"] exI [of _ mods] conjI) simp_all
qed

theorem reloads_complete_witness:
  "\<exists>(s :: rstate) n t. r_calls s = [0 \<mapsto> Waiting] \<and> run (call_step sample_renv) n s t \<and> r_calls t = Map.empty"
proof -
  have "reach (reload_init sample_served) (reload_step sample_renv) sample_quiet"
    by (rule reach.start) (simp add: reload_init_def sample_quiet_def)
  then have "reach (reload_init sample_served) (reload_step sample_renv) (put_call 0 Waiting sample_quiet)"
    by (rule reach.more) (simp add: reload_step.calls sample_quiet_def)
  from reloads_complete [OF this] obtain n t where
    "run (call_step sample_renv) n (put_call 0 Waiting sample_quiet) t" "r_calls t = Map.empty" by blast
  then show ?thesis by (intro exI [of _ "put_call 0 Waiting sample_quiet"] exI) (auto simp: sample_quiet_def)
qed

end
