(* ===== verification/Serve.thy ===== *)
theory Serve
  imports Transitions
begin

text \<open>
  \<^verbatim>\<open>serve\<close> of \<^verbatim>\<open>main.go\<close>: the goroutine that takes signals off the channel and the caller that runs
  the listener, as one step relation.  The HTTP server is seen through what its documentation
  promises: \<^verbatim>\<open>Shutdown\<close> closes the listeners at once and then waits until no request is in flight
  or its context expires, and the listener returns \<^verbatim>\<open>ErrServerClosed\<close> only after \<^verbatim>\<open>Shutdown\<close>.
\<close>

section \<open>The two goroutines\<close>

datatype signal = SIGHUP | SIGINT | SIGTERM

datatype serve_error = ErrServerClosed | ListenError string

text \<open>
  The caller: in \<^verbatim>\<open>listenAndServe\<close>, with its result at hand, waiting for \<^verbatim>\<open>shutdownDone\<close> with \<^verbatim>\<open>stop\<close>
  closed, and returned.
\<close>

datatype main_place =
    Serving
  | Returning "serve_error option"
  | Awaiting "serve_error option"
  | Returned "serve_error option"

text \<open>
  The goroutine: in the select, in a reload, before \<^verbatim>\<open>signal.Stop\<close>, before \<^verbatim>\<open>Shutdown\<close>, waiting in it,
  with the deferred close to come, and gone.
\<close>

datatype goro_place = Selecting | Reloading | Stopping | Starting | Draining | Closing | Exited

record serve_state =
  s_sig :: "signal option"
  s_notify :: bool
  s_stop :: bool
  s_done :: bool
  s_main :: main_place
  s_goro :: goro_place
  s_open :: bool
  s_requests :: nat
  s_expired :: bool
  s_killed :: bool

definition serve_init :: "serve_state \<Rightarrow> bool" where
  "serve_init s \<longleftrightarrow>
     s_notify s \<and> \<not> s_stop s \<and> \<not> s_done s \<and> s_main s = Serving \<and> s_goro s = Selecting \<and> s_open s \<and>
     s_requests s = 0 \<and> \<not> s_expired s \<and> \<not> s_killed s"

text \<open>
  The channel holds one signal and \<^verbatim>\<open>os/signal\<close> never blocks on it: a signal that finds it full is
  dropped.  After \<^verbatim>\<open>signal.Stop\<close> a signal has its default effect and ends the process.
\<close>

definition deliver :: "signal \<Rightarrow> serve_state \<Rightarrow> serve_state" where
  "deliver g s =
     (if s_notify s then (if s_sig s = None then s\<lparr> s_sig := Some g \<rparr> else s) else s\<lparr> s_killed := True \<rparr>)"

text \<open>What \<^verbatim>\<open>serve\<close> makes of the result of the listener.\<close>

definition serve_result :: "serve_error option \<Rightarrow> serve_error option" where
  "serve_result err = (if err \<noteq> None \<and> err \<noteq> Some ErrServerClosed then err else None)"

inductive serve_work :: "serve_state \<Rightarrow> serve_state \<Rightarrow> bool" where
  stops: "\<not> s_killed s \<Longrightarrow> s_goro s = Selecting \<Longrightarrow> s_stop s \<Longrightarrow> serve_work s (s\<lparr> s_goro := Closing \<rparr>)"
| hangs_up: "\<not> s_killed s \<Longrightarrow> s_goro s = Selecting \<Longrightarrow> s_sig s = Some SIGHUP \<Longrightarrow>
    serve_work s (s\<lparr> s_sig := None, s_goro := Reloading \<rparr>)"
| reloaded: "\<not> s_killed s \<Longrightarrow> s_goro s = Reloading \<Longrightarrow> serve_work s (s\<lparr> s_goro := Selecting \<rparr>)"
| terminates: "\<not> s_killed s \<Longrightarrow> s_goro s = Selecting \<Longrightarrow> s_sig s = Some g \<Longrightarrow> g \<noteq> SIGHUP \<Longrightarrow>
    serve_work s (s\<lparr> s_sig := None, s_goro := Stopping \<rparr>)"
| unnotifies: "\<not> s_killed s \<Longrightarrow> s_goro s = Stopping \<Longrightarrow> serve_work s (s\<lparr> s_notify := False, s_goro := Starting \<rparr>)"
| shuts_down: "\<not> s_killed s \<Longrightarrow> s_goro s = Starting \<Longrightarrow> serve_work s (s\<lparr> s_open := False, s_goro := Draining \<rparr>)"
| drained: "\<not> s_killed s \<Longrightarrow> s_goro s = Draining \<Longrightarrow> s_requests s = 0 \<Longrightarrow> serve_work s (s\<lparr> s_goro := Closing \<rparr>)"
| expires: "\<not> s_killed s \<Longrightarrow> s_goro s = Draining \<Longrightarrow> serve_work s (s\<lparr> s_expired := True, s_goro := Closing \<rparr>)"
| closes: "\<not> s_killed s \<Longrightarrow> s_goro s = Closing \<Longrightarrow> serve_work s (s\<lparr> s_done := True, s_goro := Exited \<rparr>)"
| listened: "\<not> s_killed s \<Longrightarrow> s_main s = Serving \<Longrightarrow> (err = Some ErrServerClosed \<Longrightarrow> \<not> s_open s) \<Longrightarrow>
    serve_work s (s\<lparr> s_main := Returning err \<rparr>)"
| closes_stop: "\<not> s_killed s \<Longrightarrow> s_main s = Returning err \<Longrightarrow>
    serve_work s (s\<lparr> s_stop := True, s_main := Awaiting err \<rparr>)"
| awaited: "\<not> s_killed s \<Longrightarrow> s_main s = Awaiting err \<Longrightarrow> s_done s \<Longrightarrow> serve_work s (s\<lparr> s_main := Returned err \<rparr>)"

inductive serve_step :: "serve_state \<Rightarrow> serve_state \<Rightarrow> bool" where
  works: "serve_work s t \<Longrightarrow> serve_step s t"
| signalled: "\<not> s_killed s \<Longrightarrow> serve_step s (deliver g s)"
| request: "\<not> s_killed s \<Longrightarrow> s_open s \<Longrightarrow> serve_step s (s\<lparr> s_requests := s_requests s + 1 \<rparr>)"
| response: "\<not> s_killed s \<Longrightarrow> 0 < s_requests s \<Longrightarrow> serve_step s (s\<lparr> s_requests := s_requests s - 1 \<rparr>)"

section \<open>Returning from serve\<close>

fun listen_result :: "main_place \<Rightarrow> serve_error option" where
  "listen_result Serving = None"
| "listen_result (Returning err) = err"
| "listen_result (Awaiting err) = err"
| "listen_result (Returned err) = err"

fun past_stop :: "main_place \<Rightarrow> bool" where
  "past_stop (Awaiting _) = True"
| "past_stop (Returned _) = True"
| "past_stop _ = False"

fun returned :: "main_place \<Rightarrow> bool" where
  "returned (Returned _) = True"
| "returned _ = False"

definition serve_inv :: "serve_state \<Rightarrow> bool" where
  "serve_inv s \<longleftrightarrow>
     (\<not> s_open s \<longrightarrow> s_goro s \<in> {Draining, Closing, Exited}) \<and>
     (\<not> s_open s \<longrightarrow> s_goro s \<in> {Closing, Exited} \<longrightarrow> s_requests s = 0 \<or> s_expired s) \<and>
     (s_goro s = Draining \<longrightarrow> \<not> s_open s) \<and>
     (s_goro s \<in> {Closing, Exited} \<longrightarrow> s_stop s \<or> \<not> s_open s) \<and>
     (s_done s \<longleftrightarrow> s_goro s = Exited) \<and> (s_stop s \<longleftrightarrow> past_stop (s_main s)) \<and>
     (listen_result (s_main s) = Some ErrServerClosed \<longrightarrow> \<not> s_open s) \<and>
     (returned (s_main s) \<longrightarrow> s_done s) \<and>
     (\<not> s_notify s \<longrightarrow> s_goro s = Starting \<or> \<not> s_open s) \<and> (s_killed s \<longrightarrow> \<not> s_notify s)"

lemma serve_work_inv: "serve_work s t \<Longrightarrow> serve_inv s \<Longrightarrow> serve_inv t"
  by (induction rule: serve_work.induct) (fastforce simp: serve_inv_def)+

interpretation serve: inductive_invariant serve_init serve_step serve_inv
proof
  show "serve_inv s" if "serve_init s" for s using that by (simp add: serve_init_def serve_inv_def)
  show "serve_inv t" if "serve_inv s" "serve_step s t" for s t
    using that(2,1)
  proof (induction rule: serve_step.induct)
    case (works s t)
    then show ?case by (rule serve_work_inv)
  qed (fastforce simp: serve_inv_def deliver_def)+
qed

definition sample_serve :: "signal option \<Rightarrow> serve_state" where
  "sample_serve g = \<lparr> s_sig = g, s_notify = True, s_stop = False, s_done = False, s_main = Serving, s_goro = Selecting,
     s_open = True, s_requests = 0, s_expired = False, s_killed = False \<rparr>"

lemma sample_serve_reach: "reach serve_init serve_step (sample_serve g)"
  by (rule reach.start) (simp add: serve_init_def sample_serve_def)

text \<open>A listener that fails while a request is in flight: \<^verbatim>\<open>serve\<close> stops its goroutine and returns.\<close>

lemma listener_failure_abandons_request:
  "\<exists>t. reach serve_init serve_step t \<and> s_main t = Returned (Some (ListenError m)) \<and> 0 < s_requests t \<and> \<not> s_expired t"
proof -
  let ?a = "sample_serve None"
  let ?b = "?a\<lparr> s_requests := s_requests ?a + 1 \<rparr>"
  let ?c = "?b\<lparr> s_main := Returning (Some (ListenError m)) \<rparr>"
  let ?d = "?c\<lparr> s_stop := True, s_main := Awaiting (Some (ListenError m)) \<rparr>"
  let ?e = "?d\<lparr> s_goro := Closing \<rparr>"
  let ?f = "?e\<lparr> s_done := True, s_goro := Exited \<rparr>"
  let ?t = "?f\<lparr> s_main := Returned (Some (ListenError m)) \<rparr>"
  have w1: "serve_work ?b ?c" by (rule serve_work.listened) (simp_all add: sample_serve_def)
  have w2: "serve_work ?c ?d" by (rule serve_work.closes_stop) (simp_all add: sample_serve_def)
  have w3: "serve_work ?d ?e" by (rule serve_work.stops) (simp_all add: sample_serve_def)
  have w4: "serve_work ?e ?f" by (rule serve_work.closes) (simp_all add: sample_serve_def)
  have w5: "serve_work ?f ?t" by (rule serve_work.awaited) (simp_all add: sample_serve_def)
  have "serve_step ?a ?b" by (rule serve_step.request) (simp_all add: sample_serve_def)
  with sample_serve_reach have "reach serve_init serve_step ?b" by (rule reach.more)
  note reach.more [OF this serve_step.works [OF w1]]
  note reach.more [OF this serve_step.works [OF w2]]
  note reach.more [OF this serve_step.works [OF w3]]
  note reach.more [OF this serve_step.works [OF w4]]
  note reach.more [OF this serve_step.works [OF w5]]
  then show ?thesis by (rule exI [of _ ?t, OF conjI]) (simp add: sample_serve_def)
qed

text \<open>C9.  How \<^verbatim>\<open>serve\<close> returns.  In every reachable state in which it has returned its goroutine is
  gone; once a shutdown has closed the listeners, which it has whenever the listener ended with
  \<^verbatim>\<open>ErrServerClosed\<close>, it has returned only after the requests in flight were answered or the drain
  ran out of its time.  There is no drain without a shutdown: when the listener fails, \<^verbatim>\<open>serve\<close> can
  return with requests in flight, although its comment promises to wait for them.  A signal ends
  the process only once an earlier one has begun the shutdown.\<close>

theorem serve_returns_drained:
  assumes "reach serve_init serve_step s"
  shows "(\<forall>err. s_main s = Returned err \<longrightarrow> s_goro s = Exited \<and>
      (s_open s \<longrightarrow> err \<noteq> Some ErrServerClosed) \<and> (\<not> s_open s \<longrightarrow> s_requests s = 0 \<or> s_expired s)) \<and>
    (\<forall>m. \<exists>t. reach serve_init serve_step t \<and> s_main t = Returned (Some (ListenError m)) \<and>
      0 < s_requests t \<and> \<not> s_expired t) \<and>
    (s_killed s \<longrightarrow> s_goro s = Starting \<or> \<not> s_open s)"
proof -
  have inv: "serve_inv s" using assms by (rule serve.reach_inv)
  have "s_goro s = Exited" if "s_main s = Returned err" for err
    using inv that by (auto simp: serve_inv_def)
  moreover have "\<not> s_open s" if "s_main s = Returned (Some ErrServerClosed)"
    using inv that by (auto simp: serve_inv_def)
  moreover have "s_requests s = 0 \<or> s_expired s" if "s_main s = Returned err" "\<not> s_open s" for err
    using inv that by (auto simp: serve_inv_def)
  moreover have "s_goro s = Starting \<or> \<not> s_open s" if "s_killed s"
    using inv that by (auto simp: serve_inv_def)
  ultimately show ?thesis using listener_failure_abandons_request by blast
qed

section \<open>Termination\<close>

fun goro_rank :: "goro_place \<Rightarrow> nat" where
  "goro_rank Reloading = 6"
| "goro_rank Selecting = 5"
| "goro_rank Stopping = 4"
| "goro_rank Starting = 3"
| "goro_rank Draining = 2"
| "goro_rank Closing = 1"
| "goro_rank Exited = 0"

fun main_rank :: "main_place \<Rightarrow> nat" where
  "main_rank Serving = 3"
| "main_rank (Returning _) = 2"
| "main_rank (Awaiting _) = 1"
| "main_rank (Returned _) = 0"

definition serve_rank :: "serve_state \<Rightarrow> nat" where
  "serve_rank s = goro_rank (s_goro s) + main_rank (s_main s) + (if s_sig s = None then 0 else 2)"

text \<open>The server is on its way down.\<close>

definition terminating :: "serve_state \<Rightarrow> bool" where
  "terminating s \<longleftrightarrow>
     s_main s \<noteq> Serving \<or> \<not> s_open s \<or> s_goro s \<in> {Stopping, Starting} \<or> s_sig s \<in> {Some SIGINT, Some SIGTERM}"

definition over :: "serve_state \<Rightarrow> bool" where
  "over s \<longleftrightarrow> s_killed s \<or> returned (s_main s)"

lemma serve_work_rank: "serve_work s t \<Longrightarrow> serve_rank t < serve_rank s"
  by (induction rule: serve_work.induct) (simp_all add: serve_rank_def)

lemma serve_work_terminating: "serve_work s t \<Longrightarrow> terminating s \<Longrightarrow> terminating t"
proof (induction rule: serve_work.induct)
  case (terminates s g)
  then show ?case by (simp add: terminating_def)
qed (auto simp: terminating_def)

lemma goro_enabled:
  assumes "\<not> s_killed s" and "s_goro s \<notin> {Selecting, Exited}"
  shows "\<exists>t. serve_work s t"
  using assms by (cases "s_goro s") (auto intro: serve_work.intros)

lemma selecting_enabled:
  assumes "\<not> s_killed s" and "s_goro s = Selecting" and "s_stop s \<or> s_sig s \<noteq> None"
  shows "\<exists>t. serve_work s t"
proof (cases "s_stop s")
  case False
  with assms(3) obtain g where "s_sig s = Some g" by blast
  with assms(1,2) show ?thesis
    using serve_work.hangs_up [of s] serve_work.terminates [of s g] by (cases "g = SIGHUP") auto
qed (use assms serve_work.stops in blast)

lemma serve_enabled:
  assumes "serve_inv s" and "terminating s" and "\<not> over s"
  shows "\<exists>t. serve_work s t"
proof (cases "s_main s")
  case Serving
  show ?thesis
  proof (cases "s_open s")
    case True
    with assms(1) Serving have "s_goro s \<noteq> Exited" by (auto simp: serve_inv_def)
    moreover have "s_sig s \<noteq> None" if "s_goro s = Selecting"
      using that assms(2) Serving True by (auto simp: terminating_def)
    ultimately show ?thesis using assms(3) goro_enabled [of s] selecting_enabled [of s] by (auto simp: over_def)
  next
    case False
    with Serving assms(3) show ?thesis using serve_work.listened [of s] by (auto simp: over_def)
  qed
next
  case (Returning err)
  with assms(3) show ?thesis using serve_work.closes_stop [of s] by (auto simp: over_def)
next
  case (Awaiting err)
  with assms(1) have "s_stop s" and "s_done s \<longleftrightarrow> s_goro s = Exited" by (simp_all add: serve_inv_def)
  with Awaiting assms(3) show ?thesis
    using serve_work.awaited [of s err] goro_enabled [of s] selecting_enabled [of s] by (auto simp: over_def)
next
  case (Returned err)
  with assms(3) show ?thesis by (simp add: over_def)
qed

interpretation ending: ranked_system "\<lambda>s. serve_inv s \<and> terminating s" serve_work
    "\<lambda>s. serve_inv s \<and> terminating s" serve_rank over
  by unfold_locales (auto intro: serve_work_inv serve_work_terminating serve_work_rank serve_enabled)

lemma serve_run_alive: "run serve_work n s t \<Longrightarrow> \<not> s_killed s \<Longrightarrow> \<not> s_killed t"
  by (induction rule: run.induct) (auto elim!: serve_work.cases)

lemma serve_run_reach: "run serve_work n s t \<Longrightarrow> reach I serve_step s \<Longrightarrow> reach I serve_step t"
  by (induction rule: run.induct) (auto intro: reach.more serve_step.works)

text \<open>C8.  A shutdown comes to an end: once a termination signal is on the channel or taken from it,
  or the listener has failed, \<^verbatim>\<open>serve\<close> cannot hang.  Without further signals each of its runs is
  at most eleven steps long, and one that cannot go on has returned; its result is an error
  exactly when the listener failed for another reason than the shutdown.\<close>

theorem serve_terminates:
  assumes "reach serve_init serve_step s" and "terminating s" and "\<not> s_killed s" and "run serve_work n s t"
  shows "n \<le> 11 \<and> ((\<exists>u. serve_work t u) \<or>
    (\<exists>err. s_main t = Returned err \<and> (serve_result err = None \<longleftrightarrow> err = None \<or> err = Some ErrServerClosed)))"
proof -
  have inv: "serve_inv s \<and> terminating s" using serve.reach_inv [OF assms(1)] assms(2) ..
  have "goro_rank p \<le> 6" for p by (cases p) simp_all
  moreover have "main_rank p \<le> 3" for p by (cases p) simp_all
  ultimately have "serve_rank s \<le> 11"
    unfolding serve_rank_def using add_mono [of "goro_rank (s_goro s)" 6 "main_rank (s_main s)" 3] by simp
  then have "n \<le> 11" using ending.run_bounded [OF assms(4) inv] by simp
  moreover have "\<not> s_killed t" using assms(4,3) by (rule serve_run_alive)
  moreover have "serve_inv t \<and> terminating t" using ending.run_inv [OF assms(4) inv] .
  ultimately show ?thesis
    using serve_enabled [of t] by (cases "s_main t") (auto simp: over_def serve_result_def)
qed

lemma sample_serve_terminating: "terminating (sample_serve (Some SIGTERM))" "\<not> s_killed (sample_serve g)"
  by (simp_all add: terminating_def sample_serve_def)

theorem serve_terminates_witness:
  "\<exists>n t err. run serve_work n (sample_serve (Some SIGTERM)) t \<and> s_main t = Returned err \<and> n \<le> 11"
proof -
  have "serve_inv (sample_serve (Some SIGTERM))" using sample_serve_reach by (rule serve.reach_inv)
  with ending.run_completes sample_serve_terminating(1) obtain n t
    where r: "run serve_work n (sample_serve (Some SIGTERM)) t" and o: "over t" by blast
  have "\<not> s_killed t" using r sample_serve_terminating(2) by (rule serve_run_alive)
  with o have "\<exists>err. s_main t = Returned err" by (cases "s_main t") (simp_all add: over_def)
  moreover have "n \<le> 11" using serve_terminates [OF sample_serve_reach sample_serve_terminating r] by blast
  ultimately show ?thesis using r by blast
qed

theorem serve_returns_drained_witness:
  "\<exists>t err. reach serve_init serve_step t \<and> s_main t = Returned err \<and> s_goro t = Exited"
proof -
  have "serve_inv (sample_serve (Some SIGTERM))" using sample_serve_reach by (rule serve.reach_inv)
  with ending.run_completes sample_serve_terminating(1) obtain n t
    where r: "run serve_work n (sample_serve (Some SIGTERM)) t" and o: "over t" by blast
  have "\<not> s_killed t" using r sample_serve_terminating(2) by (rule serve_run_alive)
  with o obtain err where err: "s_main t = Returned err" by (cases "s_main t") (auto simp: over_def)
  have t: "reach serve_init serve_step t" using r sample_serve_reach by (rule serve_run_reach)
  with serve_returns_drained [OF t] err show ?thesis by blast
qed

text \<open>C39.  A termination signal can be lost: when it arrives while a reload is running and another
  reload has been asked for, it finds the channel full and is dropped, and after both reloads the
  server goes on serving.\<close>

theorem termination_signal_lost:
  "\<exists>s n t. reach serve_init serve_step s \<and> s_notify s \<and> serve_step s (deliver SIGTERM s) \<and>
     run serve_work n (deliver SIGTERM s) t \<and> s_main t = Serving \<and> s_goro t = Selecting \<and> s_sig t = None \<and> s_open t"
proof -
  let ?a = "sample_serve (Some SIGHUP)"
  let ?b = "?a\<lparr> s_sig := None, s_goro := Reloading \<rparr>"
  let ?c = "deliver SIGHUP ?b"
  let ?d = "?c\<lparr> s_goro := Selecting \<rparr>"
  let ?e = "?d\<lparr> s_sig := None, s_goro := Reloading \<rparr>"
  let ?t = "?e\<lparr> s_goro := Selecting \<rparr>"
  have "serve_step ?a ?b" by (intro serve_step.works serve_work.hangs_up) (simp_all add: sample_serve_def)
  with sample_serve_reach have "reach serve_init serve_step ?b" by (rule reach.more)
  moreover have "serve_step ?b ?c" by (rule serve_step.signalled) (simp add: sample_serve_def)
  ultimately have r: "reach serve_init serve_step ?c" by (rule reach.more)
  have full: "deliver SIGTERM ?c = ?c" by (simp add: deliver_def sample_serve_def)
  have w1: "serve_work ?c ?d" by (rule serve_work.reloaded) (simp_all add: sample_serve_def deliver_def)
  have w2: "serve_work ?d ?e" by (rule serve_work.hangs_up) (simp_all add: sample_serve_def deliver_def)
  have w3: "serve_work ?e ?t" by (rule serve_work.reloaded) (simp_all add: sample_serve_def deliver_def)
  have "run serve_work (Suc (Suc (Suc 0))) ?c ?t" 
    by (rule run.runS, rule w1, rule run.runS, rule w2, rule run.runS, rule w3, rule run.run0)
  moreover have "serve_step ?c (deliver SIGTERM ?c)"
    by (rule serve_step.signalled) (simp add: sample_serve_def deliver_def)
  moreover have "s_notify ?c" "s_main ?t = Serving" "s_goro ?t = Selecting" "s_sig ?t = None" "s_open ?t"
    by (simp_all add: sample_serve_def deliver_def)
  ultimately show ?thesis using r full by (metis (no_types, lifting))
qed

end
