(* ===== verification/Fdlimit.thy ===== *)
theory Fdlimit
  imports Go_Errors "HOL-Library.Word"
begin

text \<open>
  Package \<^verbatim>\<open>fdlimit\<close> (\<^verbatim>\<open>fdlimit.go\<close>, \<^verbatim>\<open>fdlimit_unix.go\<close>, \<^verbatim>\<open>fdlimit_other.go\<close>): whether the limit on
  open files covers a number of concurrent probes.  Go's \<^verbatim>\<open>int\<close> and \<^verbatim>\<open>uint64\<close> are 64-bit words, so
  that the conversion and the multiplication wrap around as in the code.
\<close>

section \<open>The budget\<close>

definition perProbe :: "64 word" where "perProbe = 2"
definition headroom :: "64 word" where "headroom = 64"

text \<open>\<^verbatim>\<open>softLimit\<close> on Unix is what \<^verbatim>\<open>getrlimit\<close> answers; elsewhere it is not supported.\<close>

definition softLimit_unix :: "gerr + 64 word \<Rightarrow> gerr + 64 word" where
  "softLimit_unix getrlimit = (case getrlimit of Inl e \<Rightarrow> Inl e | Inr cur \<Rightarrow> Inr cur)"

definition softLimit_other :: "gerr + 64 word" where
  "softLimit_other =
     Inl (Err (OtherError ''reading the file descriptor limit is not supported on this platform'' None) [])"

definition Sufficient :: "gerr + 64 word \<Rightarrow> 64 word \<Rightarrow> bool \<times> 64 word \<times> 64 word" where
  "Sufficient softLimit maxConcurrent =
     (if sint maxConcurrent \<le> 0 then (True, 0, 0)
      else
        (case softLimit of
           Inl _ \<Rightarrow> (True, 0, 0)
         | Inr soft \<Rightarrow>
             let needed = maxConcurrent * perProbe + headroom
             in (soft \<ge> needed, soft, needed)))"

section \<open>Correctness of the budget\<close>

lemma uint_needed:
  assumes "0 < sint m" and "sint m < 2 ^ 63 - 32"
  shows "uint (m * perProbe + headroom) = 2 * sint m + 64"
proof -
  have u: "uint m = sint m"
    using assms unfolding uint_sint by (intro take_bit_int_eq_self) simp_all
  show ?thesis
    using assms u by (simp add: perProbe_def headroom_def uint_word_ariths)
qed

text \<open>C27.  A shortfall is reported exactly when the limit is below two descriptors per probe plus 64,
  for every concurrency that is positive and below the range where the budget wraps around;
  no limit on the concurrency, or one that cannot be read, reports none.  The largest
  concurrencies do wrap around: at 2 to the 63 minus 32 the budget is zero and every limit
  counts as sufficient.\<close>

theorem Sufficient_budget:
  assumes "sint maxConcurrent < 2 ^ 63 - 32"
  shows "(case Sufficient softLimit maxConcurrent of (ok, soft, needed) \<Rightarrow>
      if sint maxConcurrent \<le> 0 \<or> (\<exists>e. softLimit = Inl e) then ok \<and> soft = 0 \<and> needed = 0
      else softLimit = Inr soft \<and> uint needed = 2 * sint maxConcurrent + 64 \<and>
        (ok \<longleftrightarrow> 2 * sint maxConcurrent + 64 \<le> uint soft)) \<and>
    Sufficient (Inr limit) (2 ^ 63 - 32) = (True, limit, 0)"
proof
  have "sint (2 ^ 63 - 32 :: 64 word) = 2 ^ 63 - 32" and "(2 ^ 63 - 32) * perProbe + headroom = 0"
    by (simp_all add: perProbe_def headroom_def)
  then show "Sufficient (Inr limit) (2 ^ 63 - 32) = (True, limit, 0)"
    by (simp add: Sufficient_def)
  show "case Sufficient softLimit maxConcurrent of (ok, soft, needed) \<Rightarrow>
      if sint maxConcurrent \<le> 0 \<or> (\<exists>e. softLimit = Inl e) then ok \<and> soft = 0 \<and> needed = 0
      else softLimit = Inr soft \<and> uint needed = 2 * sint maxConcurrent + 64 \<and>
        (ok \<longleftrightarrow> 2 * sint maxConcurrent + 64 \<le> uint soft)"
    using uint_needed [of maxConcurrent] assms
    by (auto simp: Sufficient_def word_le_def Let_def not_le split: sum.splits)
qed

theorem Sufficient_budget_witness:
  "Sufficient (Inr 1024) 500 = (False, 1024, 1064) \<and> 2 * (500::int) + 64 > uint (1024 :: 64 word)"
proof -
  have s: "Sufficient (Inr 1024) 500 = (False, 1024, 1064)" by code_simp
  moreover have "sint (500 :: 64 word) < 2 ^ 63 - 32" by simp
  ultimately show ?thesis using Sufficient_budget [of 500 "Inr 1024"] by simp
qed

end
