(* ===== verification/Go_Mux.thy ===== *)
theory Go_Mux
  imports Go_Url
begin

text \<open>
  Go's \<^verbatim>\<open>http.ServeMux\<close> (1.22 and later) for patterns as the program registers them: an optional
  method, and a path that is literal but for a final \<^verbatim>\<open>{$}\<close>, which stands for the end.  No two of
  the patterns overlap, so that their order does not matter.  Paths are those of \<^verbatim>\<open>EscapedPath\<close>.
\<close>

section \<open>Clean paths\<close>

text \<open>\<^verbatim>\<open>path.Clean\<close> on a rooted path goes through its elements with a stack.\<close>

fun path_elements :: "string \<Rightarrow> string list" where
  "path_elements [] = [[]]"
| "path_elements (c # cs) =
     (if c = CHR ''/'' then [] # path_elements cs
      else case path_elements cs of [] \<Rightarrow> [[c]] | e # es \<Rightarrow> (c # e) # es)"

fun clean_elements :: "string list \<Rightarrow> string list \<Rightarrow> string list" where
  "clean_elements stack [] = rev stack"
| "clean_elements stack (e # es) =
     (if e = [] \<or> e = ''.'' then clean_elements stack es
      else if e = ''..'' then clean_elements (tl stack) es
      else clean_elements (e # stack) es)"

definition rooted :: "string list \<Rightarrow> string" where
  "rooted es = concat (map (\<lambda>e. CHR ''/'' # e) es)"

definition path_Clean :: "string \<Rightarrow> string" where
  "path_Clean p = (case clean_elements [] (path_elements p) of [] \<Rightarrow> ''/'' | es \<Rightarrow> rooted es)"

text \<open>\<^verbatim>\<open>cleanPath\<close> of \<^verbatim>\<open>net/http\<close> keeps a trailing slash.\<close>

definition cleanPath :: "string \<Rightarrow> string" where
  "cleanPath p =
     (let p = (if p = [] \<or> hd p \<noteq> CHR ''/'' then CHR ''/'' # p else p); np = path_Clean p
      in if last p = CHR ''/'' \<and> np \<noteq> ''/'' then np @ ''/'' else np)"

text \<open>
  What a clean path is: it starts with a slash, and no element of it is a dot or two dots, or empty
  before the last one.
\<close>

definition clean_path :: "string \<Rightarrow> bool" where
  "clean_path p \<longleftrightarrow>
     p \<noteq> [] \<and> hd p = CHR ''/'' \<and> [] \<notin> set (butlast (path_elements (tl p))) \<and>
     ''.'' \<notin> set (path_elements (tl p)) \<and> ''..'' \<notin> set (path_elements (tl p))"

lemma path_elements_nonempty [simp]: "path_elements p \<noteq> []"
  by (induction p) (simp_all split: list.split)

lemma path_elements_prefix: "CHR ''/'' \<notin> set x \<Longrightarrow> path_elements (x @ CHR ''/'' # y) = x # path_elements y"
  by (induction x) auto

lemma path_elements_plain: "CHR ''/'' \<notin> set x \<Longrightarrow> path_elements x = [x]"
  by (induction x) auto

lemma path_elements_slashfree: "e \<in> set (path_elements p) \<Longrightarrow> CHR ''/'' \<notin> set e"
  by (induction p arbitrary: e) (auto split: if_splits list.splits)

lemma rooted_simps [simp]: "rooted [] = []" "rooted (e # es) = CHR ''/'' # e @ rooted es"
  by (simp_all add: rooted_def)

lemma rooted_path_elements: "rooted (path_elements p) = CHR ''/'' # p"
proof (induction p)
  case (Cons c p)
  then show ?case by (cases "path_elements p") auto
qed simp

text \<open>A proper list of elements: what \<^const>\<open>clean_elements\<close> leaves alone.\<close>

definition proper :: "string \<Rightarrow> bool" where
  "proper e \<longleftrightarrow> e \<noteq> [] \<and> e \<noteq> ''.'' \<and> e \<noteq> ''..'' \<and> CHR ''/'' \<notin> set e"

lemma clean_elements_proper: "list_all proper es \<Longrightarrow> clean_elements stack (es @ [[]]) = rev stack @ es"
  "list_all proper es \<Longrightarrow> clean_elements stack es = rev stack @ es"
  by (induction es arbitrary: stack) (simp_all add: proper_def)

lemma clean_elements_are_proper:
  "list_all proper stack \<Longrightarrow> (\<And>e. e \<in> set es \<Longrightarrow> CHR ''/'' \<notin> set e) \<Longrightarrow> list_all proper (clean_elements stack es)"
proof (induction stack es rule: clean_elements.induct)
  case (1 stack)
  then show ?case by simp
next
  case (2 stack e es)
  have "list_all proper (tl stack)" using 2(4) by (cases stack) simp_all
  with 2 show ?case by (auto simp: proper_def [of e])
qed

lemma path_elements_rooted:
  "list_all proper es \<Longrightarrow> es \<noteq> [] \<Longrightarrow> path_elements (rooted es @ rest) =
     [] # butlast es @ path_elements (last es @ rest)" if "rest = [] \<or> hd rest = CHR ''/''"
proof (induction es)
  case (Cons e es)
  then show ?case
    by (cases es) (simp_all add: proper_def path_elements_prefix)
qed simp

text \<open>The values of \<^const>\<open>cleanPath\<close>: the root, or proper elements with or without a trailing slash.\<close>

lemma cleanPath_cases:
  "\<exists>es. list_all proper es \<and>
     (if es = [] then cleanPath p = ''/'' else cleanPath p = rooted es \<or> cleanPath p = rooted es @ ''/'')"
proof -
  let ?p = "if p = [] \<or> hd p \<noteq> CHR ''/'' then CHR ''/'' # p else p"
  let ?es = "clean_elements [] (path_elements ?p)"
  have "list_all proper ?es" using path_elements_slashfree by (intro clean_elements_are_proper) auto
  moreover have "if ?es = [] then cleanPath p = ''/'' else cleanPath p = rooted ?es \<or> cleanPath p = rooted ?es @ ''/''"
    by (auto simp: cleanPath_def path_Clean_def Let_def split: list.split)
  ultimately show ?thesis by blast
qed

lemma clean_path_rooted:
  assumes "list_all proper es" and "es \<noteq> []"
  shows "clean_path (rooted es)" and "clean_path (rooted es @ ''/'')"
proof -
  obtain e fs where es: "es = e # fs" using assms(2) by (cases es) auto
  have last: "proper (last es)" and all: "\<forall>e\<in>set es. proper e" using assms by (auto simp: list_all_iff)
  have "path_elements (rooted es) = [] # butlast es @ path_elements (last es)"
    and "path_elements (rooted es @ ''/'') = [] # butlast es @ path_elements (last es @ ''/'')"
    using path_elements_rooted [of "[]" es] path_elements_rooted [of "''/''" es] assms by simp_all
  moreover have "path_elements (last es) = [last es]" "path_elements (last es @ ''/'') = [last es, []]"
    using last path_elements_prefix [of "last es" "[]"] by (simp_all add: proper_def path_elements_plain)
  moreover have "butlast es @ [last es] = es" using assms(2) by simp
  ultimately have "path_elements (tl (rooted es)) = es" and "path_elements (tl (rooted es @ ''/'')) = es @ [[]]"
    by (simp_all add: es)
  moreover have "[] \<notin> set es" "''.'' \<notin> set es" "''..'' \<notin> set es"
    using all by (auto simp: proper_def)
  ultimately show "clean_path (rooted es)" and "clean_path (rooted es @ ''/'')"
    by (auto simp: clean_path_def es dest: in_set_butlastD)
qed

lemma clean_path_cleanPath: "clean_path (cleanPath p)"
proof -
  obtain es where "list_all proper es" and
    "if es = [] then cleanPath p = ''/'' else cleanPath p = rooted es \<or> cleanPath p = rooted es @ ''/''"
    using cleanPath_cases by blast
  then show ?thesis using clean_path_rooted [of es] by (auto simp: clean_path_def split: if_splits)
qed

lemma cleanPath_clean:
  assumes "clean_path p"
  shows "cleanPath p = p"
proof -
  define es where "es = path_elements (tl p)"
  have p: "p = CHR ''/'' # tl p" using assms by (cases p) (simp_all add: clean_path_def)
  then have r: "rooted es = p" by (simp add: es_def rooted_path_elements)
  have es: "es = butlast es @ [last es]" by (simp add: es_def)
  have free: "\<forall>e\<in>set es. CHR ''/'' \<notin> set e" by (simp add: es_def path_elements_slashfree)
  have no: "[] \<notin> set (butlast es)" "''.'' \<notin> set es" "''..'' \<notin> set es"
    using assms by (simp_all add: clean_path_def es_def)
  have init: "list_all proper (butlast es)"
    unfolding list_all_iff proper_def using free no by (auto dest: in_set_butlastD)
  have elems: "path_elements p = [] # es" by (subst p) (simp add: es_def)
  show ?thesis
  proof (cases "last es = []")
    case True
    have "clean_elements [] (path_elements p) = butlast es"
      using clean_elements_proper(1) [OF init, of "[]"] elems es True by simp
    moreover have "p = rooted (butlast es) @ ''/''"
    proof -
      have "rooted es = rooted (butlast es) @ rooted [last es]"
        by (subst es) (simp add: rooted_def del: append_butlast_last_id)
      with r True show ?thesis by simp
    qed
    moreover have "p \<noteq> []" "hd p = CHR ''/''" using assms by (simp_all add: clean_path_def)
    moreover have "hd (butlast es) \<noteq> []" if "butlast es \<noteq> []" using init that by (cases "butlast es") (auto simp: proper_def)
    ultimately show ?thesis by (cases "butlast es") (auto simp: cleanPath_def path_Clean_def Let_def)
  next
    case False
    have "proper (last es)"
      unfolding proper_def using False free no es by (metis in_set_conv_decomp)
    with init have "list_all proper es" by (subst es) (simp del: append_butlast_last_id)
    then have "clean_elements [] (path_elements p) = es" using elems clean_elements_proper(2) [of es "[]"] by simp
    moreover have "last p \<noteq> CHR ''/''"
    proof -
      have "rooted es = rooted (butlast es) @ rooted [last es]"
        by (subst es) (simp add: rooted_def del: append_butlast_last_id)
      then have "last p = last (last es)" using r False by simp
      moreover have "last (last es) \<in> set (last es)" using False by simp
      ultimately show ?thesis using \<open>proper (last es)\<close> by (metis proper_def)
    qed
    moreover have "p \<noteq> []" "hd p = CHR ''/''" "es \<noteq> []" using assms es by (auto simp: clean_path_def)
    ultimately show ?thesis using r by (cases es) (auto simp: cleanPath_def path_Clean_def)
  qed
qed

lemma cleanPath_fixpoint: "cleanPath p = p \<longleftrightarrow> clean_path p"
  using cleanPath_clean clean_path_cleanPath by metis

section \<open>Patterns\<close>

text \<open>The elements of a path are decoded one by one before they are compared; a final slash is one of its own.\<close>

definition PathUnescape :: "string \<Rightarrow> string" where
  "PathUnescape s = (case unescape encodePath s of Some t \<Rightarrow> t | None \<Rightarrow> s)"

function segments :: "string \<Rightarrow> string list" where
  "segments p =
     (if p = [] then [] else if p = ''/'' then [''/'']
      else PathUnescape (takeWhile (\<lambda>c. c \<noteq> CHR ''/'') (tl p)) # segments (dropWhile (\<lambda>c. c \<noteq> CHR ''/'') (tl p)))"
  by pat_completeness auto
termination
proof (relation "measure length", simp)
  fix p :: string
  assume "p \<noteq> []"
  then show "(dropWhile (\<lambda>c. c \<noteq> CHR ''/'') (tl p), p) \<in> measure length"
    using length_dropWhile_le [of "\<lambda>c. c \<noteq> CHR ''/''" "tl p"] by (cases p) simp_all
qed

declare segments.simps [simp del]

definition parse_pattern :: "string \<Rightarrow> string option \<times> string list" where
  "parse_pattern pat =
     (case CutByte pat (CHR '' '') of
        (m, path) \<Rightarrow>
          if path = [] then (None, segments (TrimSuffix pat ''{$}'')) else (Some m, segments (TrimSuffix path ''{$}'')))"

text \<open>A pattern for GET also takes HEAD.\<close>

definition takes_method :: "string option \<Rightarrow> string \<Rightarrow> bool" where
  "takes_method pm m \<longleftrightarrow> pm = None \<or> pm = Some m \<or> (pm = Some ''GET'' \<and> m = ''HEAD'')"

datatype 'h routed = Handle 'h | Redirect string | MethodNotAllowed | NotFound

text \<open>
  A request for a path that is not clean is redirected, unless its method is CONNECT.  When no
  pattern takes the method, those for the path, and for the path with a slash after it, decide
  between 405 and 404.
\<close>

definition mux_route :: "(string \<times> 'h) list \<Rightarrow> string \<Rightarrow> string \<Rightarrow> 'h routed" where
  "mux_route mux m path =
     (let p = (if m = ''CONNECT'' then path else cleanPath path);
          on = (\<lambda>q. filter (\<lambda>(pat, h). snd (parse_pattern pat) = segments q) mux)
      in if p \<noteq> path then Redirect p
         else
           (case filter (\<lambda>(pat, h). takes_method (fst (parse_pattern pat)) m) (on p) of
              (pat, h) # _ \<Rightarrow> Handle h
            | [] \<Rightarrow>
                if on p \<noteq> [] \<or> (\<not> HasSuffix p ''/'' \<and> on (p @ ''/'') \<noteq> []) then MethodNotAllowed else NotFound))"

lemma segments_slash: "p \<noteq> [] \<Longrightarrow> last p \<noteq> CHR ''/'' \<Longrightarrow> segments (p @ ''/'') = segments p @ [''/'']"
proof (induction p rule: segments.induct)
  case (1 p)
  let ?T = "takeWhile (\<lambda>c. c \<noteq> CHR ''/'')" and ?D = "dropWhile (\<lambda>c. c \<noteq> CHR ''/'')"
  have p: "p \<noteq> []" "p \<noteq> ''/''" using 1(2,3) by auto
  have l: "segments (p @ ''/'') = PathUnescape (?T (tl p @ ''/'')) # segments (?D (tl p @ ''/''))"
    using p by (subst segments.simps) (cases p, simp_all)
  have r: "segments p = PathUnescape (?T (tl p)) # segments (?D (tl p))"
    using p by (subst segments.simps) simp
  show ?case
  proof (cases "CHR ''/'' \<in> set (tl p)")
    case True
    then have ne: "?D (tl p) \<noteq> []" by auto
    have "last (?D (tl p)) = last (tl p)"
      using ne by (metis last_appendR takeWhile_dropWhile_id)
    also have "last (tl p) = last p" using True by (cases p) auto
    finally have "segments (?D (tl p) @ ''/'') = segments (?D (tl p)) @ [''/'']"
      using 1(1) [OF p ne] 1(3) by simp
    with l r True show ?thesis by simp
  next
    case False
    then have keep: "c \<noteq> CHR ''/''" if "c \<in> set (tl p)" for c using that by auto
    then have "?T (tl p @ ''/'') = tl p" "?D (tl p @ ''/'') = ''/''" "?T (tl p) = tl p" "?D (tl p) = []"
      by (simp_all add: takeWhile_append2 dropWhile_append2)
    with l r show ?thesis by (simp add: segments.simps [of "[]"] segments.simps [of "''/''"])
  qed
qed

text \<open>Following a redirect never leads to another one.\<close>

lemma mux_route_Redirect:
  "mux_route mux m path = Redirect q \<longleftrightarrow> m \<noteq> ''CONNECT'' \<and> \<not> clean_path path \<and> q = cleanPath path"
  using cleanPath_fixpoint [of path]
  by (auto simp: mux_route_def Let_def split: list.splits if_splits)

lemma redirect_once: "mux_route mux m path = Redirect q \<Longrightarrow> mux_route mux m' q \<noteq> Redirect r"
  using clean_path_cleanPath [of path] by (auto simp: mux_route_Redirect)

end
