(* ===== verification/Server.thy ===== *)
theory Server
  imports Reload Serve Fdlimit Go_Mux
begin

text \<open>
  The command (\<^verbatim>\<open>main.go\<close>): flags, what \<^verbatim>\<open>main\<close> does up to \<^verbatim>\<open>serve\<close>, and the routes of the server
  with the handlers defined in that file.  kingpin, which reads the command line, and the
  validation of the web configuration are parameters.
\<close>

section \<open>Flags\<close>

datatype flag_kind = EnumFlag "string list" | StringFlag | BoolFlag | DurationFlag | IntFlag

record flag_decl =
  fd_name :: string
  fd_kind :: flag_kind
  fd_default :: string
  fd_envar :: string

text \<open>The values kingpin leaves in the variables the flags are bound to.\<close>

record flag_values =
  kv_WebConfigFile :: string
  kv_logLevel :: string
  kv_ConfigFile :: string
  kv_CheckConfig :: bool
  kv_ProbeTimeout :: int
  kv_MaxConcurrentProbe :: int
  kv_AllowAllTargets :: bool

text \<open>Given the declared flags and the arguments: an exit code, or the values.\<close>

type_synonym kingpin = "flag_decl list \<Rightarrow> string list \<Rightarrow> int + flag_values"

definition envPrefix :: string where "envPrefix = ''SSH_TRANSPORT_EXPORTER_''"

definition flag_spec :: "string \<Rightarrow> flag_kind \<Rightarrow> string \<Rightarrow> string \<Rightarrow> flag_decl" where
  "flag_spec name kind deflt envar = \<lparr> fd_name = name, fd_kind = kind, fd_default = deflt, fd_envar = envar \<rparr>"

definition declared_flags :: "flag_decl list" where
  "declared_flags =
     [flag_spec ''web.listen-address'' StringFlag '':10022'' (envPrefix @ ''LISTEN_ADDRESS''),
      flag_spec ''web.config.file'' StringFlag [] (envPrefix @ ''WEB_CONFIG_FILE''),
      flag_spec ''log.level'' (EnumFlag [''debug'', ''info'', ''warn'', ''error'']) ''info'' (envPrefix @ ''LOG_LEVEL''),
      flag_spec ''config.file'' StringFlag ''ssh_transport_exporter.yaml'' (envPrefix @ ''CONFIG_FILE''),
      flag_spec ''config.check'' BoolFlag [] [],
      flag_spec ''probe.timeout'' DurationFlag ''5s'' (envPrefix @ ''PROBE_TIMEOUT''),
      flag_spec ''probe.max-concurrent'' IntFlag ''500'' (envPrefix @ ''PROBE_MAX_CONCURRENT''),
      flag_spec ''allow-all-targets'' BoolFlag ''false'' (envPrefix @ ''ALLOW_ALL_TARGETS'')]"

text \<open>\<^verbatim>\<open>slog.Level.UnmarshalText\<close> on the words the enumeration admits; an error leaves the level at 0.\<close>

definition level_of :: "string \<Rightarrow> int" where
  "level_of word =
     (if word = ''debug'' then - 4 else if word = ''info'' then 0 else if word = ''warn'' then 4
      else if word = ''error'' then 8 else 0)"

record flags =
  f_WebConfigFile :: string
  f_LogLevel :: int
  f_ConfigFile :: string
  f_CheckConfig :: bool
  f_ProbeTimeout :: int
  f_MaxConcurrentProbe :: int
  f_AllowAllTargets :: bool

datatype flag_error = TimeoutNotPositive int | MaxConcurrentNegative int

definition validate :: "flags \<Rightarrow> flag_error option" where
  "validate f =
     (if f_ProbeTimeout f \<le> 0 then Some (TimeoutNotPositive (f_ProbeTimeout f))
      else if f_MaxConcurrentProbe f < 0 then Some (MaxConcurrentNegative (f_MaxConcurrentProbe f))
      else None)"

text \<open>\<^verbatim>\<open>app.Fatalf\<close> ends the process with code 1.\<close>

definition parseFlags :: "kingpin \<Rightarrow> string list \<Rightarrow> int + flags" where
  "parseFlags kp args =
     (case kp declared_flags args of
        Inl code \<Rightarrow> Inl code
      | Inr kv \<Rightarrow>
          let f = \<lparr> f_WebConfigFile = kv_WebConfigFile kv, f_LogLevel = 0, f_ConfigFile = kv_ConfigFile kv,
                    f_CheckConfig = kv_CheckConfig kv, f_ProbeTimeout = kv_ProbeTimeout kv,
                    f_MaxConcurrentProbe = kv_MaxConcurrentProbe kv, f_AllowAllTargets = kv_AllowAllTargets kv \<rparr>
          in case validate f of
               Some _ \<Rightarrow> Inl 1
             | None \<Rightarrow> Inr (f\<lparr> f_LogLevel := level_of (kv_logLevel kv) \<rparr>))"

definition checkConfig :: "(string \<Rightarrow> gerr option) \<Rightarrow> flags \<Rightarrow> gerr option" where
  "checkConfig web_Validate f = web_Validate (f_WebConfigFile f)"

section \<open>main\<close>

definition readHeaderTimeout :: int where "readHeaderTimeout = 5 * Second"
definition idleTimeout :: int where "idleTimeout = 2 * 60 * Second"
definition shutdownTimeout :: int where "shutdownTimeout = 10 * Second"
definition probeTimeoutOffset :: int where "probeTimeoutOffset = 500 * 1000000"

record server =
  srv_live :: modules
  srv_served :: served
  srv_fdWarning :: "(64 word \<times> 64 word) option"
  srv_handler :: handler_options
  srv_ReadHeaderTimeout :: int
  srv_IdleTimeout :: int

datatype started = Exit int | Run server

text \<open>
  The first part of \<^verbatim>\<open>main\<close>, until \<^verbatim>\<open>serve\<close> is called: \<^verbatim>\<open>Exit\<close> with a code, or the server it runs.  The
  gauges of a reload are set for the first load, too.
\<close>

definition main_start ::
  "kingpin \<Rightarrow> string list \<Rightarrow> (string \<Rightarrow> bool \<Rightarrow> config_error + modules) \<Rightarrow> int \<Rightarrow> (string \<Rightarrow> gerr option) \<Rightarrow>
     gerr + 64 word \<Rightarrow> started" where
  "main_start kp args config_Load now web_Validate softLimit =
     (case parseFlags kp args of
        Inl code \<Rightarrow> Exit code
      | Inr cfg \<Rightarrow>
          (case config_Load (f_ConfigFile cfg) (f_AllowAllTargets cfg) of
             Inl err \<Rightarrow> Exit 1
           | Inr mods \<Rightarrow>
               if f_CheckConfig cfg then (case checkConfig web_Validate cfg of Some _ \<Rightarrow> Exit 1 | None \<Rightarrow> Exit 0)
               else
                 let (ok, soft, needed) = Sufficient softLimit (word_of_int (f_MaxConcurrentProbe cfg))
                 in Run \<lparr> srv_live = mods,
                          srv_served = record_result None now (newConfigReloadMetrics mods),
                          srv_fdWarning = (if \<not> ok then Some (soft, needed) else None),
                          srv_handler = \<lparr> ho_Timeout = f_ProbeTimeout cfg, ho_TimeoutOffset = probeTimeoutOffset,
                                          ho_MaxConcurrent = f_MaxConcurrentProbe cfg \<rparr>,
                          srv_ReadHeaderTimeout = readHeaderTimeout, srv_IdleTimeout = idleTimeout \<rparr>))"

text \<open>The rest: the exit code after \<^verbatim>\<open>serve\<close>.\<close>

definition main_exit :: "serve_error option \<Rightarrow> int" where
  "main_exit err = (case serve_result err of Some _ \<Rightarrow> 1 | None \<Rightarrow> 0)"

lemma parseFlags_valid:
  "parseFlags kp args = Inr f \<Longrightarrow> 0 < f_ProbeTimeout f \<and> 0 \<le> f_MaxConcurrentProbe f"
  by (auto simp: parseFlags_def validate_def Let_def split: sum.splits if_splits)

text \<open>The warning \<^verbatim>\<open>main\<close> logs, in terms of the limit and the number of probes.\<close>

lemma fd_warning:
  assumes "m < 2 ^ 63 - 32" and "0 \<le> m"
  shows "(case Sufficient softLimit (word_of_int m) of (ok, soft, needed) \<Rightarrow> if \<not> ok then Some (soft, needed) else None) =
    (case softLimit of Inr soft \<Rightarrow> if 0 < m \<and> uint soft < 2 * m + 64 then Some (soft, word_of_int (2 * m + 64)) else None
     | Inl _ \<Rightarrow> None)"
proof -
  have m: "sint (word_of_int m :: 64 word) = m"
    using assms by (simp add: sint_sbintrunc' signed_take_bit_int_eq_self)
  have needed: "word_of_int m * perProbe + headroom = word_of_int (2 * m + 64)"
    by (simp add: perProbe_def headroom_def)
  have "uint (word_of_int m * perProbe + headroom) = 2 * m + 64" if "0 < m"
    using uint_needed [of "word_of_int m"] m that assms by simp
  with needed show ?thesis
    using assms(2) m by (cases softLimit) (auto simp: Sufficient_def Let_def word_le_def not_le)
qed

text \<open>C16.  What \<^verbatim>\<open>main\<close> does up to \<^verbatim>\<open>serve\<close>, for every outcome of the command line, the configuration and
  the check.  It exits with kingpin's code when kingpin ends it; with 1 for a timeout that is not
  positive, a negative limit, a configuration that does not load, or a check that finds the web
  configuration invalid; with 0 for a check that finds both valid.  Otherwise, and only then, it
  serves the loaded modules, and its gauges say that the load at that time succeeded.  The handler
  gets the timeout and the limit of the flags, and an offset of half a second; the server gets
  5 seconds for headers and 2 minutes of idling; and the limit on open files is
  warned of exactly when probes are limited and it is below two per probe plus 64, for limits below the range
  in which that number wraps around.\<close>

theorem main_start_outcome:
  "case kp declared_flags args of
     Inl code \<Rightarrow> main_start kp args config_Load now web_Validate softLimit = Exit code
   | Inr kv \<Rightarrow>
       if kv_ProbeTimeout kv \<le> 0 \<or> kv_MaxConcurrentProbe kv < 0 \<or>
          (\<exists>e. config_Load (kv_ConfigFile kv) (kv_AllowAllTargets kv) = Inl e)
       then main_start kp args config_Load now web_Validate softLimit = Exit 1
       else if kv_CheckConfig kv
       then main_start kp args config_Load now web_Validate softLimit =
         Exit (if web_Validate (kv_WebConfigFile kv) = None then 0 else 1)
       else (\<exists>srv. main_start kp args config_Load now web_Validate softLimit = Run srv \<and>
         config_Load (kv_ConfigFile kv) (kv_AllowAllTargets kv) = Inr (srv_live srv) \<and>
         srv_served srv = \<lparr> sv_live = srv_live srv, sv_successful = 1, sv_timestamp = now \<rparr> \<and>
         srv_handler srv = \<lparr> ho_Timeout = kv_ProbeTimeout kv, ho_TimeoutOffset = 500 * 10 ^ 6,
           ho_MaxConcurrent = kv_MaxConcurrentProbe kv \<rparr> \<and>
         srv_ReadHeaderTimeout srv = 5 * 10 ^ 9 \<and> srv_IdleTimeout srv = 120 * 10 ^ 9 \<and>
         (kv_MaxConcurrentProbe kv < 2 ^ 63 - 32 \<longrightarrow>
            srv_fdWarning srv =
              (case softLimit of
                 Inr soft \<Rightarrow>
                   if 0 < kv_MaxConcurrentProbe kv \<and> uint soft < 2 * kv_MaxConcurrentProbe kv + 64
                   then Some (soft, word_of_int (2 * kv_MaxConcurrentProbe kv + 64)) else None
               | Inl _ \<Rightarrow> None)))"
proof (cases "kp declared_flags args")
  case (Inl code)
  then show ?thesis by (simp add: main_start_def parseFlags_def)
next
  case kv: (Inr kv)
  show ?thesis
  proof (cases "kv_ProbeTimeout kv \<le> 0 \<or> kv_MaxConcurrentProbe kv < 0")
    case True
    with kv have "parseFlags kp args = Inl 1" by (auto simp: parseFlags_def validate_def Let_def)
    with kv True show ?thesis by (auto simp: main_start_def)
  next
    case False
    with kv have parsed: "parseFlags kp args =
        Inr \<lparr> f_WebConfigFile = kv_WebConfigFile kv, f_LogLevel = level_of (kv_logLevel kv), f_ConfigFile = kv_ConfigFile kv,
          f_CheckConfig = kv_CheckConfig kv, f_ProbeTimeout = kv_ProbeTimeout kv,
          f_MaxConcurrentProbe = kv_MaxConcurrentProbe kv, f_AllowAllTargets = kv_AllowAllTargets kv \<rparr>"
      by (simp add: parseFlags_def validate_def Let_def)
    show ?thesis
    proof (cases "config_Load (kv_ConfigFile kv) (kv_AllowAllTargets kv)")
      case (Inl e)
      with kv parsed False show ?thesis by (simp add: main_start_def)
    next
      case (Inr mods)
      show ?thesis
        using kv False parsed Inr fd_warning [of "kv_MaxConcurrentProbe kv" softLimit]
        by (cases "Sufficient softLimit (word_of_int (kv_MaxConcurrentProbe kv))")
          (simp add: main_start_def checkConfig_def probeTimeoutOffset_def readHeaderTimeout_def idleTimeout_def Second_def
            newConfigReloadMetrics_def record_result_def split: option.split)
    qed
  qed
qed

definition sample_kingpin :: "bool \<Rightarrow> kingpin" where
  "sample_kingpin check _ _ = Inr \<lparr> kv_WebConfigFile = [], kv_logLevel = ''warn'', kv_ConfigFile = ''c.yml'',
     kv_CheckConfig = check, kv_ProbeTimeout = 5000000000, kv_MaxConcurrentProbe = 500, kv_AllowAllTargets = False \<rparr>"

theorem main_start_outcome_witness:
  "(\<exists>srv. main_start (sample_kingpin False) [] (\<lambda>_ _. Inr Map.empty) 7 (\<lambda>_. None) (Inr 1024) = Run srv \<and>
      sv_timestamp (srv_served srv) = 7 \<and> ho_Timeout (srv_handler srv) = 5 * 10 ^ 9 \<and> srv_fdWarning srv = Some (1024, 1064)) \<and>
   main_start (sample_kingpin True) [] (\<lambda>_ _. Inr Map.empty) 7 (\<lambda>_. None) (Inr 1024) = Exit 0"
  using main_start_outcome [of "sample_kingpin False" "[]" "\<lambda>_ _. Inr Map.empty" 7 "\<lambda>_. None" "Inr 1024"]
    main_start_outcome [of "sample_kingpin True" "[]" "\<lambda>_ _. Inr Map.empty" 7 "\<lambda>_. None" "Inr 1024"]
  by (auto simp: sample_kingpin_def)

section \<open>Routes\<close>

datatype route = LandingPage | Health | ReloadConfig | Metrics | Probe

definition addLifecycleHandlers :: "(string \<times> route) list \<Rightarrow> (string \<times> route) list" where
  "addLifecycleHandlers mux =
     mux @ [(''GET /-/healthy'', Health), (''GET /-/ready'', Health), (''POST /-/reload'', ReloadConfig)]"

definition main_mux :: "(string \<times> route) list" where
  "main_mux = addLifecycleHandlers [(''GET /{$}'', LandingPage)] @ [(''/metrics'', Metrics), (''/probe'', Probe)]"

subsection \<open>The handlers\<close>

definition entity :: "char \<Rightarrow> string" where
  "entity c =
     (if c = CHR ''&'' then ''&amp;'' else if c = CHR 0x27 then ''&#39;'' else if c = CHR ''<'' then ''&lt;''
      else if c = CHR ''>'' then ''&gt;'' else if c = CHR 0x22 then ''&#34;'' else [c])"

definition EscapeString :: "string \<Rightarrow> string" where
  "EscapeString s = concat (map entity s)"

definition landingHead :: string where
  "landingHead =
     ''<html>'' @ newline @
     ''<head><title>SSH Transport Exporter</title></head>'' @ newline @
     ''<body>'' @ newline @
     ''<h1>SSH Transport Exporter</h1>'' @ newline @
     ''<p>Version <code>''"

definition landingTail :: string where
  "landingTail =
     ''</code>, <a href=\"https://github.com/raphaelthomas/ssh_transport_exporter\">source and documentation</a>.</p>'' @ newline @
     ''<p><a href=\"/metrics\"><code>/metrics</code></a> exposes the exporter'' @ [CHR 0x27] @ ''s own metrics.</p>'' @ newline @
     ''<p><code>/probe?target=&lt;host&gt;&amp;module=&lt;module&gt;</code> runs a probe and returns its result.</p>'' @ newline @
     ''</body>'' @ newline @
     ''</html>'' @ newline"

definition landingPage :: "string \<Rightarrow> string" where
  "landingPage version = landingHead @ EscapeString version @ landingTail"

definition landingPageHandler :: "string \<Rightarrow> plain_response" where
  "landingPageHandler version =
     \<lparr> pr_status = 200, pr_contentType = ''text/html; charset=utf-8'', pr_body = landingPage version \<rparr>"

definition healthHandler :: plain_response where
  "healthHandler = \<lparr> pr_status = 200, pr_contentType = text_plain, pr_body = ''OK'' @ newline \<rparr>"

text \<open>
  A request to the server: the answers of the handlers of \<^verbatim>\<open>main.go\<close>, and where the others go.
\<close>

datatype http_answer = Answer plain_response | ToPrometheus | ToProbe | Redirected string | Error405 | Error404

definition server_ServeHTTP ::
  "string \<Rightarrow> config_error + modules \<Rightarrow> int \<Rightarrow> string \<Rightarrow> string \<Rightarrow> served \<Rightarrow> http_answer \<times> served" where
  "server_ServeHTTP version loaded now m path sv =
     (case mux_route main_mux m path of
        Handle LandingPage \<Rightarrow> (Answer (landingPageHandler version), sv)
      | Handle Health \<Rightarrow> (Answer healthHandler, sv)
      | Handle ReloadConfig \<Rightarrow> (case reload_ServeHTTP loaded now sv of (r, sv') \<Rightarrow> (Answer r, sv'))
      | Handle Metrics \<Rightarrow> (ToPrometheus, sv)
      | Handle Probe \<Rightarrow> (ToProbe, sv)
      | Redirect q \<Rightarrow> (Redirected q, sv)
      | MethodNotAllowed \<Rightarrow> (Error405, sv)
      | NotFound \<Rightarrow> (Error404, sv))"

lemma parsed_mux:
  "map (\<lambda>(pat, r). (parse_pattern pat, r)) main_mux =
     [((Some ''GET'', [''/'']), LandingPage), ((Some ''GET'', [''-'', ''healthy'']), Health), ((Some ''GET'', [''-'', ''ready'']), Health),
      ((Some ''POST'', [''-'', ''reload'']), ReloadConfig), ((None, [''metrics'']), Metrics), ((None, [''probe'']), Probe)]"
  by code_simp

definition registered :: "string list set" where
  "registered = {[''/''], [''-'', ''healthy''], [''-'', ''ready''], [''-'', ''reload''], [''metrics''], [''probe'']}"

text \<open>No registered path has an element before a final slash.\<close>

lemma slash_registered: "clean_path path \<Longrightarrow> \<not> HasSuffix path ''/'' \<Longrightarrow> segments (path @ ''/'') \<notin> registered"
proof -
  assume path: "clean_path path" "\<not> HasSuffix path ''/''"
  then have "path \<noteq> []" by (simp add: clean_path_def)
  moreover from this path(2) have "last path \<noteq> CHR ''/''"
    by (metis HasSuffix_suffix append_butlast_last_id suffix_def)
  moreover have "segments path \<noteq> []" using \<open>path \<noteq> []\<close> by (subst segments.simps) simp
  ultimately show ?thesis by (auto simp: segments_slash registered_def append_eq_Cons_conv)
qed

lemma route_main:
  assumes "clean_path path"
  shows "mux_route main_mux m path =
     (if segments path = [''/''] then if m \<in> {''GET'', ''HEAD''} then Handle LandingPage else MethodNotAllowed
      else if segments path \<in> {[''-'', ''healthy''], [''-'', ''ready'']}
      then if m \<in> {''GET'', ''HEAD''} then Handle Health else MethodNotAllowed
      else if segments path = [''-'', ''reload''] then if m = ''POST'' then Handle ReloadConfig else MethodNotAllowed
      else if segments path = [''metrics''] then Handle Metrics
      else if segments path = [''probe''] then Handle Probe
      else NotFound)"
proof -
  obtain p1 p2 p3 p4 p5 p6 where mux: "main_mux = [(p1, LandingPage), (p2, Health), (p3, Health), (p4, ReloadConfig), (p5, Metrics), (p6, Probe)]"
    and parsed: "parse_pattern p1 = (Some ''GET'', [''/''])" "parse_pattern p2 = (Some ''GET'', [''-'', ''healthy''])"
      "parse_pattern p3 = (Some ''GET'', [''-'', ''ready''])" "parse_pattern p4 = (Some ''POST'', [''-'', ''reload''])"
      "parse_pattern p5 = (None, [''metrics''])" "parse_pattern p6 = (None, [''probe''])"
    using parsed_mux by (auto simp: map_eq_Cons_conv)
  have get: "takes_method (Some ''GET'') k \<longleftrightarrow> k \<in> {''GET'', ''HEAD''}" "takes_method (Some ''POST'') k \<longleftrightarrow> k = ''POST''"
    "takes_method None k" for k by (auto simp: takes_method_def)
  have clean: "(if m = ''CONNECT'' then path else cleanPath path) = path" using assms by (simp add: cleanPath_clean)
  have no: "filter (\<lambda>(pat, h). snd (parse_pattern pat) = segments (path @ ''/'')) main_mux = []" if "\<not> HasSuffix path ''/''"
    using slash_registered [OF assms that] by (auto simp: mux parsed registered_def)
  show ?thesis
  proof (cases "segments path \<in> registered")
    case True
    then show ?thesis unfolding registered_def
      by (elim insertE emptyE) (simp_all add: mux_route_def clean Let_def mux parsed get)
  next
    case False
    then have "filter (\<lambda>(pat, h). snd (parse_pattern pat) = segments path) main_mux = []"
      by (auto simp: mux parsed registered_def)
    with no have "mux_route main_mux m path = NotFound"
      by (cases "HasSuffix path ''/''") (simp_all add: mux_route_def clean Let_def)
    with False show ?thesis by (simp add: registered_def)
  qed
qed

text \<open>C17.  The routes over HTTP.  A request with a clean path loads the configuration exactly when it
  is a POST to \<^verbatim>\<open>/-/reload\<close>: it answers 200 when the load succeeded, whose modules are then live, and 500
  when it failed, which keeps the modules and the time of the last success and only marks the
  failure in the gauge; every other request leaves the configuration and the gauges alone.
  \<^verbatim>\<open>/probe\<close> is served for every method, GET and HEAD are the only methods of the landing and health
  pages, and paths that are not registered answer 404.  A path that is not clean is redirected to
  one that is, so that a client that follows is not redirected again and meets the same rules.
  Signals, which also reload, are not part of this.\<close>

theorem http_routes:
  "(m \<noteq> ''CONNECT'' \<and> \<not> clean_path path \<longrightarrow>
      server_ServeHTTP version loaded now m path sv = (Redirected (cleanPath path), sv) \<and> clean_path (cleanPath path)) \<and>
   (clean_path path \<longrightarrow>
      (case server_ServeHTTP version loaded now m path sv of (ans, sv') \<Rightarrow>
         (if m = ''POST'' \<and> segments path = [''-'', ''reload'']
          then (case loaded of
              Inl e \<Rightarrow> ans = Answer (http_Error ''config reload failed, keeping previous config'' 500) \<and>
                sv' = sv\<lparr> sv_successful := 0 \<rparr>
            | Inr mods \<Rightarrow> (\<exists>r. ans = Answer r \<and> pr_status r = 200) \<and>
                sv' = \<lparr> sv_live = mods, sv_successful = 1, sv_timestamp = now \<rparr>)
          else sv' = sv) \<and>
         (ans = ToProbe \<longleftrightarrow> segments path = [''probe'']) \<and>
         (ans = Error405 \<longleftrightarrow>
            segments path \<in> {[''/''], [''-'', ''healthy''], [''-'', ''ready'']} \<and> m \<notin> {''GET'', ''HEAD''} \<or>
            segments path = [''-'', ''reload''] \<and> m \<noteq> ''POST'') \<and>
         (ans = Error404 \<longleftrightarrow> segments path \<notin> registered) \<and> (\<forall>q. ans \<noteq> Redirected q)))"
proof (intro conjI impI)
  assume "m \<noteq> ''CONNECT'' \<and> \<not> clean_path path"
  then have "mux_route main_mux m path = Redirect (cleanPath path)" by (simp add: mux_route_Redirect)
  then show "server_ServeHTTP version loaded now m path sv = (Redirected (cleanPath path), sv)"
    by (simp add: server_ServeHTTP_def)
  show "clean_path (cleanPath path)" by (rule clean_path_cleanPath)
next
  assume clean: "clean_path path"
  show "case server_ServeHTTP version loaded now m path sv of (ans, sv') \<Rightarrow>
         (if m = ''POST'' \<and> segments path = [''-'', ''reload'']
          then (case loaded of
              Inl e \<Rightarrow> ans = Answer (http_Error ''config reload failed, keeping previous config'' 500) \<and>
                sv' = sv\<lparr> sv_successful := 0 \<rparr>
            | Inr mods \<Rightarrow> (\<exists>r. ans = Answer r \<and> pr_status r = 200) \<and>
                sv' = \<lparr> sv_live = mods, sv_successful = 1, sv_timestamp = now \<rparr>)
          else sv' = sv) \<and>
         (ans = ToProbe \<longleftrightarrow> segments path = [''probe'']) \<and>
         (ans = Error405 \<longleftrightarrow>
            segments path \<in> {[''/''], [''-'', ''healthy''], [''-'', ''ready'']} \<and> m \<notin> {''GET'', ''HEAD''} \<or>
            segments path = [''-'', ''reload''] \<and> m \<noteq> ''POST'') \<and>
         (ans = Error404 \<longleftrightarrow> segments path \<notin> registered) \<and> (\<forall>q. ans \<noteq> Redirected q)"
    by (cases loaded; cases "segments path \<in> registered")
      (auto simp: server_ServeHTTP_def route_main [OF clean] reload_ServeHTTP_def reload_def record_result_def registered_def)
qed

text \<open>A POST to an escaped spelling of the path reloads; one with a superfluous slash is sent to it.\<close>

theorem http_routes_witness:
  "snd (server_ServeHTTP [] (Inr Map.empty) 7 ''POST'' ''/-/r%65load'' (newConfigReloadMetrics [''m'' \<mapsto> undefined])) =
     \<lparr> sv_live = Map.empty, sv_successful = 1, sv_timestamp = 7 \<rparr> \<and>
   fst (server_ServeHTTP [] (Inr Map.empty) 7 ''POST'' ''//-/./reload'' (newConfigReloadMetrics Map.empty)) = Redirected ''/-/reload''"
proof
  have c: "clean_path ''/-/r%65load''" "segments ''/-/r%65load'' = [''-'', ''reload'']"
    "\<not> clean_path ''//-/./reload''" "cleanPath ''//-/./reload'' = ''/-/reload''"
    by code_simp+
  show "snd (server_ServeHTTP [] (Inr Map.empty) 7 ''POST'' ''/-/r%65load'' (newConfigReloadMetrics [''m'' \<mapsto> undefined])) =
     \<lparr> sv_live = Map.empty, sv_successful = 1, sv_timestamp = 7 \<rparr>"
    using http_routes [of "''POST''" "''/-/r%65load''" "[]" "Inr Map.empty" 7 "newConfigReloadMetrics [''m'' \<mapsto> undefined]"] c(1,2)
    by (auto split: prod.splits)
  show "fst (server_ServeHTTP [] (Inr Map.empty) 7 ''POST'' ''//-/./reload'' (newConfigReloadMetrics Map.empty)) = Redirected ''/-/reload''"
    using http_routes [of "''POST''" "''//-/./reload''" "[]" "Inr Map.empty" 7 "newConfigReloadMetrics Map.empty"] c(3,4) by simp
qed

lemma entity_prefix_free: "entity c @ x = entity d @ y \<longleftrightarrow> c = d \<and> x = y"
  by (auto simp: entity_def split: if_splits)

lemma EscapeString_Cons [simp]: "EscapeString (c # s) = entity c @ EscapeString s" "EscapeString [] = []"
  by (simp_all add: EscapeString_def)

lemma entity_nonempty [simp]: "entity c \<noteq> []"
  by (simp add: entity_def)

lemma EscapeString_inject [simp]: "EscapeString v = EscapeString w \<longleftrightarrow> v = w"
proof (induction v arbitrary: w)
  case (Cons c v)
  then show ?case by (cases w) (simp_all add: entity_prefix_free)
qed (case_tac w, simp_all)

lemma EscapeString_safe: "set (EscapeString v) \<inter> {CHR ''<'', CHR ''>'', CHR 0x22, CHR 0x27} = {}"
proof (induction v)
  case (Cons c v)
  moreover have "set (entity c) \<inter> {CHR ''<'', CHR ''>'', CHR 0x22, CHR 0x27} = {}" by (simp add: entity_def)
  ultimately show ?case by (simp only: EscapeString_Cons set_append Int_Un_distrib2 Un_empty)
qed simp

text \<open>The version cannot inject markup into the landing page: the page is a fixed text around the
  escaped version, in which no angle bracket and no quote is left, and nothing of it is lost.\<close>

theorem landing_page_escapes:
  "(\<exists>escaped. landingPage version = landingHead @ escaped @ landingTail \<and>
      set escaped \<inter> {CHR ''<'', CHR ''>'', CHR 0x22, CHR 0x27} = {}) \<and>
   inj landingPage"
  using EscapeString_safe [of version] by (auto simp: landingPage_def inj_def simp del: Int_insert_right)

end
