(* ===== verification/Exporter.thy ===== *)
theory Exporter
  imports Server
begin

text \<open>
  The running exporter: requests in the \<^verbatim>\<open>/probe\<close> handler together with reloads, which share the
  pointer to the live modules.  A request reads it once; a reload stores to it while requests are
  under way.
\<close>

record exporter =
  x_handler :: hstate
  x_reload :: rstate

text \<open>\<^verbatim>\<open>main\<close> stores the modules it loaded, from the first version of the disk, before it serves.\<close>

definition exporter_init :: "reload_env \<Rightarrow> exporter \<Rightarrow> bool" where
  "exporter_init renv x \<longleftrightarrow>
     Handler_init (x_handler x) \<and> reload_init (r_served (x_reload x)) (x_reload x) \<and>
     h_live (x_handler x) = sv_live (r_served (x_reload x)) \<and>
     loaded_from renv (r_disks (x_reload x)) 0 (Inr (sv_live (r_served (x_reload x))))"

inductive exporter_step :: "handler_env \<Rightarrow> reload_env \<Rightarrow> exporter \<Rightarrow> exporter \<Rightarrow> bool" for henv renv where
  arrives: "h_tasks (x_handler x) i = None \<Longrightarrow>
    exporter_step henv renv x (x\<lparr> x_handler := arrive henv i r (x_handler x) \<rparr>)"
| works: "task_step henv (x_handler x) h \<Longrightarrow> exporter_step henv renv x (x\<lparr> x_handler := h \<rparr>)"
| reloads: "reload_step renv (x_reload x) r \<Longrightarrow>
    exporter_step henv renv x
      (x\<lparr> x_reload := r, x_handler := (x_handler x)\<lparr> h_live := sv_live (r_served r) \<rparr> \<rparr>)"

section \<open>Requests hold loaded modules\<close>

definition from_file :: "handler_env \<Rightarrow> reload_env \<Rightarrow> disk list \<Rightarrow> task \<Rightarrow> bool" where
  "from_file henv renv ds t \<longleftrightarrow>
     (\<exists>modules r. loadable renv ds (Inr modules) \<and>
        admission (he_lower henv) modules r = Inr (t_module t, t_mod t, t_target t))"

definition exporter_inv :: "handler_env \<Rightarrow> reload_env \<Rightarrow> exporter \<Rightarrow> bool" where
  "exporter_inv henv renv x \<longleftrightarrow>
     handler_inv henv (x_handler x) \<and>
     (\<exists>sv. loadable renv (r_disks (x_reload x)) (Inr (sv_live sv)) \<and> reload_inv renv sv (x_reload x)) \<and>
     h_live (x_handler x) = sv_live (r_served (x_reload x)) \<and>
     (\<forall>i t. h_tasks (x_handler x) i = Some t \<longrightarrow> from_file henv renv (r_disks (x_reload x)) t)"

lemma exporter_inv_live:
  "exporter_inv henv renv x \<Longrightarrow> loadable renv (r_disks (x_reload x)) (Inr (h_live (x_handler x)))"
  using live_loaded by (fastforce simp: exporter_inv_def)

text \<open>What the disk has been stays what it has been.\<close>

lemma reload_step_disks:
  assumes "reload_step env s t"
  shows "r_disks t = r_disks s \<or> (\<exists>d. r_disks t = r_disks s @ [d])"
  using assms
proof cases
  case works
  then show ?thesis by cases simp_all
qed simp_all

lemma loadable_mono:
  "loadable env ds res \<Longrightarrow> ds' = ds \<or> (\<exists>d. ds' = ds @ [d]) \<Longrightarrow> loadable env ds' res"
  by (auto simp: loadable_def intro: loaded_from_append)

lemma from_file_mono:
  "from_file henv renv ds t \<Longrightarrow> ds' = ds \<or> (\<exists>d. ds' = ds @ [d]) \<Longrightarrow> from_file henv renv ds' t"
  unfolding from_file_def using loadable_mono by blast

lemma from_file_cong:
  "t_module t' = t_module t \<Longrightarrow> t_mod t' = t_mod t \<Longrightarrow> t_target t' = t_target t \<Longrightarrow>
     from_file henv renv ds t' = from_file henv renv ds t"
  by (simp add: from_file_def)

lemma task_step_live: "task_step env s s' \<Longrightarrow> h_live s' = h_live s"
  by (induction rule: task_step.induct)
     (simp_all add: acquire_def writeError_def begin_probe_def answer_def Let_def panic_def end_probe_def leave_def split: option.split)

lemma arrive_live [simp]: "h_live (arrive env i r s) = h_live s"
  by (simp add: arrive_def writeError_def split: sum.split)

lemma arrive_from_file:
  assumes "loadable renv ds (Inr (h_live s))" and "h_tasks (arrive env i r s) j = Some t"
  shows "h_tasks s j = Some t \<or> from_file env renv ds t"
proof (cases "admission (he_lower env) (h_live s) r")
  case (Inl e)
  with assms(2) show ?thesis by (cases e) (simp add: arrive_def writeError_def)
next
  case (Inr a)
  obtain name md target where a: "a = (name, md, target)" by (cases a) auto
  show ?thesis
  proof (cases "j = i")
    case True
    with assms(2) Inr a have "admission (he_lower env) (h_live s) r = Inr (t_module t, t_mod t, t_target t)"
      by (auto simp: arrive_def)
    with assms(1) show ?thesis unfolding from_file_def by blast
  next
    case False
    with assms(2) Inr a show ?thesis by (simp add: arrive_def)
  qed
qed

lemma task_step_from_file:
  assumes "task_step env s s'" and "\<And>i t. h_tasks s i = Some t \<Longrightarrow> from_file env renv ds t" and "h_tasks s' j = Some u"
  shows "from_file env renv ds u"
proof -
  from task_step_effect [OF assms(1)] obtain i t where t: "h_tasks s i = Some t"
    and eff: "h_tasks s' = (h_tasks s)(i := None) \<or> (\<exists>t'. h_tasks s' = (h_tasks s)(i \<mapsto> t') \<and>
      t_module t' = t_module t \<and> t_mod t' = t_mod t \<and> t_target t' = t_target t)"
    by blast
  have "from_file env renv ds t" using t by (rule assms(2))
  then show ?thesis
    using eff assms(2) [of j u] assms(3) from_file_cong [of u t env renv ds] by (cases "j = i") auto
qed

interpretation exporter: inductive_invariant "exporter_init renv" "exporter_step henv renv" "exporter_inv henv renv" for henv renv
proof
  fix x
  assume init: "exporter_init renv x"
  then have "handler_inv henv (x_handler x)" by (auto simp: exporter_init_def intro: handler.base)
  moreover from init have "reload_inv renv (r_served (x_reload x)) (x_reload x)"
    by (auto simp: exporter_init_def intro: reload.base)
  moreover have "loadable renv (r_disks (x_reload x)) (Inr (sv_live (r_served (x_reload x))))"
    using init by (auto simp: exporter_init_def loadable_def)
  ultimately show "exporter_inv henv renv x"
    using init by (auto simp: exporter_inv_def exporter_init_def Handler_init_def)
next
  fix x y
  assume inv: "exporter_inv henv renv x" and "exporter_step henv renv x y"
  from this(2) show "exporter_inv henv renv y"
  proof cases
    case (arrives i r)
    have "handler_inv henv (arrive henv i r (x_handler x))"
      using inv handler_step.arrives [OF arrives(2)] by (auto simp: exporter_inv_def intro: handler_step_inv)
    moreover have "from_file henv renv (r_disks (x_reload x)) t" if "h_tasks (arrive henv i r (x_handler x)) j = Some t" for j t
      using arrive_from_file [OF exporter_inv_live [OF inv] that] inv by (auto simp: exporter_inv_def)
    ultimately show ?thesis using inv arrives(1) by (simp add: exporter_inv_def)
  next
    case (works h)
    have "handler_inv henv h" using inv works(2) by (auto simp: exporter_inv_def intro: task_step_inv)
    moreover have "from_file henv renv (r_disks (x_reload x)) t" if "h_tasks h j = Some t" for j t
      using task_step_from_file [OF works(2) _ that] inv by (auto simp: exporter_inv_def)
    ultimately show ?thesis using inv works(1) task_step_live [OF works(2)] by (simp add: exporter_inv_def)
  next
    case (reloads r)
    note grow = reload_step_disks [OF reloads(2)]
    from inv obtain sv where "loadable renv (r_disks (x_reload x)) (Inr (sv_live sv))" "reload_inv renv sv (x_reload x)"
      by (auto simp: exporter_inv_def)
    with reloads(2) have sv: "loadable renv (r_disks r) (Inr (sv_live sv))" and "reload_inv renv sv r"
      using grow by (auto intro: reload_step_inv loadable_mono)
    moreover have "from_file henv renv (r_disks r) t" if "h_tasks (x_handler x) j = Some t" for j t
    proof -
      have "from_file henv renv (r_disks (x_reload x)) t" using inv that by (auto simp: exporter_inv_def)
      then show ?thesis using grow by (rule from_file_mono)
    qed
    moreover have "handler_inv henv ((x_handler x)\<lparr> h_live := sv_live (r_served r) \<rparr>)"
      using inv by (auto simp: exporter_inv_def intro: handler_step_inv handler_step.reloads)
    ultimately show ?thesis using reloads(1) by (auto simp: exporter_inv_def)
  qed
qed

section \<open>From the configuration file to the dialled address\<close>

lemma Load_module:
  assumes "Load fs lib ul New order path flag = Inr mods" and "iteration_order order" and "mods name = Some m"
  shows "\<exists>doc md. decodes fs path doc \<and> (name, md) \<in> set (modules_of doc) \<and> module_valid lib (inherit doc md) \<and>
    built ul New (flag \<and> c_AllowedTargets doc = []) (inherit doc md) m"
proof -
  from assms(1) obtain doc where doc: "decodes fs path doc" "resolve_config lib flag doc = Inr (resolved doc flag)"
    and b: "build ul New ((resolved doc flag)\<lparr> c_Modules := order (c_Modules (resolved doc flag)) \<rparr>) = Inr mods"
    by (auto simp: Load_def res_bind_eq_Inr map_err_eq_Inr loadRawConfig_Inr resolve_config_Inr)
  let ?ms = "order (c_Modules (resolved doc flag))"
  from b obtain bs where
    bs: "list_all2 (\<lambda>x y. build_module ul New (flag \<and> c_AllowedTargets doc = []) x = Inr y) ?ms bs"
    and mods: "mods = map_of (rev bs)"
    by (auto simp: build_def res_bind_eq_Inr res_map_Inr_iff foldl_update resolved_def)
  from assms(3) have "(name, m) \<in> set bs" by (auto simp: mods dest: map_of_SomeD)
  then obtain i where i: "i < length bs" "bs ! i = (name, m)" by (auto simp: in_set_conv_nth)
  have "build_module ul New (flag \<and> c_AllowedTargets doc = []) (?ms ! i) = Inr (name, m)"
    using list_all2_nthD2 [OF bs i(1)] i(2) by simp
  moreover obtain md' where md': "?ms ! i = (name, md')"
    using calculation by (cases "?ms ! i") (auto dest: build_module_Inr)
  ultimately have built: "built ul New (flag \<and> c_AllowedTargets doc = []) md' m" by (auto dest: build_module_Inr)
  have "?ms ! i \<in> set ?ms" using i bs by (auto simp: list_all2_lengthD)
  with md' have "(name, md') \<in> set (c_Modules (resolved doc flag))" using iteration_order_keeps(1) [OF assms(2)] by auto
  then obtain md where md: "md' = inherit doc md" "(name, md) \<in> set (modules_of doc)" by (auto simp: resolved_def)
  moreover have "module_valid lib (inherit doc md)" using doc(2) md(2) by (auto simp: resolve_config_Inr)
  ultimately show ?thesis using built doc(1) by blast
qed

lemma built_allows:
  assumes "built ul New (flag \<and> c_AllowedTargets doc = []) (inherit doc md) m"
    and "mt \<in> set (mod_AllowedTargets m)" and "h \<in> allowed_hosts mt"
  shows "if targets_of doc md = [] then flag
    else \<exists>pattern\<in>set (targets_of doc md). \<exists>mt. buildTarget ul pattern = Inr mt \<and> h \<in> allowed_hosts mt"
proof -
  from assms(1) have
    res: "resolveAllowedTargets ul (targets_of doc md) (flag \<and> c_AllowedTargets doc = []) = Inr (mod_AllowedTargets m)"
    by (simp add: built_def)
  show ?thesis
  proof (cases "targets_of doc md = []")
    case True
    with res show ?thesis by (auto simp: resolveAllowedTargets_def split: if_splits)
  next
    case False
    with res have r: "res_map (buildTarget ul) (targets_of doc md) = Inr (mod_AllowedTargets m)"
      by (simp add: resolveAllowedTargets_def)
    from res_map_Inr_ex [OF r assms(2)] assms(3) False show ?thesis by auto
  qed
qed

text \<open>C1.  End to end: whatever requests arrive and however often the files change and the configuration
  is reloaded meanwhile, every address a request in the running exporter is about to dial was
  allowed by a configuration file the disk had at some time since the start, and with which the
  configuration loaded.
  When the dialer can split the address, its port is one of those that file lists for the module
  of the request, a valid port number, and its host is one a pattern of the module or of the top
  level denotes; without any pattern the operator has set the flag that allows all targets.\<close>

theorem exporter_dials_configured_targets:
  assumes "reach (exporter_init renv) (exporter_step henv renv) x"
    and "he_lower henv = re_lower renv" and "keeps_punctuation (re_lower renv)"
    and "h_tasks (x_handler x) i = Some t" and "SplitHostPort (t_target t) = Some (h, p)"
  shows "\<exists>d\<in>set (r_disks (x_reload x)). \<exists>doc md.
    (\<exists>order modules. iteration_order order \<and> load_from renv d order = Inr modules) \<and>
    decodes (dk_files d) (re_configFile renv) doc \<and> (t_module t, md) \<in> set (modules_of doc) \<and>
    module_valid (re_lib renv) (inherit doc md) \<and>
    (\<exists>port\<in>set (ports_of doc md). Atoi p = Inr port \<and> 1 \<le> port \<and> port \<le> 65535) \<and>
    (if targets_of doc md = [] then re_allowAllTargets renv
     else \<exists>pattern\<in>set (targets_of doc md). \<exists>m. buildTarget (re_lower renv) pattern = Inr m \<and> h \<in> allowed_hosts m)"
proof -
  have "exporter_inv henv renv x" using assms(1) by (rule exporter.reach_inv)
  with assms(4) have "from_file henv renv (r_disks (x_reload x)) t" by (simp add: exporter_inv_def)
  then obtain modules r v order where adm: "admission (re_lower renv) modules r = Inr (t_module t, t_mod t, t_target t)"
    and v: "v < length (r_disks (x_reload x))"
    and order: "iteration_order order" and load: "load_from renv (r_disks (x_reload x) ! v) order = Inr modules"
    using assms(2) by (auto simp: from_file_def loadable_def loaded_from_def)
  define d where "d = r_disks (x_reload x) ! v"
  have d: "d \<in> set (r_disks (x_reload x))" using v by (simp add: d_def)
  note load = load [folded d_def]
  from adm have mod: "modules (t_module t) = Some (t_mod t)" unfolding admission_Inr by blast
  from Load_module [OF load [unfolded load_from_def] order mod] obtain doc md where
    doc: "decodes (dk_files d) (re_configFile renv) doc" "(t_module t, md) \<in> set (modules_of doc)"
    and valid: "module_valid (re_lib renv) (inherit doc md)"
    and b: "built (re_lower renv) (dk_New d) (re_allowAllTargets renv \<and> c_AllowedTargets doc = []) (inherit doc md) (t_mod t)"
    by blast
  from valid b have tp: "0 \<le> mod_TargetPort (t_mod t)" "mod_TargetPort (t_mod t) < 2 ^ 63"
    and ports: "mod_AllowedPorts (t_mod t) = set (ports_of doc md)" "set (ports_of doc md) \<subseteq> {1..65535}"
    by (auto simp: module_valid_def built_def elems_def)
  note target = admitted_target [OF assms(3) adm assms(5) tp]
  then obtain m where "m \<in> set (mod_AllowedTargets (t_mod t))" "h \<in> allowed_hosts m" by blast
  note allows = built_allows [OF b this]
  have "\<exists>port\<in>set (ports_of doc md). Atoi p = Inr port \<and> 1 \<le> port \<and> port \<le> 65535"
    using target ports by auto
  with d doc valid allows order load show ?thesis by blast
qed

text \<open>A request for a host of the sample configuration, right after the start.\<close>

definition sample_henv :: handler_env where
  "sample_henv = sample_env\<lparr> he_lower := id \<rparr>"

definition host_request :: http_request where
  "host_request = \<lparr> rq_module = [], rq_target = ''a.example.com'', rq_scrapeTimeout = ''3'' \<rparr>"

definition sample_exporter :: "modules \<Rightarrow> exporter" where
  "sample_exporter mods = \<lparr> x_handler = sample_start\<lparr> h_live := mods \<rparr>,
     x_reload = sample_quiet\<lparr> r_served := record_result None 100 (newConfigReloadMetrics mods) \<rparr> \<rparr>"

lemma sample_module_default:
  assumes "load_from sample_renv good_disk rev = Inr mods"
  shows "\<exists>m. admission id mods host_request = Inr (''default'', m, ''a.example.com:2222'')"
proof -
  from assms have l: "Load sample_files sample_library id sample_New rev ''c.yml'' True = Inr mods"
    by (simp add: load_from_def sample_renv_def good_disk_def)
  have "''default'' \<in> dom mods" using Load_Inr(1) [OF l sample_decodes(3,1,2)] sample_decodes(4) by simp
  then obtain m where m: "mods ''default'' = Some m" by blast
  have md: "map_of (modules_of sample_document) ''default'' = Some zero_rawConfigModule" by code_simp
  with Load_Inr(2) [OF l sample_decodes(3,1,2) m] have b: "built id sample_New (True \<and> c_AllowedTargets sample_document = [])
      (inherit sample_document zero_rawConfigModule) m" by auto
  have t: "targets_of sample_document zero_rawConfigModule = [''*.example.com'']"
    and p: "ports_of sample_document zero_rawConfigModule = [2222]"
      "target_port_of sample_document zero_rawConfigModule = 2222"
    and "resolveAllowedTargets id [''*.example.com''] (True \<and> c_AllowedTargets sample_document = []) =
      Inr [wildcardMatcher ''example.com'']"
    and e: "ensurePort id ''a.example.com'' 2222 = Inr (''a.example.com:2222'', ''a.example.com'', 2222)"
      "targetAllowed Match ''a.example.com'' [wildcardMatcher ''example.com'']"
    by code_simp+
  with b have "mod_AllowedTargets m = [wildcardMatcher ''example.com'']" "mod_AllowedPorts m = {2222}" "mod_TargetPort m = 2222"
    by (simp_all add: built_def elems_def)
  with e m show ?thesis
    by (intro exI [of _ m]) (unfold admission_Inr, simp add: host_request_def moduleName_def DefaultModuleName_def)
qed

lemma keeps_punctuation_id: "keeps_punctuation id"
  by (simp add: keeps_punctuation_def)

theorem exporter_dials_configured_targets_witness:
  "\<exists>x t. reach (exporter_init sample_renv) (exporter_step sample_henv sample_renv) x \<and>
     h_tasks (x_handler x) 0 = Some t \<and> t_target t = ''a.example.com:2222'' \<and>
     (\<exists>md. (t_module t, md) \<in> set (modules_of sample_document) \<and>
        (\<exists>pattern\<in>set (targets_of sample_document md). \<exists>m. buildTarget id pattern = Inr m \<and> ''a.example.com'' \<in> allowed_hosts m))"
proof -
  obtain mods where l: "load_from sample_renv good_disk rev = Inr mods" using good_load by blast
  with sample_module_default obtain m where adm: "admission id mods host_request = Inr (''default'', m, ''a.example.com:2222'')"
    by blast
  define x where "x = (sample_exporter mods)\<lparr> x_handler := arrive sample_henv 0 host_request (x_handler (sample_exporter mods)) \<rparr>"
  have "exporter_init sample_renv (sample_exporter mods)"
    using l sample_decodes(3)
    by (auto simp: loaded_from_def exporter_init_def Handler_init_def reload_init_def sample_exporter_def sample_start_def sample_quiet_def
        record_result_def newConfigReloadMetrics_def)
  then have "reach (exporter_init sample_renv) (exporter_step sample_henv sample_renv) (sample_exporter mods)" by (rule reach.start)
  then have r: "reach (exporter_init sample_renv) (exporter_step sample_henv sample_renv) x"
    unfolding x_def by (rule reach.more) (rule exporter_step.arrives, simp add: sample_exporter_def sample_start_def)
  obtain t where t: "h_tasks (x_handler x) 0 = Some t" "t_target t = ''a.example.com:2222''"
    using adm by (simp add: x_def arrive_def sample_henv_def sample_exporter_def)
  have henv: "he_lower sample_henv = re_lower sample_renv" and punct: "keeps_punctuation (re_lower sample_renv)"
    by (simp_all add: sample_henv_def sample_renv_def keeps_punctuation_id)
  have conf: "re_configFile sample_renv = ''c.yml''" and lower: "re_lower sample_renv = id"
    by (simp_all add: sample_renv_def)
  have split: "SplitHostPort (t_target t) = Some (''a.example.com'', ''2222'')" unfolding t(2) by code_simp
  have disks: "r_disks (x_reload x) = [good_disk]" by (simp add: x_def sample_exporter_def sample_quiet_def)
  from exporter_dials_configured_targets [OF r henv punct t(1) split]
  obtain doc md where doc: "decodes (dk_files good_disk) ''c.yml'' doc" "(t_module t, md) \<in> set (modules_of doc)"
    and host: "if targets_of doc md = [] then re_allowAllTargets sample_renv
      else \<exists>pattern\<in>set (targets_of doc md). \<exists>m. buildTarget id pattern = Inr m \<and> ''a.example.com'' \<in> allowed_hosts m"
    unfolding disks conf lower by auto
  have "doc = sample_document" using doc(1) by (auto simp: decodes_def good_disk_def sample_files_def)
  moreover have "targets_of sample_document md \<noteq> []" by (simp add: targets_of_def sample_document_def)
  ultimately have "\<exists>pattern\<in>set (targets_of sample_document md). \<exists>m. buildTarget id pattern = Inr m \<and> ''a.example.com'' \<in> allowed_hosts m"
    and "(t_module t, md) \<in> set (modules_of sample_document)" using doc(2) host by simp_all
  with r t show ?thesis by blast
qed

end
