(* ===== verification/Spec2Isabelle.thy ===== *)
theory Spec2Isabelle
  imports Exporter ProbeCorrect
begin

text \<open>
  A verification of \<^verbatim>\<open>ssh_transport_exporter\<close>, a Prometheus exporter that probes the transport layer
  of SSH servers: for each scrape it connects to a target, exchanges identification strings and
  keys, checks the host key against a known_hosts file, stops before user authentication, and
  reports what it saw as metrics.

  \<^bold>\<open>The parts of the program and their theories.\<close>

  \<^item> Go and its standard library, as far as the program uses them: \<^verbatim>\<open>Prelude\<close> (byte strings, results,
    \<^verbatim>\<open>strings\<close>, \<^verbatim>\<open>strconv\<close>), \<^verbatim>\<open>Go_Net\<close> (\<^verbatim>\<open>net/netip\<close> addresses and prefixes, \<^verbatim>\<open>net\<close> host and port),
    \<^verbatim>\<open>Go_Url\<close> (\<^verbatim>\<open>url.Parse\<close> on network-path references), \<^verbatim>\<open>Go_Mux\<close> (\<^verbatim>\<open>http.ServeMux\<close> with the
    redirection of paths that are not clean), \<^verbatim>\<open>Go_Errors\<close> (wrapped errors, \<^verbatim>\<open>errors.Is\<close>),
    \<^verbatim>\<open>Go_Float\<close> (\<^verbatim>\<open>float64\<close>, \<^verbatim>\<open>int64\<close>, \<^verbatim>\<open>time.Duration\<close>).
  \<^item> Configuration: \<^verbatim>\<open>Normalize\<close> (\<^verbatim>\<open>internal/normalize\<close>), \<^verbatim>\<open>Targets\<close> (\<^verbatim>\<open>internal/config/target.go\<close>), \<^verbatim>\<open>Config\<close>
    (\<^verbatim>\<open>internal/config/config.go\<close>), \<^verbatim>\<open>ConfigModules\<close> (\<^verbatim>\<open>internal/config/module.go\<close>).
  \<^item> One probe: \<^verbatim>\<open>Identification\<close>, \<^verbatim>\<open>HostKeys\<close>, \<^verbatim>\<open>Probe\<close> and the proofs in \<^verbatim>\<open>ProbeCorrect\<close>
    (\<^verbatim>\<open>internal/probe\<close>), \<^verbatim>\<open>Collector\<close> (\<^verbatim>\<open>internal/collector/collector.go\<close>).
  \<^item> The \<^verbatim>\<open>/probe\<close> handler (\<^verbatim>\<open>internal/probehttp/probehttp.go\<close>): \<^verbatim>\<open>Request\<close> (\<^verbatim>\<open>ensurePort\<close>),
    \<^verbatim>\<open>ScrapeTimeout\<close> (\<^verbatim>\<open>effectiveTimeout\<close>), \<^verbatim>\<open>Handler\<close> (admission and the status recorder),
    \<^verbatim>\<open>HandlerRuns\<close> (all requests at once).
  \<^item> The command (\<^verbatim>\<open>main.go\<close>, \<^verbatim>\<open>internal/fdlimit\<close>): \<^verbatim>\<open>Fdlimit\<close>, \<^verbatim>\<open>Reload\<close> (\<^verbatim>\<open>reloader\<close>), \<^verbatim>\<open>Serve\<close> (\<^verbatim>\<open>serve\<close>),
    \<^verbatim>\<open>Server\<close> (flags, start-up, routes), \<^verbatim>\<open>Exporter\<close> (handler and reloads together).

  \<^verbatim>\<open>main\<close> loads the configuration into a pointer to a map of modules, which reloads replace.  A
  request names a module and a target; the handler reads the pointer once, checks the target
  against the module, takes a slot of the semaphore and lets the collector run the probe.

  \<^bold>\<open>Correspondence.\<close>  Definitions keep the names of the code.  A struct is a record, an interface
  with its implementations a datatype, an error result a sum or an option with the messages as
  constructors.  A map is a function to options; where the order of its iteration could matter it
  is a list, or the order is an argument.  Integers that cannot overflow are \<^verbatim>\<open>int\<close>; the budget of
  file descriptors is a 64-bit word, and durations wrap around explicitly.  Code that runs
  concurrently is a step relation with one rule for each action on shared state: \<^verbatim>\<open>handler_step\<close>,
  \<^verbatim>\<open>reload_step\<close>, \<^verbatim>\<open>serve_step\<close>, \<^verbatim>\<open>exporter_step\<close>.  All contents the disk has had, the history of reloads,
  the log of the answers clients received, kept apart from the counters it is compared with, and
  the expiry of the drain are ghost variables.

  \<^bold>\<open>What the lemmas show.\<close>

  \<^item> Access control.  Matching refines the set of hosts a pattern denotes; a configuration that loads
    is valid and denies by default; the address \<^verbatim>\<open>ensurePort\<close> returns is split by the dialer into the
    host and port that were checked.  \<^verbatim>\<open>exporter_dials_configured_targets\<close> puts this together, from
    the contents of the disk in the run to the dialled address, for all interleavings of requests
    and reloads.
  \<^item> A probe.  Success means a ready transport and an accepted host key; the decision on the key
    is compared with the documented known_hosts policy, from which it departs in two cases; phases succeed in order, the first failure names
    the error, durations fit into the probe, and the watcher finds the identification string
    however reads are split.  Every metric collected is described and sent once.
  \<^item> Concurrency.  The semaphore bounds the probes in flight, the counters are the
    numbers of answers clients received, requests drain and leave nothing behind; concurrent reloads are equivalent to a sequence of them that
    never goes back to older files, and complete; \<^verbatim>\<open>serve\<close> returns after the drain of a shutdown,
    but without one when the listener fails, and cannot hang once a signal reached its channel.
  \<^item> The command.  \<^verbatim>\<open>main\<close> exits or serves as the flags, the load and the check say, with the timeouts
    and limits of the flags; over HTTP only a POST to its route reloads.

  \<^bold>\<open>Interfaces.\<close>  \<^verbatim>\<open>Transitions\<close> has the locales of an inductive invariant and of a ranked system;
  they are interpreted on the handler, on reloads, on \<^verbatim>\<open>serve\<close> and on the exporter.  \<^verbatim>\<open>target_matcher\<close>
  (in \<^verbatim>\<open>Targets\<close>) states what the handler relies on in a matcher, \<^verbatim>\<open>checked_collector\<close> (in \<^verbatim>\<open>Collector\<close>)
  what the registry demands of a collector; both are interpreted on the code's model.

  \<^bold>\<open>Bounds.\<close>  The results on floating-point timeouts assume that the maximum and the offset
  together are at most \<open>2 ^ 50\<close> nanoseconds, about thirteen days.  Runs need no fuel: loops are
  structural or have a measure, and the runs of the step relations are bounded by a rank.

  \<^bold>\<open>Parameters.\<close>  Code outside the repository is an argument: the Unicode table of \<^verbatim>\<open>strings.ToLower\<close>, reading files and decoding
  YAML, \<^verbatim>\<open>knownhosts.New\<close> and its callback, what the dialer, the clock, the context and
  \<^verbatim>\<open>ssh.NewClientConn\<close> do in a probe, \<^verbatim>\<open>strconv.ParseFloat\<close>, \<^verbatim>\<open>getrlimit\<close>, kingpin, and the validation of
  the web configuration.  What \<^verbatim>\<open>promhttp\<close> writes for a probe is an arbitrary sequence of headers and
  writes, or a panic.  The listener and \<^verbatim>\<open>Shutdown\<close> follow the documentation of \<^verbatim>\<open>net/http\<close>.  A load of
  the configuration sees one version of the disk.

  \<^bold>\<open>Not modelled.\<close>  Log output; the registration of the process metrics; the text of metrics and of
  error messages beyond their constructors; requests for the server as a whole (\<^verbatim>\<open>OPTIONS *\<close>); liveness of the probe itself, whose length the context
  bounds; \<^verbatim>\<open>internal/buildinfo\<close> (variables set by the linker); \<^verbatim>\<open>internal/sshtest\<close> and the end-to-end
  tests (test code).
\<close>

end
